theory Spec2Isabelle
  imports Main "HOL-Library.Sublist"
begin

section \<open>The offline rule-based translator of \<^verbatim>\<open>local_nl_sql.py\<close>\<close>

text \<open>
  The class \<^verbatim>\<open>LocalNLtoSQL\<close> maps a question to a pair \<^verbatim>\<open>(sql, explanation)\<close>.
  It holds a table catalog, a language lexicon and an ordered list of fifteen
  (regular expression, handler) rules; \<^verbatim>\<open>parse_question\<close> lower-cases and strips the
  question, runs \<^verbatim>\<open>re.search\<close> for every rule in order, returns what the first
  matching rule's handler returns (an exception of the handler makes the loop continue),
  and otherwise calls \<^verbatim>\<open>_keyword_based_query\<close>.

  Python strings are sequences of code points. A \<^typ>\<open>char\<close> of HOL has 256 values; the
  model reads it as the code point of the same number (U+0000 to U+00FF), and the
  functions below are those of Python 3 on that range. Questions with code points
  beyond U+00FF are outside the model.
\<close>

subsection \<open>Characters and strings\<close>

text \<open>\<^verbatim>\<open>str.isspace\<close>, also the class \<^verbatim>\<open>\s\<close> of \<^verbatim>\<open>re\<close> on \<^verbatim>\<open>str\<close> patterns:
  TAB to CR, FS to US, the space, NEL (U+0085) and the no-break space (U+00A0).\<close>

definition py_isspace :: "char \<Rightarrow> bool" where
  "py_isspace c = (let n = (of_char c :: nat) in
     (9 \<le> n \<and> n \<le> 13) \<or> (28 \<le> n \<and> n \<le> 32) \<or> n = 133 \<or> n = 160)"

text \<open>\<^verbatim>\<open>str.isdecimal\<close>, the class \<^verbatim>\<open>\d\<close>: below U+0100 only the ASCII digits.\<close>

definition py_isdecimal :: "char \<Rightarrow> bool" where
  "py_isdecimal c = (let n = (of_char c :: nat) in 48 \<le> n \<and> n \<le> 57)"

text \<open>\<^verbatim>\<open>str.isalnum\<close>: ASCII letters and digits and, above U+007F, the letters and
  numeric characters of Latin-1 (U+00AA, U+00B2, U+00B3, U+00B5, U+00B9, U+00BA,
  U+00BC to U+00BE, U+00C0 to U+00FF without U+00D7 and U+00F7).\<close>

definition py_isalnum :: "char \<Rightarrow> bool" where
  "py_isalnum c = (let n = (of_char c :: nat) in
     (48 \<le> n \<and> n \<le> 57) \<or> (65 \<le> n \<and> n \<le> 90) \<or> (97 \<le> n \<and> n \<le> 122) \<or>
     n = 170 \<or> n = 178 \<or> n = 179 \<or> n = 181 \<or> n = 185 \<or> n = 186 \<or>
     (188 \<le> n \<and> n \<le> 190) \<or> (192 \<le> n \<and> n \<le> 214) \<or>
     (216 \<le> n \<and> n \<le> 246) \<or> (248 \<le> n \<and> n \<le> 255))"

text \<open>The class \<^verbatim>\<open>\w\<close>: alphanumeric or the underscore.\<close>

definition py_isword :: "char \<Rightarrow> bool" where
  "py_isword c = (py_isalnum c \<or> c = CHR ''_'')"

text \<open>\<^verbatim>\<open>str.lower\<close> on one character: A to Z and U+00C0 to U+00DE (without the
  multiplication sign U+00D7) move up by 32; everything else is unchanged.\<close>

definition lower_char :: "char \<Rightarrow> char" where
  "lower_char c = (let n = (of_char c :: nat) in
     if (65 \<le> n \<and> n \<le> 90) \<or> (192 \<le> n \<and> n \<le> 222 \<and> n \<noteq> 215)
     then char_of (n + 32) else c)"

definition py_lower :: "string \<Rightarrow> string" where
  "py_lower s = map lower_char s"

text \<open>\<^verbatim>\<open>str.upper\<close> on one character. It is used by no function of the translator,
  only by the safety postcondition on its output. The sharp s (U+00DF) becomes the two
  letters SS. The upper-case forms of the micro sign (U+00B5) and of y with diaeresis
  (U+00FF) are U+039C and U+0178, beyond the range modelled and no ASCII letters; here
  these two characters are left as they are.\<close>

definition upper_char :: "char \<Rightarrow> string" where
  "upper_char c = (let n = (of_char c :: nat) in
     if (97 \<le> n \<and> n \<le> 122) \<or> (224 \<le> n \<and> n \<le> 254 \<and> n \<noteq> 247)
     then [char_of (n - 32)]
     else if n = 223 then ''SS'' else [c])"

definition py_upper :: "string \<Rightarrow> string" where
  "py_upper s = concat (map upper_char s)"

text \<open>\<^verbatim>\<open>str.strip()\<close>: leading and trailing whitespace removed.\<close>

definition py_strip :: "string \<Rightarrow> string" where
  "py_strip s = rev (dropWhile py_isspace (rev (dropWhile py_isspace s)))"

text \<open>\<^verbatim>\<open>s.startswith(p)\<close> and the substring test \<^verbatim>\<open>sub in s\<close>.\<close>

fun startswith :: "string \<Rightarrow> string \<Rightarrow> bool" where
  "startswith s [] = True"
| "startswith [] (p # ps) = False"
| "startswith (c # s) (p # ps) = (c = p \<and> startswith s ps)"

fun contains :: "string \<Rightarrow> string \<Rightarrow> bool" where
  "contains [] sub = (sub = [])"
| "contains (c # s) sub = (startswith (c # s) sub \<or> contains s sub)"

text \<open>\<^verbatim>\<open>s.replace(old, new)\<close> for one-character \<^verbatim>\<open>old\<close> and \<^verbatim>\<open>new\<close>.\<close>

definition py_replace :: "char \<Rightarrow> char \<Rightarrow> string \<Rightarrow> string" where
  "py_replace old new s = map (\<lambda>c. if c = old then new else c) s"

text \<open>Exceptions are values. Every exception the handlers can raise is a subclass of
  \<^verbatim>\<open>Exception\<close>, which is what the dispatch loop catches.\<close>

datatype py_exn = TypeError | ValueError | AttributeError | IndexError

text \<open>The decimal numeral of an integer.\<close>

definition digit_char :: "nat \<Rightarrow> char" where
  "digit_char d = char_of (48 + d)"

fun nat_str :: "nat \<Rightarrow> string" where
  "nat_str n = (if n < 10 then [digit_char n] else nat_str (n div 10) @ [digit_char (n mod 10)])"

declare nat_str.simps [simp del]

definition int_decimal :: "int \<Rightarrow> string" where
  "int_decimal i = (if i < 0 then CHR ''-'' # nat_str (nat (- i)) else nat_str (nat i))"

text \<open>Python's integers are unbounded, so they are values of \<^typ>\<open>int\<close>. The conversions
  between them and decimal text are bounded, though: CPython (by default, since 3.11 and
  in the later releases of the versions before it) raises ValueError when
  \<^verbatim>\<open>int\<close> is given more than \<^verbatim>\<open>sys.int_info.default_max_str_digits\<close> digits,
  leading zeros counted, and when \<^verbatim>\<open>str\<close> would produce more than that many.\<close>

definition max_str_digits :: nat where
  "max_str_digits = 4300"

text \<open>\<^verbatim>\<open>str(n)\<close> of an integer, as an f-string interpolates it.\<close>

definition py_str_int :: "int \<Rightarrow> py_exn + string" where
  "py_str_int i = (if max_str_digits < length (nat_str (nat \<bar>i\<bar>)) then Inl ValueError
                   else Inr (int_decimal i))"

text \<open>\<^verbatim>\<open>int(v)\<close>: \<^verbatim>\<open>None\<close> raises TypeError; a non-empty string of decimal digits is
  read in base ten (leading zeros allowed), unless it is longer than the limit. The
  recognizers capture the argument with \<^verbatim>\<open>\d+\<close>; the other spellings \<^verbatim>\<open>int\<close>
  accepts (a sign, underscores, surrounding blanks) are not modelled and are answered
  with ValueError, as every string that is no number is.\<close>

definition digit_val :: "char \<Rightarrow> int" where
  "digit_val c = int (of_char c - 48)"

definition digits_value :: "string \<Rightarrow> int" where
  "digits_value s = foldl (\<lambda>a c. 10 * a + digit_val c) 0 s"

definition py_int :: "string option \<Rightarrow> py_exn + int" where
  "py_int v = (case v of
      None \<Rightarrow> Inl TypeError
    | Some s \<Rightarrow> if s = [] \<or> \<not> list_all py_isdecimal s then Inl ValueError
               else if max_str_digits < length s then Inl ValueError
               else Inr (digits_value s))"

text \<open>A value interpolated into an f-string: \<^verbatim>\<open>None\<close> prints as the word None.\<close>

definition fmt :: "string option \<Rightarrow> string" where
  "fmt v = (case v of None \<Rightarrow> ''None'' | Some s \<Rightarrow> s)"

text \<open>\<^verbatim>\<open>d.get(k, default)\<close> on a dictionary with string keys; the key may be \<^verbatim>\<open>None\<close>,
  which no dictionary here contains.\<close>

definition dict_get :: "(string \<times> 'v) list \<Rightarrow> string option \<Rightarrow> 'v \<Rightarrow> 'v" where
  "dict_get d k dflt = (case k of
      None \<Rightarrow> dflt
    | Some key \<Rightarrow> (case map_of d key of None \<Rightarrow> dflt | Some v \<Rightarrow> v))"

subsection \<open>Regular expressions: the fragment the rules use\<close>

text \<open>
  The fifteen patterns use literals, the classes \<^verbatim>\<open>\s\<close>, \<^verbatim>\<open>\d\<close>, \<^verbatim>\<open>\w\<close> under
  \<^verbatim>\<open>+\<close> and \<^verbatim>\<open>*\<close>, the greedy option \<^verbatim>\<open>?\<close>, alternation, concatenation and
  capturing groups (numbered from 1 by their opening parenthesis). All are compiled
  with \<^verbatim>\<open>re.IGNORECASE\<close>.
\<close>

datatype cls = Space | Digit | Word

fun in_cls :: "cls \<Rightarrow> char \<Rightarrow> bool" where
  "in_cls Space c = py_isspace c"
| "in_cls Digit c = py_isdecimal c"
| "in_cls Word c = py_isword c"

datatype regex =
    Lit string
  | Plus cls
  | Star cls
  | Opt regex
  | Alt regex regex
  | Seq regex regex
  | Grp nat regex

primrec seqs :: "regex list \<Rightarrow> regex" where
  "seqs [] = Lit []"
| "seqs (r # rs) = Seq r (seqs rs)"

fun alts :: "regex list \<Rightarrow> regex" where
  "alts [] = Lit []"
| "alts [r] = r"
| "alts (r # rs) = Alt r (alts rs)"

fun ngroups :: "regex \<Rightarrow> nat" where
  "ngroups (Lit l) = 0"
| "ngroups (Plus k) = 0"
| "ngroups (Star k) = 0"
| "ngroups (Opt r) = ngroups r"
| "ngroups (Alt a b) = max (ngroups a) (ngroups b)"
| "ngroups (Seq a b) = max (ngroups a) (ngroups b)"
| "ngroups (Grp i r) = max i (ngroups r)"

text \<open>A literal under IGNORECASE matches a prefix that agrees with it up to case.\<close>

definition lit_match :: "string \<Rightarrow> string \<Rightarrow> bool" where
  "lit_match l s = (length l \<le> length s \<and> py_lower (take (length l) s) = py_lower l)"

text \<open>
  The matcher of \<^verbatim>\<open>re\<close> is a backtracking one. \<open>ms r (s, g)\<close> lists, in the order
  the backtracking search tries them, all ways \<open>r\<close> can match a prefix of \<open>s\<close>: each
  is the rest of the input and the group table after the match. A greedy repetition
  tries the longest run first, an option tries its body first, an alternation its left
  branch first, and a concatenation explores the continuations of each way of its first
  part before those of the next way.
\<close>

type_synonym mstate = "string \<times> string option list"

fun ms :: "regex \<Rightarrow> mstate \<Rightarrow> mstate list" where
  "ms (Lit l) (s, g) = (if lit_match l s then [(drop (length l) s, g)] else [])"
| "ms (Plus k) (s, g) =
     map (\<lambda>n. (drop n s, g)) (rev [1 ..< Suc (length (takeWhile (in_cls k) s))])"
| "ms (Star k) (s, g) =
     map (\<lambda>n. (drop n s, g)) (rev [0 ..< Suc (length (takeWhile (in_cls k) s))])"
| "ms (Opt r) (s, g) = ms r (s, g) @ [(s, g)]"
| "ms (Alt a b) (s, g) = ms a (s, g) @ ms b (s, g)"
| "ms (Seq a b) (s, g) = concat (map (ms b) (ms a (s, g)))"
| "ms (Grp i r) (s, g) =
     map (\<lambda>(s', g'). (s', g'[i - 1 := Some (take (length s - length s') s)])) (ms r (s, g))"

text \<open>A match object: the text matched (group 0) and the groups 1 to n, \<^verbatim>\<open>None\<close>
  for a group that took no part in the match.\<close>

record match =
  whole :: string
  subs :: "string option list"

text \<open>\<^verbatim>\<open>re.search\<close>: the first way to match at the leftmost position that has one.\<close>

fun re_search :: "regex \<Rightarrow> string \<Rightarrow> match option" where
  "re_search r [] =
     (case ms r ([], replicate (ngroups r) None) of
        [] \<Rightarrow> None
      | (s', g) # _ \<Rightarrow> Some \<lparr>whole = [], subs = g\<rparr>)"
| "re_search r (c # s) =
     (case ms r (c # s, replicate (ngroups r) None) of
        [] \<Rightarrow> re_search r s
      | (s', g) # _ \<Rightarrow> Some \<lparr>whole = take (length (c # s) - length s') (c # s), subs = g\<rparr>)"

text \<open>\<^verbatim>\<open>match.group(i)\<close>: IndexError for a group the pattern does not have.\<close>

definition group :: "match \<Rightarrow> nat \<Rightarrow> py_exn + string option" where
  "group m i = (if i = 0 then Inr (Some (whole m))
                else if i \<le> length (subs m) then Inr (subs m ! (i - 1))
                else Inl IndexError)"

subsection \<open>The catalog, the lexicon and the rules\<close>

text \<open>\<^verbatim>\<open>self.tables\<close>: a dictionary; Python iterates it in the order written.\<close>

definition tables :: "(string \<times> string list) list" where
  "tables =
   [(''workspaces'', [''id'', ''name'', ''owner_id'', ''created_at'', ''plan'', ''status'']),
    (''users'', [''id'', ''email'', ''name'', ''workspace_id'', ''role'', ''created_at'']),
    (''agents'', [''id'', ''workspace_id'', ''name'', ''language'', ''llm_model'', ''status'',
        ''created_at'']),
    (''integrations'', [''id'', ''workspace_id'', ''type'', ''config'', ''status'',
        ''last_sync_at'', ''created_at'']),
    (''agent_tools'', [''id'', ''agent_id'', ''tool_name'', ''tool_config'', ''created_at'']),
    (''agent_runs'', [''id'', ''agent_id'', ''workspace_id'', ''run_type'', ''status'',
        ''duration_ms'', ''started_at'', ''completed_at'']),
    (''test_runs'', [''id'', ''agent_id'', ''workspace_id'', ''test_input'', ''expected_output'',
        ''actual_output'', ''result'', ''error_message'', ''created_at'']),
    (''run_logs'', [''id'', ''run_id'', ''step'', ''event_type'', ''message'', ''payload'',
        ''timestamp'']),
    (''errors'', [''id'', ''run_id'', ''workspace_id'', ''source'', ''code'', ''message'',
        ''metadata'', ''created_at'']),
    (''integration_sync_logs'', [''id'', ''integration_id'', ''workspace_id'', ''sync_type'',
        ''status'', ''items_synced'', ''error_message'', ''created_at'']),
    (''billing_usage'', [''id'', ''workspace_id'', ''agent_id'', ''characters_generated'',
        ''calls_made'', ''tokens_used'', ''total_cost_usd'', ''created_at'']),
    (''audit_events'', [''id'', ''workspace_id'', ''user_id'', ''action'', ''entity'', ''before'',
        ''after'', ''created_at''])]"

text \<open>\<^verbatim>\<open>self.tables.keys()\<close>\<close>

definition table_names :: "string list" where
  "table_names = map fst tables"

text \<open>\<^verbatim>\<open>self.languages\<close>\<close>

definition languages :: "(string \<times> string) list" where
  "languages =
   [(''english'', ''en''), (''hindi'', ''hi''), (''gujarati'', ''gu''), (''tamil'', ''ta''),
    (''telugu'', ''te''), (''marathi'', ''mr''), (''bengali'', ''bn''), (''kannada'', ''kn''),
    (''malayalam'', ''ml''), (''punjabi'', ''pa'')]"

text \<open>The result of a handler and of \<^verbatim>\<open>parse_question\<close>: the pair
  \<^verbatim>\<open>(sql, explanation)\<close>, either of which may be \<^verbatim>\<open>None\<close>.\<close>

type_synonym result = "string option \<times> string option"

type_synonym handler = "match \<Rightarrow> string \<Rightarrow> py_exn + result"

text \<open>\<^verbatim>\<open>_get_time_filter\<close>\<close>

definition unit_map :: "(string \<times> string) list" where
  "unit_map = [(''hour'', ''hours''), (''day'', ''days''), (''week'', ''days''), (''month'', ''days'')]"

definition multiplier :: "(string \<times> int) list" where
  "multiplier = [(''hour'', 1), (''day'', 1), (''week'', 7), (''month'', 30)]"

definition get_time_filter :: "string option \<Rightarrow> string option \<Rightarrow> py_exn + string" where
  "get_time_filter val unit =
     (case py_int val of
        Inl e \<Rightarrow> Inl e
      | Inr v \<Rightarrow>
          (let actual_value = v * dict_get multiplier unit 1;
               actual_unit = dict_get unit_map unit ''days''
           in (case py_str_int actual_value of
                 Inl e \<Rightarrow> Inl e
               | Inr digits \<Rightarrow>
                   Inr (''datetime('now', '-'' @ digits @ '' '' @ actual_unit @
                        [CHR 0x27] @ '')''))))"

text \<open>The texts of the handlers, as the source writes them between triple quotes:
  with their line breaks, their indentation and the blanks at the ends of lines.\<close>

definition sql_top_errors :: "string \<Rightarrow> string \<Rightarrow> string" where
  "sql_top_errors time_filter limit =
     ''\<newline>'' @
     ''        SELECT code, message, source, COUNT(*) as error_count \<newline>'' @
     ''        FROM errors \<newline>'' @
     ''        WHERE created_at >= '' @ time_filter @ ''\<newline>'' @
     ''        GROUP BY code, message, source \<newline>'' @
     ''        ORDER BY error_count DESC \<newline>'' @
     ''        LIMIT '' @ limit @ ''\<newline>'' @
     ''        ''"

definition sql_errors_timeframe :: "string \<Rightarrow> string" where
  "sql_errors_timeframe time_filter =
     ''\<newline>'' @
     ''        SELECT * \<newline>'' @
     ''        FROM errors \<newline>'' @
     ''        WHERE created_at >= '' @ time_filter @ ''\<newline>'' @
     ''        ORDER BY created_at DESC\<newline>'' @
     ''        ''"

definition sql_failed_tests :: "string \<Rightarrow> string" where
  "sql_failed_tests time_filter =
     ''\<newline>'' @
     ''        SELECT tr.*, a.name as agent_name \<newline>'' @
     ''        FROM test_runs tr \<newline>'' @
     ''        JOIN agents a ON tr.agent_id = a.id \<newline>'' @
     ''        WHERE tr.result = 'fail' \<newline>'' @
     ''        AND tr.created_at >= '' @ time_filter @ ''\<newline>'' @
     ''        ORDER BY tr.created_at DESC\<newline>'' @
     ''        ''"

definition sql_successful_tests :: string where
  "sql_successful_tests =
     ''\<newline>'' @
     ''        SELECT tr.*, a.name as agent_name \<newline>'' @
     ''        FROM test_runs tr \<newline>'' @
     ''        JOIN agents a ON tr.agent_id = a.id \<newline>'' @
     ''        WHERE tr.result = 'pass' \<newline>'' @
     ''        ORDER BY tr.created_at DESC\<newline>'' @
     ''        ''"

definition sql_inactive_integrations :: string where
  "sql_inactive_integrations =
     ''\<newline>'' @
     ''        SELECT i.*, w.name as workspace_name \<newline>'' @
     ''        FROM integrations i \<newline>'' @
     ''        JOIN workspaces w ON i.workspace_id = w.id \<newline>'' @
     ''        WHERE i.status = 'inactive'' @ [CHR 0x27] @ ''\<newline>'' @
     ''        ORDER BY i.created_at DESC\<newline>'' @
     ''        ''"

definition sql_integrations_by_status :: string where
  "sql_integrations_by_status =
     ''\<newline>'' @
     ''        SELECT type, status, COUNT(*) as count \<newline>'' @
     ''        FROM integrations \<newline>'' @
     ''        GROUP BY type, status \<newline>'' @
     ''        ORDER BY type, status\<newline>'' @
     ''        ''"

definition sql_agents_by_language :: "string \<Rightarrow> string" where
  "sql_agents_by_language language_code =
     ''\<newline>'' @
     ''        SELECT a.*, w.name as workspace_name \<newline>'' @
     ''        FROM agents a \<newline>'' @
     ''        JOIN workspaces w ON a.workspace_id = w.id \<newline>'' @
     ''        WHERE a.language = '' @ [CHR 0x27] @ language_code @ [CHR 0x27] @ ''\<newline>'' @
     ''        ORDER BY a.created_at DESC\<newline>'' @
     ''        ''"

definition sql_all_agents :: string where
  "sql_all_agents =
     ''\<newline>'' @
     ''        SELECT a.*, w.name as workspace_name \<newline>'' @
     ''        FROM agents a \<newline>'' @
     ''        JOIN workspaces w ON a.workspace_id = w.id \<newline>'' @
     ''        ORDER BY a.created_at DESC\<newline>'' @
     ''        ''"

definition sql_all_workspaces :: string where
  "sql_all_workspaces =
     ''\<newline>'' @
     ''        SELECT * \<newline>'' @
     ''        FROM workspaces \<newline>'' @
     ''        ORDER BY created_at DESC\<newline>'' @
     ''        ''"

definition sql_workspaces_by_plan :: string where
  "sql_workspaces_by_plan =
     ''\<newline>'' @
     ''        SELECT plan, COUNT(*) as count \<newline>'' @
     ''        FROM workspaces \<newline>'' @
     ''        GROUP BY plan \<newline>'' @
     ''        ORDER BY count DESC\<newline>'' @
     ''        ''"

definition sql_errors_by_source :: string where
  "sql_errors_by_source =
     ''\<newline>'' @
     ''        SELECT source, COUNT(*) as count \<newline>'' @
     ''        FROM errors \<newline>'' @
     ''        GROUP BY source \<newline>'' @
     ''        ORDER BY count DESC\<newline>'' @
     ''        ''"

definition sql_agent_runs_status :: string where
  "sql_agent_runs_status =
     ''\<newline>'' @
     ''        SELECT a.name as agent_name, ar.status, COUNT(*) as count \<newline>'' @
     ''        FROM agent_runs ar \<newline>'' @
     ''        JOIN agents a ON ar.agent_id = a.id \<newline>'' @
     ''        GROUP BY a.name, ar.status \<newline>'' @
     ''        ORDER BY a.name, ar.status\<newline>'' @
     ''        ''"

definition sql_billing_by_workspace :: string where
  "sql_billing_by_workspace =
     ''\<newline>'' @
     ''        SELECT w.name as workspace_name, \<newline>'' @
     ''               SUM(b.total_cost_usd) as total_cost, \<newline>'' @
     ''               SUM(b.tokens_used) as total_tokens,\<newline>'' @
     ''               SUM(b.calls_made) as total_calls\<newline>'' @
     ''        FROM billing_usage b \<newline>'' @
     ''        JOIN workspaces w ON b.workspace_id = w.id \<newline>'' @
     ''        GROUP BY w.id, w.name \<newline>'' @
     ''        ORDER BY total_cost DESC\<newline>'' @
     ''        ''"

definition sql_top_usage :: "string \<Rightarrow> string" where
  "sql_top_usage limit =
     ''\<newline>'' @
     ''        SELECT a.name as agent_name, \<newline>'' @
     ''               SUM(b.tokens_used) as total_tokens,\<newline>'' @
     ''               SUM(b.total_cost_usd) as total_cost\<newline>'' @
     ''        FROM billing_usage b \<newline>'' @
     ''        JOIN agents a ON b.agent_id = a.id \<newline>'' @
     ''        GROUP BY a.name \<newline>'' @
     ''        ORDER BY total_tokens DESC \<newline>'' @
     ''        LIMIT '' @ limit @ ''\<newline>'' @
     ''        ''"

text \<open>The handlers. Each receives the match object and the question.\<close>

definition handle_top_errors :: handler where
  "handle_top_errors m question =
     (case group m 1 of Inl e \<Rightarrow> Inl e | Inr limit \<Rightarrow>
     (case group m 2 of Inl e \<Rightarrow> Inl e | Inr time_value \<Rightarrow>
     (case group m 3 of Inl e \<Rightarrow> Inl e | Inr time_unit \<Rightarrow>
     (case get_time_filter time_value time_unit of Inl e \<Rightarrow> Inl e | Inr time_filter \<Rightarrow>
        Inr (Some (py_strip (sql_top_errors time_filter (fmt limit))),
             Some (''Finding top '' @ fmt limit @ '' errors from the last '' @ fmt time_value @
                   '' '' @ fmt time_unit @ ''(s)''))))))"

definition handle_errors_timeframe :: handler where
  "handle_errors_timeframe m question =
     (case group m 1 of Inl e \<Rightarrow> Inl e | Inr time_value \<Rightarrow>
     (case group m 2 of Inl e \<Rightarrow> Inl e | Inr time_unit \<Rightarrow>
     (case get_time_filter time_value time_unit of Inl e \<Rightarrow> Inl e | Inr time_filter \<Rightarrow>
        Inr (Some (py_strip (sql_errors_timeframe time_filter)),
             Some (''Showing all errors from the last '' @ fmt time_value @
                   '' '' @ fmt time_unit @ ''(s)'')))))"

definition handle_failed_tests :: handler where
  "handle_failed_tests m question =
     (case group m 1 of Inl e \<Rightarrow> Inl e | Inr time_value \<Rightarrow>
     (case group m 2 of Inl e \<Rightarrow> Inl e | Inr time_unit \<Rightarrow>
     (case get_time_filter time_value time_unit of Inl e \<Rightarrow> Inl e | Inr time_filter \<Rightarrow>
        Inr (Some (py_strip (sql_failed_tests time_filter)),
             Some (''Finding failed test runs from the last '' @ fmt time_value @
                   '' '' @ fmt time_unit @ ''(s)'')))))"

definition handle_successful_tests :: handler where
  "handle_successful_tests m question =
     Inr (Some (py_strip sql_successful_tests), Some ''Finding all successful test runs'')"

definition handle_inactive_integrations :: handler where
  "handle_inactive_integrations m question =
     Inr (Some (py_strip sql_inactive_integrations), Some ''Finding all inactive integrations'')"

definition handle_integrations_by_status :: handler where
  "handle_integrations_by_status m question =
     Inr (Some (py_strip sql_integrations_by_status),
          Some ''Grouping integrations by type and status'')"

text \<open>\<^verbatim>\<open>match.group(1).lower()\<close> raises AttributeError on \<^verbatim>\<open>None\<close>;
  \<^verbatim>\<open>language_name[:2]\<close> is the default of the lexicon lookup.\<close>

definition handle_agents_by_language :: handler where
  "handle_agents_by_language m question =
     (case group m 1 of Inl e \<Rightarrow> Inl e | Inr None \<Rightarrow> Inl AttributeError
      | Inr (Some g) \<Rightarrow>
         (let language_name = py_lower g;
              language_code = dict_get languages (Some language_name) (take 2 language_name)
          in Inr (Some (py_strip (sql_agents_by_language language_code)),
                  Some (''Finding all agents using '' @ language_name @ '' language''))))"

definition handle_all_agents :: handler where
  "handle_all_agents m question =
     Inr (Some (py_strip sql_all_agents), Some ''Listing all agents'')"

definition handle_all_workspaces :: handler where
  "handle_all_workspaces m question =
     Inr (Some (py_strip sql_all_workspaces), Some ''Listing all workspaces'')"

definition handle_workspaces_by_plan :: handler where
  "handle_workspaces_by_plan m question =
     Inr (Some (py_strip sql_workspaces_by_plan), Some ''Grouping workspaces by plan type'')"

text \<open>\<^verbatim>\<open>_handle_count\<close>: the loop over the catalog stops at the first table name that
  contains the entity or starts with it; \<^verbatim>\<open>if not table\<close> holds for \<^verbatim>\<open>None\<close> and
  for the empty string, and then the handler returns the pair \<^verbatim>\<open>(None, None)\<close>.\<close>

definition handle_count :: handler where
  "handle_count m question =
     (case group m 1 of Inl e \<Rightarrow> Inl e | Inr None \<Rightarrow> Inl AttributeError
      | Inr (Some g) \<Rightarrow>
         (let entity = py_lower g;
              table = find (\<lambda>table_name. contains table_name entity \<or> startswith table_name entity)
                        table_names
          in case table of
               None \<Rightarrow> Inr (None, None)
             | Some t \<Rightarrow>
                 if t = [] then Inr (None, None)
                 else Inr (Some (py_strip (''SELECT COUNT(*) as count FROM '' @ t)),
                           Some (''Counting total '' @ entity))))"

definition handle_errors_by_source :: handler where
  "handle_errors_by_source m question =
     Inr (Some (py_strip sql_errors_by_source), Some ''Grouping errors by source'')"

definition handle_agent_runs_status :: handler where
  "handle_agent_runs_status m question =
     Inr (Some (py_strip sql_agent_runs_status), Some ''Grouping agent runs by status'')"

definition handle_billing_by_workspace :: handler where
  "handle_billing_by_workspace m question =
     Inr (Some (py_strip sql_billing_by_workspace), Some ''Showing billing usage by workspace'')"

definition handle_top_usage :: handler where
  "handle_top_usage m question =
     (case group m 1 of Inl e \<Rightarrow> Inl e | Inr limit \<Rightarrow>
        Inr (Some (py_strip (sql_top_usage (fmt limit))),
             Some (''Finding top '' @ fmt limit @ '' agents by token usage'')))"

text \<open>\<^verbatim>\<open>_keyword_based_query\<close>: the first table of the catalog whose name, with
  underscores replaced by blanks or as it is, occurs in the question.\<close>

definition keyword_based_query :: "string \<Rightarrow> py_exn + result" where
  "keyword_based_query question =
     (let table = find (\<lambda>table_name.
                    contains question (py_replace (CHR ''_'') (CHR '' '') table_name) \<or>
                    contains question table_name) table_names
      in case table of
           None \<Rightarrow> Inr (None,
             Some ''Could not understand the question. Try using query templates or be more specific.'')
         | Some t \<Rightarrow>
             if t = [] then Inr (None,
               Some ''Could not understand the question. Try using query templates or be more specific.'')
             else Inr (Some (''SELECT * FROM '' @ t @ '' LIMIT 100''),
                       Some (''Showing data from '' @ t @ '' table'')))"

text \<open>
  The regular expressions of \<^verbatim>\<open>_build_patterns\<close>, in the order of the source.
  \<^verbatim>\<open>errors?\<close> is the literal \<^verbatim>\<open>error\<close> followed by an optional \<^verbatim>\<open>s\<close>; the blank in
  \<^verbatim>\<open>how many\<close> is a literal blank.
\<close>

definition time_unit_re :: regex where
  "time_unit_re = alts [Lit ''hour'', Lit ''day'', Lit ''week'', Lit ''month'']"

definition last_window_re :: "nat \<Rightarrow> regex list" where
  \<comment> \<open>\<^verbatim>\<open>(?:for|in|from)?\s*(?:the)?\s*last\s+(\d+)\s+(hour|day|week|month)s?\<close>,
      the two groups numbered \<open>i\<close> and \<open>i + 1\<close>\<close>
  "last_window_re i =
     [Opt (alts [Lit ''for'', Lit ''in'', Lit ''from'']), Star Space, Opt (Lit ''the''),
      Star Space, Lit ''last'', Plus Space, Grp i (Plus Digit), Plus Space,
      Grp (Suc i) time_unit_re, Opt (Lit ''s'')]"

definition pat_top_errors :: regex where
  \<comment> \<open>\<^verbatim>\<open>top\s+(\d+)\s+errors?\s+(?:for|in|from)?\s*(?:the)?\s*last\s+(\d+)\s+(hour|day|week|month)s?\<close>\<close>
  "pat_top_errors =
     seqs ([Lit ''top'', Plus Space, Grp 1 (Plus Digit), Plus Space, Lit ''error'', Opt (Lit ''s''),
            Plus Space] @ last_window_re 2)"

definition pat_errors_timeframe :: regex where
  \<comment> \<open>\<^verbatim>\<open>(?:show|list|get|find)\s+(?:all\s+)?errors?\s+(?:for|in|from)?\s*(?:the)?\s*last\s+(\d+)\s+(hour|day|week|month)s?\<close>\<close>
  "pat_errors_timeframe =
     seqs ([alts [Lit ''show'', Lit ''list'', Lit ''get'', Lit ''find''], Plus Space,
            Opt (seqs [Lit ''all'', Plus Space]), Lit ''error'', Opt (Lit ''s''),
            Plus Space] @ last_window_re 1)"

definition pat_failed_tests :: regex where
  \<comment> \<open>\<^verbatim>\<open>(?:show|list|get|find)\s+(?:all\s+)?failed\s+test\s*runs?\s+(?:for|in|from)?\s*(?:the)?\s*last\s+(\d+)\s+(hour|day|week|month)s?\<close>\<close>
  "pat_failed_tests =
     seqs ([alts [Lit ''show'', Lit ''list'', Lit ''get'', Lit ''find''], Plus Space,
            Opt (seqs [Lit ''all'', Plus Space]), Lit ''failed'', Plus Space, Lit ''test'',
            Star Space, Lit ''run'', Opt (Lit ''s''), Plus Space] @ last_window_re 1)"

definition pat_successful_tests :: regex where
  \<comment> \<open>\<^verbatim>\<open>(?:show|list|get|find)\s+(?:all\s+)?(?:successful|passed)\s+test\s*runs?\<close>\<close>
  "pat_successful_tests =
     seqs [alts [Lit ''show'', Lit ''list'', Lit ''get'', Lit ''find''], Plus Space,
           Opt (seqs [Lit ''all'', Plus Space]), alts [Lit ''successful'', Lit ''passed''],
           Plus Space, Lit ''test'', Star Space, Lit ''run'', Opt (Lit ''s'')]"

definition pat_inactive_integrations :: regex where
  \<comment> \<open>\<^verbatim>\<open>(?:which|what|show|list)\s+integrations?\s+(?:are\s+)?inactive\<close>\<close>
  "pat_inactive_integrations =
     seqs [alts [Lit ''which'', Lit ''what'', Lit ''show'', Lit ''list''], Plus Space,
           Lit ''integration'', Opt (Lit ''s''), Plus Space,
           Opt (seqs [Lit ''are'', Plus Space]), Lit ''inactive'']"

definition pat_integrations_by_status :: regex where
  \<comment> \<open>\<^verbatim>\<open>(?:show|list|get)\s+(?:all\s+)?integrations?\s+(?:by\s+)?status\<close>\<close>
  "pat_integrations_by_status =
     seqs [alts [Lit ''show'', Lit ''list'', Lit ''get''], Plus Space,
           Opt (seqs [Lit ''all'', Plus Space]), Lit ''integration'', Opt (Lit ''s''),
           Plus Space, Opt (seqs [Lit ''by'', Plus Space]), Lit ''status'']"

definition pat_agents_by_language :: regex where
  \<comment> \<open>\<^verbatim>\<open>(?:show|list|get|find)\s+(?:all\s+)?agents?\s+(?:using|with|in)\s+(\w+)\s+language\<close>\<close>
  "pat_agents_by_language =
     seqs [alts [Lit ''show'', Lit ''list'', Lit ''get'', Lit ''find''], Plus Space,
           Opt (seqs [Lit ''all'', Plus Space]), Lit ''agent'', Opt (Lit ''s''), Plus Space,
           alts [Lit ''using'', Lit ''with'', Lit ''in''], Plus Space, Grp 1 (Plus Word),
           Plus Space, Lit ''language'']"

definition pat_all_agents :: regex where
  \<comment> \<open>\<^verbatim>\<open>(?:show|list|get)\s+(?:all\s+)?agents?\<close>\<close>
  "pat_all_agents =
     seqs [alts [Lit ''show'', Lit ''list'', Lit ''get''], Plus Space,
           Opt (seqs [Lit ''all'', Plus Space]), Lit ''agent'', Opt (Lit ''s'')]"

definition pat_all_workspaces :: regex where
  \<comment> \<open>\<^verbatim>\<open>(?:show|list|get)\s+(?:all\s+)?workspaces?\<close>\<close>
  "pat_all_workspaces =
     seqs [alts [Lit ''show'', Lit ''list'', Lit ''get''], Plus Space,
           Opt (seqs [Lit ''all'', Plus Space]), Lit ''workspace'', Opt (Lit ''s'')]"

definition pat_workspaces_by_plan :: regex where
  \<comment> \<open>\<^verbatim>\<open>workspaces?\s+(?:by\s+)?plan\<close>\<close>
  "pat_workspaces_by_plan =
     seqs [Lit ''workspace'', Opt (Lit ''s''), Plus Space, Opt (seqs [Lit ''by'', Plus Space]),
           Lit ''plan'']"

definition pat_count :: regex where
  \<comment> \<open>\<^verbatim>\<open>(?:how many|count)\s+(\w+)\<close>\<close>
  "pat_count = seqs [alts [Lit ''how many'', Lit ''count''], Plus Space, Grp 1 (Plus Word)]"

definition pat_errors_by_source :: regex where
  \<comment> \<open>\<^verbatim>\<open>errors?\s+(?:by\s+)?source\<close>\<close>
  "pat_errors_by_source =
     seqs [Lit ''error'', Opt (Lit ''s''), Plus Space, Opt (seqs [Lit ''by'', Plus Space]),
           Lit ''source'']"

definition pat_agent_runs_status :: regex where
  \<comment> \<open>\<^verbatim>\<open>agent\s+runs?\s+(?:by\s+)?status\<close>\<close>
  "pat_agent_runs_status =
     seqs [Lit ''agent'', Plus Space, Lit ''run'', Opt (Lit ''s''), Plus Space,
           Opt (seqs [Lit ''by'', Plus Space]), Lit ''status'']"

definition pat_billing_by_workspace :: regex where
  \<comment> \<open>\<^verbatim>\<open>(?:billing|usage|cost)\s+(?:by\s+)?workspace\<close>\<close>
  "pat_billing_by_workspace =
     seqs [alts [Lit ''billing'', Lit ''usage'', Lit ''cost''], Plus Space,
           Opt (seqs [Lit ''by'', Plus Space]), Lit ''workspace'']"

definition pat_top_usage :: regex where
  \<comment> \<open>\<^verbatim>\<open>(?:top|highest)\s+(\d+)\s+(?:token|cost|usage)\<close>\<close>
  "pat_top_usage =
     seqs [alts [Lit ''top'', Lit ''highest''], Plus Space, Grp 1 (Plus Digit), Plus Space,
           alts [Lit ''token'', Lit ''cost'', Lit ''usage'']]"

text \<open>\<^verbatim>\<open>self.patterns\<close>\<close>

definition patterns :: "(regex \<times> handler) list" where
  "patterns =
   [(pat_top_errors, handle_top_errors),
    (pat_errors_timeframe, handle_errors_timeframe),
    (pat_failed_tests, handle_failed_tests),
    (pat_successful_tests, handle_successful_tests),
    (pat_inactive_integrations, handle_inactive_integrations),
    (pat_integrations_by_status, handle_integrations_by_status),
    (pat_agents_by_language, handle_agents_by_language),
    (pat_all_agents, handle_all_agents),
    (pat_all_workspaces, handle_all_workspaces),
    (pat_workspaces_by_plan, handle_workspaces_by_plan),
    (pat_count, handle_count),
    (pat_errors_by_source, handle_errors_by_source),
    (pat_agent_runs_status, handle_agent_runs_status),
    (pat_billing_by_workspace, handle_billing_by_workspace),
    (pat_top_usage, handle_top_usage)]"

subsection \<open>Dispatch\<close>

text \<open>
  The loop of \<^verbatim>\<open>parse_question\<close> over the rules that are left: a rule whose pattern is
  not found is skipped; the result of the handler of a rule whose pattern is found is
  returned, whatever it is; when that handler raises, the \<^verbatim>\<open>except\<close> clause continues
  with the next rule. After the last rule comes \<^verbatim>\<open>_keyword_based_query\<close>, outside any
  \<^verbatim>\<open>try\<close>.
\<close>

fun dispatch :: "(regex \<times> handler) list \<Rightarrow> string \<Rightarrow> py_exn + result" where
  "dispatch [] question = keyword_based_query question"
| "dispatch ((pattern, handler) # rest) question =
     (case re_search pattern question of
        None \<Rightarrow> dispatch rest question
      | Some m \<Rightarrow>
          (case handler m question of
             Inr res \<Rightarrow> Inr res
           | Inl e \<Rightarrow> dispatch rest question))"

definition parse_question :: "string \<Rightarrow> py_exn + result" where
  "parse_question question = dispatch patterns (py_strip (py_lower question))"

section \<open>Notions used to state and prove the properties\<close>

text \<open>The positions of the group table that a pattern can write.\<close>

fun grp_idx :: "regex \<Rightarrow> nat list" where
  "grp_idx (Lit l) = []"
| "grp_idx (Plus k) = []"
| "grp_idx (Star k) = []"
| "grp_idx (Opt r) = grp_idx r"
| "grp_idx (Alt a b) = grp_idx a @ grp_idx b"
| "grp_idx (Seq a b) = grp_idx a @ grp_idx b"
| "grp_idx (Grp i r) = (i - 1) # grp_idx r"

text \<open>What is known of a text that the body of a group has matched: a repetition of a
  class matched a non-empty run of the class, a literal a text equal to it up to case.\<close>

fun cap_prop :: "regex \<Rightarrow> string \<Rightarrow> bool" where
  "cap_prop (Plus k) w = (w \<noteq> [] \<and> list_all (in_cls k) w)"
| "cap_prop (Lit l) w = (py_lower w = py_lower l)"
| "cap_prop (Alt a b) w = (cap_prop a w \<or> cap_prop b w)"
| "cap_prop r w = True"

text \<open>In a concatenation \<open>seqs rs\<close>, group \<open>i\<close> with the given body is an element of
  \<open>rs\<close>, and nothing after it writes the same position: every match sets the group.\<close>

fun cap_at :: "nat \<Rightarrow> regex \<Rightarrow> regex list \<Rightarrow> bool" where
  "cap_at i body [] = False"
| "cap_at i body (r # rs) =
     (cap_at i body rs \<or> (r = Grp i body \<and> i - 1 \<notin> set (grp_idx (seqs rs))))"

text \<open>The first component of what \<^verbatim>\<open>parse_question\<close> returns.\<close>

definition returned_sql :: "py_exn + result \<Rightarrow> string option" where
  "returned_sql r = (case r of Inl e \<Rightarrow> None | Inr (sql, explanation) \<Rightarrow> sql)"

text \<open>The keyword fallback's test in the words of the specification: the table name, as it
  is or with its underscores replaced by blanks, is a literal substring of the question
  (\<^const>\<open>sublist\<close>: the question is some text, the name, some text).\<close>

definition kw_hit :: "string \<Rightarrow> string \<Rightarrow> bool" where
  "kw_hit question t =
     (sublist (py_replace (CHR ''_'') (CHR '' '') t) question \<or> sublist t question)"

definition could_not_understand :: string where
  "could_not_understand =
     ''Could not understand the question. Try using query templates or be more specific.''"

text \<open>The texts of the queries after \<^verbatim>\<open>strip()\<close>: the texts of the handlers without
  the line break and the indentation at their two ends.\<close>

definition query_top_errors :: "string \<Rightarrow> string \<Rightarrow> string" where
  "query_top_errors time_filter limit =
     ''SELECT code, message, source, COUNT(*) as error_count \<newline>'' @
     ''        FROM errors \<newline>'' @
     ''        WHERE created_at >= '' @ time_filter @ ''\<newline>'' @
     ''        GROUP BY code, message, source \<newline>'' @
     ''        ORDER BY error_count DESC \<newline>'' @
     ''        LIMIT '' @ limit"

definition query_errors_timeframe :: "string \<Rightarrow> string" where
  "query_errors_timeframe time_filter =
     ''SELECT * \<newline>'' @
     ''        FROM errors \<newline>'' @
     ''        WHERE created_at >= '' @ time_filter @ ''\<newline>'' @
     ''        ORDER BY created_at DESC''"

definition query_failed_tests :: "string \<Rightarrow> string" where
  "query_failed_tests time_filter =
     ''SELECT tr.*, a.name as agent_name \<newline>'' @
     ''        FROM test_runs tr \<newline>'' @
     ''        JOIN agents a ON tr.agent_id = a.id \<newline>'' @
     ''        WHERE tr.result = 'fail' \<newline>'' @
     ''        AND tr.created_at >= '' @ time_filter @ ''\<newline>'' @
     ''        ORDER BY tr.created_at DESC''"

definition query_successful_tests :: "string" where
  "query_successful_tests =
     ''SELECT tr.*, a.name as agent_name \<newline>'' @
     ''        FROM test_runs tr \<newline>'' @
     ''        JOIN agents a ON tr.agent_id = a.id \<newline>'' @
     ''        WHERE tr.result = 'pass' \<newline>'' @
     ''        ORDER BY tr.created_at DESC''"

definition query_inactive_integrations :: "string" where
  "query_inactive_integrations =
     ''SELECT i.*, w.name as workspace_name \<newline>'' @
     ''        FROM integrations i \<newline>'' @
     ''        JOIN workspaces w ON i.workspace_id = w.id \<newline>'' @
     ''        WHERE i.status = 'inactive'' @ [CHR 0x27] @ ''\<newline>'' @
     ''        ORDER BY i.created_at DESC''"

definition query_integrations_by_status :: "string" where
  "query_integrations_by_status =
     ''SELECT type, status, COUNT(*) as count \<newline>'' @
     ''        FROM integrations \<newline>'' @
     ''        GROUP BY type, status \<newline>'' @
     ''        ORDER BY type, status''"

definition query_agents_by_language :: "string \<Rightarrow> string" where
  "query_agents_by_language language_code =
     ''SELECT a.*, w.name as workspace_name \<newline>'' @
     ''        FROM agents a \<newline>'' @
     ''        JOIN workspaces w ON a.workspace_id = w.id \<newline>'' @
     ''        WHERE a.language = '' @ [CHR 0x27] @ language_code @ [CHR 0x27] @ ''\<newline>'' @
     ''        ORDER BY a.created_at DESC''"

definition query_all_agents :: "string" where
  "query_all_agents =
     ''SELECT a.*, w.name as workspace_name \<newline>'' @
     ''        FROM agents a \<newline>'' @
     ''        JOIN workspaces w ON a.workspace_id = w.id \<newline>'' @
     ''        ORDER BY a.created_at DESC''"

definition query_all_workspaces :: "string" where
  "query_all_workspaces =
     ''SELECT * \<newline>'' @
     ''        FROM workspaces \<newline>'' @
     ''        ORDER BY created_at DESC''"

definition query_workspaces_by_plan :: "string" where
  "query_workspaces_by_plan =
     ''SELECT plan, COUNT(*) as count \<newline>'' @
     ''        FROM workspaces \<newline>'' @
     ''        GROUP BY plan \<newline>'' @
     ''        ORDER BY count DESC''"

definition query_errors_by_source :: "string" where
  "query_errors_by_source =
     ''SELECT source, COUNT(*) as count \<newline>'' @
     ''        FROM errors \<newline>'' @
     ''        GROUP BY source \<newline>'' @
     ''        ORDER BY count DESC''"

definition query_agent_runs_status :: "string" where
  "query_agent_runs_status =
     ''SELECT a.name as agent_name, ar.status, COUNT(*) as count \<newline>'' @
     ''        FROM agent_runs ar \<newline>'' @
     ''        JOIN agents a ON ar.agent_id = a.id \<newline>'' @
     ''        GROUP BY a.name, ar.status \<newline>'' @
     ''        ORDER BY a.name, ar.status''"

definition query_billing_by_workspace :: "string" where
  "query_billing_by_workspace =
     ''SELECT w.name as workspace_name, \<newline>'' @
     ''               SUM(b.total_cost_usd) as total_cost, \<newline>'' @
     ''               SUM(b.tokens_used) as total_tokens,\<newline>'' @
     ''               SUM(b.calls_made) as total_calls\<newline>'' @
     ''        FROM billing_usage b \<newline>'' @
     ''        JOIN workspaces w ON b.workspace_id = w.id \<newline>'' @
     ''        GROUP BY w.id, w.name \<newline>'' @
     ''        ORDER BY total_cost DESC''"

definition query_top_usage :: "string \<Rightarrow> string" where
  "query_top_usage limit =
     ''SELECT a.name as agent_name, \<newline>'' @
     ''               SUM(b.tokens_used) as total_tokens,\<newline>'' @
     ''               SUM(b.total_cost_usd) as total_cost\<newline>'' @
     ''        FROM billing_usage b \<newline>'' @
     ''        JOIN agents a ON b.agent_id = a.id \<newline>'' @
     ''        GROUP BY a.name \<newline>'' @
     ''        ORDER BY total_tokens DESC \<newline>'' @
     ''        LIMIT '' @ limit"

text \<open>The time filter for a number and a unit of SQLite.\<close>

definition time_filter_text :: "int \<Rightarrow> string \<Rightarrow> string" where
  "time_filter_text n unit =
     ''datetime('now', '-'' @ int_decimal n @ '' '' @ unit @ [CHR 0x27] @ '')''"

text \<open>The length of a time window in units: the captured number times the multiplier of
  the captured unit.\<close>

definition window :: "string \<Rightarrow> string option \<Rightarrow> int" where
  "window v unit = digits_value v * dict_get multiplier unit 1"

text \<open>Both conversions of \<^verbatim>\<open>_get_time_filter\<close> stay within the limit of digits: the
  captured number is not longer than the limit, and neither is the numeral of the window.\<close>

definition within_limit :: "string \<Rightarrow> string option \<Rightarrow> bool" where
  "within_limit v unit =
     (length v \<le> max_str_digits \<and> length (int_decimal (window v unit)) \<le> max_str_digits)"

text \<open>A rule passes a question on to the rules after it: its pattern is not found, or
  its handler raises.\<close>

definition passes :: "string \<Rightarrow> regex \<times> handler \<Rightarrow> bool" where
  "passes q rule =
     (case re_search (fst rule) q of
        None \<Rightarrow> True
      | Some m \<Rightarrow> (case snd rule m q of Inl e \<Rightarrow> True | Inr res \<Rightarrow> False))"

text \<open>Two families of questions whose time value is a run of \<open>k + 1\<close> ones. The
  first matches the pattern of the top errors and, further to the left, the pattern of
  the errors of a time frame; the second matches the pattern of the top errors only.\<close>

definition long_both_question :: "nat \<Rightarrow> string" where
  "long_both_question k =
     ''show errors in last 3 days and top 5 errors in last '' @ replicate (Suc k) CHR ''1'' @
     '' days''"

definition long_top_question :: "nat \<Rightarrow> string" where
  "long_top_question k = ''top 3 errors in last '' @ replicate (Suc k) CHR ''1'' @ '' week''"

text \<open>The test of the count rule in the words of the claim: the table name contains the
  entity as a substring or starts with it.\<close>

definition ent_hit :: "string \<Rightarrow> string \<Rightarrow> bool" where
  "ent_hit entity t = (sublist entity t \<or> prefix entity t)"

text \<open>The language filter value in the words of the claim: the lexicon code of a name that
  is a lexicon entry, the first two characters of any other name.\<close>

definition lang_code :: "string \<Rightarrow> string" where
  "lang_code name =
     (if name \<in> set (map fst languages) then the (map_of languages name) else take 2 name)"

text \<open>A question that matches the pattern of the top errors and the pattern of the errors
  of a time frame.\<close>

definition both_patterns_question :: string where
  "both_patterns_question = ''Show errors in last 3 days and top 5 errors in last 2 days''"

text \<open>The safety postcondition in the words of the specification: the keywords that must
  not occur, and the occurrence of a keyword as a whole token, with no word character
  next to it on either side.\<close>

definition forbidden_keywords :: "string list" where
  "forbidden_keywords = [''INSERT'', ''UPDATE'', ''DELETE'', ''DROP'', ''ALTER'']"

definition has_token :: "string \<Rightarrow> string \<Rightarrow> bool" where
  "has_token kw s =
     (\<exists>pre post. s = pre @ kw @ post \<and> (pre = [] \<or> \<not> py_isword (last pre)) \<and>
        (post = [] \<or> \<not> py_isword (hd post)))"

text \<open>Notions for the proof of the postcondition. A text is free of keywords when it has no
  semicolon and its upper-case form contains no forbidden keyword even as a substring.
  A text is closed on a side when the character at that end of its upper-case form occurs
  in no keyword; texts free of keywords can be joined where one of the two ends that
  meet is closed.\<close>

definition kw_char :: "char \<Rightarrow> bool" where
  "kw_char c = (c \<in> set (concat forbidden_keywords))"

definition kw_free :: "string \<Rightarrow> bool" where
  "kw_free s = (CHR '';'' \<notin> set s \<and> list_all (\<lambda>kw. \<not> sublist kw (py_upper s)) forbidden_keywords)"

definition rclosed :: "string \<Rightarrow> bool" where
  "rclosed s = (s \<noteq> [] \<and> \<not> kw_char (last (py_upper s)))"

definition lclosed :: "string \<Rightarrow> bool" where
  "lclosed s = (s \<noteq> [] \<and> \<not> kw_char (hd (py_upper s)))"

fun joinable :: "string list \<Rightarrow> bool" where
  "joinable [] = True"
| "joinable [p] = kw_free p"
| "joinable (p # p' # ps) = (kw_free p \<and> (rclosed p \<or> lclosed p') \<and> joinable (p' # ps))"

text \<open>The queries that \<^verbatim>\<open>parse_question\<close> can return: the nine fixed texts and the texts
  with parameters, together with what is known of each parameter.\<close>

definition static_queries :: "string list" where
  "static_queries =
     [query_successful_tests, query_inactive_integrations, query_integrations_by_status,
      query_all_agents, query_all_workspaces, query_workspaces_by_plan, query_errors_by_source,
      query_agent_runs_status, query_billing_by_workspace]"

definition is_digits :: "string \<Rightarrow> bool" where
  "is_digits s = (s \<noteq> [] \<and> list_all py_isdecimal s)"

inductive generated :: "string \<Rightarrow> bool" where
  static: "sql \<in> set static_queries \<Longrightarrow> generated sql"
| top_errors: "is_digits n \<Longrightarrow> 0 \<le> N \<Longrightarrow> unit \<in> {''hours'', ''days''} \<Longrightarrow>
     generated (query_top_errors (time_filter_text N unit) n)"
| errors_timeframe: "0 \<le> N \<Longrightarrow> unit \<in> {''hours'', ''days''} \<Longrightarrow>
     generated (query_errors_timeframe (time_filter_text N unit))"
| failed_tests: "0 \<le> N \<Longrightarrow> unit \<in> {''hours'', ''days''} \<Longrightarrow>
     generated (query_failed_tests (time_filter_text N unit))"
| top_usage: "is_digits n \<Longrightarrow> generated (query_top_usage n)"
| agents_by_language: "g \<noteq> [] \<Longrightarrow> list_all py_isword g \<Longrightarrow>
     generated (query_agents_by_language (lang_code (py_lower g)))"
| count: "t \<in> set table_names \<Longrightarrow> generated (''SELECT COUNT(*) as count FROM '' @ t)"
| fallback: "t \<in> set table_names \<Longrightarrow> generated (''SELECT * FROM '' @ t @ '' LIMIT 100'')"

section \<open>Equations for evaluation\<close>

text \<open>
  The character functions are defined by ranges of code points. For evaluation on the
  characters of concrete questions, each gets an equation on the eight bits of its
  argument (\<open>b0\<close> the lowest), proved from its definition on all 256 characters.
\<close>

lemma py_isspace_Char [code]:
  "py_isspace (Char b0 b1 b2 b3 b4 b5 b6 b7) =
     (if b7 then (\<not> b6 \<and> (if b5 then (\<not> b4 \<and> (\<not> b3 \<and> (\<not>
     b2 \<and> (\<not> b1 \<and> \<not> b0)))) else (\<not> b4 \<and> (\<not> b3 \<and> (b2
     \<and> (\<not> b1 \<and> b0)))))) else (\<not> b6 \<and> (if b5 then (\<not> b4 \<and>
     (\<not> b3 \<and> (\<not> b2 \<and> (\<not> b1 \<and> \<not> b0)))) else (if b4 then
     (b3 \<and> b2) else (b3 \<and> (if b2 then \<not> b1 else (b1 \<or> b0)))))))"
  by (cases b0; cases b1; cases b2; cases b3; cases b4; cases b5; cases b6; cases b7;
      simp add: py_isspace_def)

lemma py_isdecimal_Char [code]:
  "py_isdecimal (Char b0 b1 b2 b3 b4 b5 b6 b7) =
     (\<not> b7 \<and> (\<not> b6 \<and> (b5 \<and> (b4 \<and> (\<not> b3 \<or> (\<not> b2
     \<and> \<not> b1))))))"
  by (cases b0; cases b1; cases b2; cases b3; cases b4; cases b5; cases b6; cases b7;
      simp add: py_isdecimal_def)

lemma py_isalnum_Char [code]:
  "py_isalnum (Char b0 b1 b2 b3 b4 b5 b6 b7) =
     (if b7 then (if b6 then (if b5 then (\<not> b4 \<or> (b3 \<or> (\<not> b2 \<or> (\<not>
     b1 \<or> \<not> b0)))) else (\<not> b4 \<or> (b3 \<or> (\<not> b2 \<or> (\<not> b1
     \<or> \<not> b0))))) else (b5 \<and> (if b4 then (if b3 then (if b2 then (\<not> b1
     \<or> \<not> b0) else (if b1 then \<not> b0 else b0)) else (if b2 then (\<not> b1
     \<and> b0) else b1)) else (b3 \<and> (\<not> b2 \<and> (b1 \<and> \<not> b0)))))) else
     (if b6 then (if b5 then (if b4 then (\<not> b3 \<or> (\<not> b2 \<and> (\<not> b1 \<or>
     \<not> b0))) else (b3 \<or> (b2 \<or> (b1 \<or> b0)))) else (if b4 then (\<not> b3
     \<or> (\<not> b2 \<and> (\<not> b1 \<or> \<not> b0))) else (b3 \<or> (b2 \<or> (b1
     \<or> b0))))) else (b5 \<and> (b4 \<and> (\<not> b3 \<or> (\<not> b2 \<and> \<not>
     b1))))))"
  by (cases b0; cases b1; cases b2; cases b3; cases b4; cases b5; cases b6; cases b7;
      simp add: py_isalnum_def)

lemma lower_char_Char [code]:
  "lower_char (Char b0 b1 b2 b3 b4 b5 b6 b7) =
     (if (if b7 then (b6 \<and> (\<not> b5 \<and> (\<not> b4 \<or> (if b3 then (\<not> b2
         \<or> (\<not> b1 \<or> \<not> b0)) else (\<not> b2 \<or> (\<not> b1 \<or> \<not>
         b0)))))) else (b6 \<and> (\<not> b5 \<and> (if b4 then (\<not> b3 \<or> (\<not> b2
         \<and> (\<not> b1 \<or> \<not> b0))) else (b3 \<or> (b2 \<or> (b1 \<or> b0)))))))
      then Char b0 b1 b2 b3 b4 True b6 b7 else Char b0 b1 b2 b3 b4 b5 b6 b7)"
  by (cases b0; cases b1; cases b2; cases b3; cases b4; cases b5; cases b6; cases b7;
      simp add: lower_char_def; code_simp)

lemma upper_char_Char [code]:
  "upper_char (Char b0 b1 b2 b3 b4 b5 b6 b7) =
     (if (if b7 then (b6 \<and> (b5 \<and> (\<not> b4 \<or> (if b3 then (\<not> b2 \<or>
         (\<not> b1 \<or> \<not> b0)) else (\<not> b2 \<or> (\<not> b1 \<or> \<not> b0))))))
         else (b6 \<and> (b5 \<and> (if b4 then (\<not> b3 \<or> (\<not> b2 \<and> (\<not>
         b1 \<or> \<not> b0))) else (b3 \<or> (b2 \<or> (b1 \<or> b0)))))))
      then [Char b0 b1 b2 b3 b4 False b6 b7]
      else if (b7 \<and> (b6 \<and> (\<not> b5 \<and> (b4 \<and> (b3 \<and> (b2 \<and> (b1
              \<and> b0)))))))
      then [CHR 0x53, CHR 0x53]
      else [Char b0 b1 b2 b3 b4 b5 b6 b7])"
  by (cases b0; cases b1; cases b2; cases b3; cases b4; cases b5; cases b6; cases b7;
      simp add: upper_char_def; code_simp)


text \<open>
  The limit of digits is compared with the length of a text. For evaluation the length
  is counted as an \<^typ>\<open>int\<close>, whose numerals are binary.
\<close>

lemma int_length: "foldr (\<lambda>c n. n + 1) s (0::int) = int (length s)"
  by (induction s) simp_all

lemma py_int_code [code]:
  "py_int v = (case v of
      None \<Rightarrow> Inl TypeError
    | Some s \<Rightarrow> if s = [] \<or> \<not> list_all py_isdecimal s then Inl ValueError
               else if 4300 < foldr (\<lambda>c n. n + 1) s (0::int) then Inl ValueError
               else Inr (digits_value s))"
  by (simp add: py_int_def int_length max_str_digits_def split: option.splits)

lemma py_str_int_code [code]:
  "py_str_int i = (if 4300 < foldr (\<lambda>c n. n + 1) (nat_str (nat \<bar>i\<bar>)) (0::int)
                   then Inl ValueError else Inr (int_decimal i))"
  by (simp add: py_str_int_def int_length max_str_digits_def)

lemma within_limit_code [code]:
  "within_limit v unit =
     (foldr (\<lambda>c n. n + 1) v (0::int) \<le> 4300 \<and>
      foldr (\<lambda>c n. n + 1) (int_decimal (window v unit)) (0::int) \<le> 4300)"
  by (simp add: within_limit_def int_length max_str_digits_def)
section \<open>Properties of the matcher\<close>

text \<open>A way to match leaves a suffix of the input and a group table of the same length.\<close>

lemma ms_shape:
  "(s', g') \<in> set (ms r (s, g)) \<Longrightarrow> length g' = length g \<and> suffix s' s"
proof (induction r arbitrary: s g s' g')
  case (Seq a b)
  from Seq.prems obtain s1 g1 where
    m1: "(s1, g1) \<in> set (ms a (s, g))" and m2: "(s', g') \<in> set (ms b (s1, g1))"
    by auto
  from Seq.IH(1)[OF m1] Seq.IH(2)[OF m2] show ?case
    by (auto intro: suffix_order.trans)
next
  case (Grp i r)
  then show ?case by (auto simp: )
qed (auto split: if_splits simp: suffix_drop)

lemma ms_frame:
  "(s', g') \<in> set (ms r (s, g)) \<Longrightarrow> j \<notin> set (grp_idx r) \<Longrightarrow> g' ! j = g ! j"
proof (induction r arbitrary: s g s' g')
  case (Seq a b)
  from Seq.prems obtain s1 g1 where
    m1: "(s1, g1) \<in> set (ms a (s, g))" and m2: "(s', g') \<in> set (ms b (s1, g1))"
    by auto
  from Seq.IH(1)[OF m1] Seq.IH(2)[OF m2] Seq.prems(2) show ?case
    by simp
qed (auto split: if_splits)

lemma take_le_takeWhile:
  "n \<le> length (takeWhile P s) \<Longrightarrow> list_all P (take n s)"
proof -
  assume n: "n \<le> length (takeWhile P s)"
  have "take n s = take n (takeWhile P s @ dropWhile P s)" by simp
  also have "\<dots> = take n (takeWhile P s)" using n by (simp del: takeWhile_dropWhile_id)
  finally have "set (take n s) \<subseteq> set (takeWhile P s)" by (simp add: set_take_subset)
  then show ?thesis by (auto simp: list_all_iff dest: set_takeWhileD)
qed

lemma ms_cap_prop:
  "(s', g') \<in> set (ms r (s, g)) \<Longrightarrow> cap_prop r (take (length s - length s') s)"
proof (induction r arbitrary: s g s' g')
  case (Lit l)
  then show ?case by (auto split: if_splits simp: lit_match_def)
next
  case (Plus k)
  then obtain n where n: "1 \<le> n" "n \<le> length (takeWhile (in_cls k) s)" "s' = drop n s"
    by auto
  have "length (takeWhile (in_cls k) s) \<le> length s" by (rule length_takeWhile_le)
  with n have t: "take (length s - length s') s = take n s" and "take n s \<noteq> []"
    by auto
  with take_le_takeWhile[OF n(2)] show ?case by simp
qed auto

lemma ms_Grp:
  assumes "(s', g') \<in> set (ms (Grp i r) (s, g))" and "i - 1 < length g"
  shows "\<exists>w. g' ! (i - 1) = Some w \<and> cap_prop r w \<and> set w \<subseteq> set s"
proof -
  from assms(1) obtain g1 where m: "(s', g1) \<in> set (ms r (s, g))"
    and g': "g' = g1[i - 1 := Some (take (length s - length s') s)]"
    by auto
  from ms_shape[OF m] assms(2) have "i - 1 < length g1" by simp
  with g' ms_cap_prop[OF m] show ?thesis by (auto dest: in_set_takeD)
qed

lemma grp_idx_seqs: "set (grp_idx (seqs rs)) = (\<Union>r \<in> set rs. set (grp_idx r))"
  by (induction rs) auto

text \<open>The groups found by \<^const>\<open>cap_at\<close> are set by every match of the concatenation, to a
  text made of characters of the input.\<close>

lemma cap_at_sound:
  "cap_at i body rs \<Longrightarrow> (s', g') \<in> set (ms (seqs rs) (s, g)) \<Longrightarrow> i - 1 < length g \<Longrightarrow>
   \<exists>w. g' ! (i - 1) = Some w \<and> cap_prop body w \<and> set w \<subseteq> set s"
proof (induction rs arbitrary: s g)
  case Nil
  then show ?case by simp
next
  case (Cons r rs)
  from Cons.prems(2) obtain s1 g1 where
    m1: "(s1, g1) \<in> set (ms r (s, g))" and m2: "(s', g') \<in> set (ms (seqs rs) (s1, g1))"
    by auto
  from ms_shape[OF m1] Cons.prems(3) have len: "i - 1 < length g1" and suf: "suffix s1 s"
    by simp_all
  show ?case
  proof (cases "cap_at i body rs")
    case True
    from Cons.IH[OF True m2 len] set_mono_suffix[OF suf] show ?thesis by blast
  next
    case False
    with Cons.prems(1) have r: "r = Grp i body" and fr: "i - 1 \<notin> set (grp_idx (seqs rs))"
      by auto
    from ms_Grp[OF m1[unfolded r] Cons.prems(3)] obtain w where
      "g1 ! (i - 1) = Some w" "cap_prop body w" "set w \<subseteq> set s" by blast
    with ms_frame[OF m2 fr] show ?thesis by auto
  qed
qed

lemma re_search_sound:
  "re_search r q = Some m \<Longrightarrow>
   \<exists>s s'. suffix s q \<and> (s', subs m) \<in> set (ms r (s, replicate (ngroups r) None))"
proof (induction q)
  case Nil
  then show ?case by (auto split: list.splits)
next
  case (Cons c q)
  show ?case
  proof (cases "ms r (c # q, replicate (ngroups r) None)")
    case Nil
    with Cons obtain s s' where "suffix s q"
      "(s', subs m) \<in> set (ms r (s, replicate (ngroups r) None))" by auto
    then show ?thesis by (meson suffix_ConsI)
  next
    case (Cons x xs)
    with Cons.prems have "subs m = snd x" by (cases x) auto
    with Cons show ?thesis by (metis list.set_intros(1) prod.collapse suffix_order.refl)
  qed
qed

text \<open>With \<^verbatim>\<open>re.search\<close>: the group is a string, and \<^verbatim>\<open>match.group\<close> returns it.\<close>

lemma re_search_group:
  assumes "re_search (seqs rs) q = Some m" and "cap_at i body rs"
    and "1 \<le> i" and "i \<le> ngroups (seqs rs)"
  shows "\<exists>w. group m i = Inr (Some w) \<and> cap_prop body w \<and> set w \<subseteq> set q"
proof -
  from re_search_sound[OF assms(1)] obtain s s' where suf: "suffix s q" and
    m: "(s', subs m) \<in> set (ms (seqs rs) (s, replicate (ngroups (seqs rs)) None))" by blast
  from ms_shape[OF m] have len: "length (subs m) = ngroups (seqs rs)" by simp
  from assms(3,4) have "i - 1 < length (replicate (ngroups (seqs rs)) (None :: string option))"
    by simp
  from cap_at_sound[OF assms(2) m this] obtain w where
    "subs m ! (i - 1) = Some w" "cap_prop body w" "set w \<subseteq> set s" by blast
  with len assms(3,4) set_mono_suffix[OF suf] show ?thesis by (auto simp: group_def)
qed

section \<open>Strings, the dispatch loop and the fallback\<close>

lemma startswith_prefix: "startswith s p = prefix p s"
  by (induction s p rule: startswith.induct) auto

lemma contains_sublist: "contains s sub = sublist sub s"
  by (induction s) (auto simp: startswith_prefix sublist_Cons_right)

lemma py_strip_id:
  assumes "s \<noteq> []" "\<not> py_isspace (hd s)" "\<not> py_isspace (last s)"
  shows "py_strip s = s"
proof -
  from assms(1,2) have a: "dropWhile py_isspace s = s" by (cases s) auto
  from assms(1,3) have "dropWhile py_isspace (rev s) = rev s"
    by (cases "rev s") (auto simp: hd_rev)
  with a show ?thesis by (simp add: py_strip_def)
qed

lemma py_strip_sandwich:
  assumes "list_all py_isspace p" "list_all py_isspace q"
    and "b \<noteq> []" "\<not> py_isspace (hd b)" "\<not> py_isspace (last b)"
  shows "py_strip (p @ b @ q) = b"
proof -
  from assms(1) have "dropWhile py_isspace (p @ b @ q) = dropWhile py_isspace (b @ q)"
    by (intro dropWhile_append2) (auto simp: list_all_iff)
  also from assms(3,4) have "\<dots> = b @ q" by (cases b) auto
  finally have a: "dropWhile py_isspace (p @ b @ q) = b @ q" .
  from assms(2) have "dropWhile py_isspace (rev q @ rev b) = dropWhile py_isspace (rev b)"
    by (intro dropWhile_append2) (auto simp: list_all_iff)
  also from assms(3,5) have "\<dots> = rev b" by (cases "rev b") (auto simp: hd_rev)
  finally show ?thesis using a by (simp add: py_strip_def)
qed

lemma keyword_based_query_total: "\<exists>sql reason. keyword_based_query q = Inr (sql, Some reason)"
  by (auto simp: keyword_based_query_def Let_def split: option.splits)

lemma dispatch_cases:
  "dispatch rs q = keyword_based_query q \<or>
   (\<exists>p h m r. (p, h) \<in> set rs \<and> re_search p q = Some m \<and> h m q = Inr r \<and>
         dispatch rs q = Inr r)"
proof (induction rs)
  case Nil
  then show ?case by simp
next
  case (Cons a rs)
  obtain p h where a: "a = (p, h)" by (cases a)
  from Cons have IH: "dispatch rs q = keyword_based_query q \<or>
   (\<exists>p h m r. (p, h) \<in> set (a # rs) \<and> re_search p q = Some m \<and> h m q = Inr r \<and>
         dispatch rs q = Inr r)"
    by (meson list.set_intros(2))
  show ?case
  proof (cases "re_search p q")
    case None
    with a have "dispatch (a # rs) q = dispatch rs q" by simp
    with IH show ?thesis by simp
  next
    case (Some m)
    show ?thesis
    proof (cases "h m q")
      case (Inl e)
      with a Some have "dispatch (a # rs) q = dispatch rs q" by simp
      with IH show ?thesis by simp
    next
      case (Inr r)
      with a Some have "dispatch (a # rs) q = Inr r" by simp
      moreover have "(p, h) \<in> set (a # rs)" using a by simp
      ultimately show ?thesis using Some Inr by blast
    qed
  qed
qed

lemma dispatch_no_match:
  "list_all (\<lambda>(p, h). re_search p q = None) rs \<Longrightarrow> dispatch rs q = keyword_based_query q"
  by (induction rs) auto

lemma dispatch_first:
  "list_all (\<lambda>(p, h). re_search p q = None) pre \<Longrightarrow> re_search p q = Some m \<Longrightarrow>
   h m q = Inr r \<Longrightarrow> dispatch (pre @ (p, h) # post) q = Inr r"
  by (induction pre) auto

lemma dispatch_passes: "list_all (passes q) pre \<Longrightarrow> dispatch (pre @ rest) q = dispatch rest q"
proof (induction pre)
  case Nil
  then show ?case by simp
next
  case (Cons a pre)
  obtain p h where a: "a = (p, h)" by (cases a)
  with Cons show ?case by (auto simp: passes_def split: option.splits sum.splits)
qed

lemma dispatch_hd:
  "rs = (p, h) # rest \<Longrightarrow> re_search p q = Some m \<Longrightarrow>
   dispatch rs q = (case h m q of Inr res \<Rightarrow> Inr res | Inl e \<Rightarrow> dispatch rest q)"
  by simp

lemma dispatch_tl: "rs = (p, h) # rest \<Longrightarrow> re_search p q = None \<Longrightarrow> dispatch rs q = dispatch rest q"
  by simp

lemma find_first:
  "i < length xs \<Longrightarrow> P (xs ! i) \<Longrightarrow> list_all (\<lambda>x. \<not> P x) (take i xs) \<Longrightarrow>
   find P xs = Some (xs ! i)"
proof (induction xs arbitrary: i)
  case Nil
  then show ?case by simp
next
  case (Cons x xs)
  then show ?case by (cases i) auto
qed

lemma table_names_nonempty: "t \<in> set table_names \<Longrightarrow> t \<noteq> []"
  by (auto simp: table_names_def tables_def)

section \<open>What \<^verbatim>\<open>strip()\<close> leaves of the handlers' texts\<close>

lemma indent_isspace: "list_all py_isspace ''\<newline>        ''"
  by code_simp

lemma isdecimal_not_isspace: "py_isdecimal c \<Longrightarrow> \<not> py_isspace c"
  by (auto simp: py_isdecimal_def py_isspace_def Let_def)

lemma isword_not_isspace: "py_isword c \<Longrightarrow> \<not> py_isspace c"
  by (auto simp: py_isword_def py_isalnum_def py_isspace_def Let_def)

lemma strip_top_errors:
  assumes "limit \<noteq> []" "\<not> py_isspace (last limit)"
  shows "py_strip (sql_top_errors time_filter limit) = query_top_errors time_filter limit"
proof -
  have e: "sql_top_errors time_filter limit = ''\<newline>        '' @ query_top_errors time_filter limit @ ''\<newline>        ''"
    by (simp add: sql_top_errors_def query_top_errors_def)
  have "query_top_errors time_filter limit \<noteq> []" "\<not> py_isspace (hd (query_top_errors time_filter limit))"
    by (simp_all add: query_top_errors_def py_isspace_def)
  moreover have "\<not> py_isspace (last (query_top_errors time_filter limit))"
    using assms by (simp add: query_top_errors_def)
  ultimately show ?thesis
    unfolding e by (rule py_strip_sandwich[OF indent_isspace indent_isspace])
qed

lemma strip_errors_timeframe: "py_strip (sql_errors_timeframe time_filter) = query_errors_timeframe time_filter"
proof -
  have e: "sql_errors_timeframe time_filter = ''\<newline>        '' @ query_errors_timeframe time_filter @ ''\<newline>        ''"
    by (simp add: sql_errors_timeframe_def query_errors_timeframe_def)
  have "query_errors_timeframe time_filter \<noteq> []" "\<not> py_isspace (hd (query_errors_timeframe time_filter))"
    "\<not> py_isspace (last (query_errors_timeframe time_filter))"
    by (simp_all add: query_errors_timeframe_def py_isspace_def)
  then show ?thesis
    unfolding e by (rule py_strip_sandwich[OF indent_isspace indent_isspace])
qed

lemma strip_failed_tests: "py_strip (sql_failed_tests time_filter) = query_failed_tests time_filter"
proof -
  have e: "sql_failed_tests time_filter = ''\<newline>        '' @ query_failed_tests time_filter @ ''\<newline>        ''"
    by (simp add: sql_failed_tests_def query_failed_tests_def)
  have "query_failed_tests time_filter \<noteq> []" "\<not> py_isspace (hd (query_failed_tests time_filter))"
    "\<not> py_isspace (last (query_failed_tests time_filter))"
    by (simp_all add: query_failed_tests_def py_isspace_def)
  then show ?thesis
    unfolding e by (rule py_strip_sandwich[OF indent_isspace indent_isspace])
qed

lemma strip_successful_tests: "py_strip (sql_successful_tests) = query_successful_tests"
proof -
  have e: "sql_successful_tests = ''\<newline>        '' @ query_successful_tests @ ''\<newline>        ''"
    by (simp add: sql_successful_tests_def query_successful_tests_def)
  have "query_successful_tests \<noteq> []" "\<not> py_isspace (hd (query_successful_tests))"
    "\<not> py_isspace (last (query_successful_tests))"
    by (simp_all add: query_successful_tests_def py_isspace_def)
  then show ?thesis
    unfolding e by (rule py_strip_sandwich[OF indent_isspace indent_isspace])
qed

lemma strip_inactive_integrations: "py_strip (sql_inactive_integrations) = query_inactive_integrations"
proof -
  have e: "sql_inactive_integrations = ''\<newline>        '' @ query_inactive_integrations @ ''\<newline>        ''"
    by (simp add: sql_inactive_integrations_def query_inactive_integrations_def)
  have "query_inactive_integrations \<noteq> []" "\<not> py_isspace (hd (query_inactive_integrations))"
    "\<not> py_isspace (last (query_inactive_integrations))"
    by (simp_all add: query_inactive_integrations_def py_isspace_def)
  then show ?thesis
    unfolding e by (rule py_strip_sandwich[OF indent_isspace indent_isspace])
qed

lemma strip_integrations_by_status: "py_strip (sql_integrations_by_status) = query_integrations_by_status"
proof -
  have e: "sql_integrations_by_status = ''\<newline>        '' @ query_integrations_by_status @ ''\<newline>        ''"
    by (simp add: sql_integrations_by_status_def query_integrations_by_status_def)
  have "query_integrations_by_status \<noteq> []" "\<not> py_isspace (hd (query_integrations_by_status))"
    "\<not> py_isspace (last (query_integrations_by_status))"
    by (simp_all add: query_integrations_by_status_def py_isspace_def)
  then show ?thesis
    unfolding e by (rule py_strip_sandwich[OF indent_isspace indent_isspace])
qed

lemma strip_agents_by_language: "py_strip (sql_agents_by_language language_code) = query_agents_by_language language_code"
proof -
  have e: "sql_agents_by_language language_code = ''\<newline>        '' @ query_agents_by_language language_code @ ''\<newline>        ''"
    by (simp add: sql_agents_by_language_def query_agents_by_language_def)
  have "query_agents_by_language language_code \<noteq> []" "\<not> py_isspace (hd (query_agents_by_language language_code))"
    "\<not> py_isspace (last (query_agents_by_language language_code))"
    by (simp_all add: query_agents_by_language_def py_isspace_def)
  then show ?thesis
    unfolding e by (rule py_strip_sandwich[OF indent_isspace indent_isspace])
qed

lemma strip_all_agents: "py_strip (sql_all_agents) = query_all_agents"
proof -
  have e: "sql_all_agents = ''\<newline>        '' @ query_all_agents @ ''\<newline>        ''"
    by (simp add: sql_all_agents_def query_all_agents_def)
  have "query_all_agents \<noteq> []" "\<not> py_isspace (hd (query_all_agents))"
    "\<not> py_isspace (last (query_all_agents))"
    by (simp_all add: query_all_agents_def py_isspace_def)
  then show ?thesis
    unfolding e by (rule py_strip_sandwich[OF indent_isspace indent_isspace])
qed

lemma strip_all_workspaces: "py_strip (sql_all_workspaces) = query_all_workspaces"
proof -
  have e: "sql_all_workspaces = ''\<newline>        '' @ query_all_workspaces @ ''\<newline>        ''"
    by (simp add: sql_all_workspaces_def query_all_workspaces_def)
  have "query_all_workspaces \<noteq> []" "\<not> py_isspace (hd (query_all_workspaces))"
    "\<not> py_isspace (last (query_all_workspaces))"
    by (simp_all add: query_all_workspaces_def py_isspace_def)
  then show ?thesis
    unfolding e by (rule py_strip_sandwich[OF indent_isspace indent_isspace])
qed

lemma strip_workspaces_by_plan: "py_strip (sql_workspaces_by_plan) = query_workspaces_by_plan"
proof -
  have e: "sql_workspaces_by_plan = ''\<newline>        '' @ query_workspaces_by_plan @ ''\<newline>        ''"
    by (simp add: sql_workspaces_by_plan_def query_workspaces_by_plan_def)
  have "query_workspaces_by_plan \<noteq> []" "\<not> py_isspace (hd (query_workspaces_by_plan))"
    "\<not> py_isspace (last (query_workspaces_by_plan))"
    by (simp_all add: query_workspaces_by_plan_def py_isspace_def)
  then show ?thesis
    unfolding e by (rule py_strip_sandwich[OF indent_isspace indent_isspace])
qed

lemma strip_errors_by_source: "py_strip (sql_errors_by_source) = query_errors_by_source"
proof -
  have e: "sql_errors_by_source = ''\<newline>        '' @ query_errors_by_source @ ''\<newline>        ''"
    by (simp add: sql_errors_by_source_def query_errors_by_source_def)
  have "query_errors_by_source \<noteq> []" "\<not> py_isspace (hd (query_errors_by_source))"
    "\<not> py_isspace (last (query_errors_by_source))"
    by (simp_all add: query_errors_by_source_def py_isspace_def)
  then show ?thesis
    unfolding e by (rule py_strip_sandwich[OF indent_isspace indent_isspace])
qed

lemma strip_agent_runs_status: "py_strip (sql_agent_runs_status) = query_agent_runs_status"
proof -
  have e: "sql_agent_runs_status = ''\<newline>        '' @ query_agent_runs_status @ ''\<newline>        ''"
    by (simp add: sql_agent_runs_status_def query_agent_runs_status_def)
  have "query_agent_runs_status \<noteq> []" "\<not> py_isspace (hd (query_agent_runs_status))"
    "\<not> py_isspace (last (query_agent_runs_status))"
    by (simp_all add: query_agent_runs_status_def py_isspace_def)
  then show ?thesis
    unfolding e by (rule py_strip_sandwich[OF indent_isspace indent_isspace])
qed

lemma strip_billing_by_workspace: "py_strip (sql_billing_by_workspace) = query_billing_by_workspace"
proof -
  have e: "sql_billing_by_workspace = ''\<newline>        '' @ query_billing_by_workspace @ ''\<newline>        ''"
    by (simp add: sql_billing_by_workspace_def query_billing_by_workspace_def)
  have "query_billing_by_workspace \<noteq> []" "\<not> py_isspace (hd (query_billing_by_workspace))"
    "\<not> py_isspace (last (query_billing_by_workspace))"
    by (simp_all add: query_billing_by_workspace_def py_isspace_def)
  then show ?thesis
    unfolding e by (rule py_strip_sandwich[OF indent_isspace indent_isspace])
qed

lemma strip_top_usage:
  assumes "limit \<noteq> []" "\<not> py_isspace (last limit)"
  shows "py_strip (sql_top_usage limit) = query_top_usage limit"
proof -
  have e: "sql_top_usage limit = ''\<newline>        '' @ query_top_usage limit @ ''\<newline>        ''"
    by (simp add: sql_top_usage_def query_top_usage_def)
  have "query_top_usage limit \<noteq> []" "\<not> py_isspace (hd (query_top_usage limit))"
    by (simp_all add: query_top_usage_def py_isspace_def)
  moreover have "\<not> py_isspace (last (query_top_usage limit))"
    using assms by (simp add: query_top_usage_def)
  ultimately show ?thesis
    unfolding e by (rule py_strip_sandwich[OF indent_isspace indent_isspace])
qed

section \<open>The rules: what a match captures and what the handler returns\<close>

lemma digit_char_isdecimal: "d < 10 \<Longrightarrow> py_isdecimal (digit_char d)"
  by (simp add: digit_char_def py_isdecimal_def)

lemma nat_str_digits: "nat_str n \<noteq> [] \<and> list_all py_isdecimal (nat_str n)"
proof (induction n rule: nat_str.induct)
  case (1 n)
  then show ?case
    by (cases "n < 10") (simp_all add: nat_str.simps[of n] digit_char_isdecimal)
qed

lemma in_cls_Digit: "in_cls Digit = py_isdecimal"
  by (rule ext) simp

lemma in_cls_Word: "in_cls Word = py_isword"
  by (rule ext) simp

lemma foldl_digits_nonneg: "0 \<le> a \<Longrightarrow> 0 \<le> foldl (\<lambda>a c. 10 * a + digit_val c) a s"
  by (induction s arbitrary: a) (auto simp: digit_val_def)

lemma digits_value_nonneg: "0 \<le> digits_value s"
  by (simp add: digits_value_def foldl_digits_nonneg)

lemma py_int_digits:
  "cap_prop (Plus Digit) v \<Longrightarrow>
   py_int (Some v) = (if length v \<le> max_str_digits then Inr (digits_value v) else Inl ValueError)"
  by (auto simp: py_int_def in_cls_Digit)

lemma multiplier_nonneg: "0 \<le> dict_get multiplier unit 1"
  by (auto simp: dict_get_def multiplier_def split: option.splits)

lemma window_nonneg: "0 \<le> window v unit"
  by (simp add: window_def digits_value_nonneg multiplier_nonneg)

lemma get_time_filter_digits:
  assumes "cap_prop (Plus Digit) v"
  shows "get_time_filter (Some v) unit =
     (if within_limit v unit
      then Inr (time_filter_text (window v unit) (dict_get unit_map unit ''days''))
      else Inl ValueError)"
proof -
  from window_nonneg[of v unit]
  have "nat_str (nat \<bar>window v unit\<bar>) = int_decimal (window v unit)"
    by (simp add: int_decimal_def)
  then show ?thesis
    by (simp add: get_time_filter_def py_int_digits[OF assms] py_str_int_def within_limit_def
        time_filter_text_def Let_def window_def)
qed

lemma get_time_filter_returned:
  assumes "cap_prop (Plus Digit) v" "get_time_filter (Some v) unit = Inr tf"
  shows "within_limit v unit \<and>
         tf = time_filter_text (window v unit) (dict_get unit_map unit ''days'')"
  using assms(2) unfolding get_time_filter_digits[OF assms(1)] by (simp split: if_splits)

lemma nat_str_length_le: "0 < k \<Longrightarrow> n < 10 ^ k \<Longrightarrow> length (nat_str n) \<le> k"
proof (induction k arbitrary: n)
  case 0
  then show ?case by simp
next
  case (Suc k)
  show ?case
  proof (cases "n < 10")
    case True
    then show ?thesis by (simp add: nat_str.simps[of n])
  next
    case False
    with Suc.prems have k: "0 < k" by (cases k) auto
    from Suc.prems have "n div 10 < 10 ^ k" by (simp add: less_mult_imp_div_less mult.commute)
    from Suc.IH[OF k this] False show ?thesis by (simp add: nat_str.simps[of n])
  qed
qed

lemma nat_str_length_gt: "10 ^ k \<le> n \<Longrightarrow> k < length (nat_str n)"
proof (induction k arbitrary: n)
  case 0
  then show ?case by (cases "n < 10") (simp_all add: nat_str.simps[of n])
next
  case (Suc k)
  have "(1::nat) \<le> 10 ^ k" by simp
  then have t: "(10::nat) \<le> 10 * 10 ^ k" by simp
  from Suc.prems have p: "10 * 10 ^ k \<le> n" by simp
  with t have "\<not> n < 10" by linarith
  moreover from p have "10 ^ k \<le> n div 10"
    by (simp add: less_eq_div_iff_mult_less_eq mult.commute)
  ultimately have n: "\<not> n < 10" "10 ^ k \<le> n div 10" by simp_all
  from Suc.IH[OF n(2)] n(1) show ?case by (simp add: nat_str.simps[of n])
qed

lemma foldl_digits_bound:
  "list_all py_isdecimal s \<Longrightarrow>
   foldl (\<lambda>a c. 10 * a + digit_val c) a s < (a + 1) * 10 ^ length s"
proof (induction s arbitrary: a)
  case Nil
  then show ?case by simp
next
  case (Cons c s)
  let ?f = "\<lambda>a c. 10 * a + digit_val c"
  from Cons.prems have "digit_val c \<le> 9"
    by (auto simp: py_isdecimal_def digit_val_def Let_def)
  then have le: "(10 * a + digit_val c + 1) * 10 ^ length s \<le> (10 * a + 10) * 10 ^ length s"
    by (intro mult_right_mono) auto
  have "foldl ?f a (c # s) = foldl ?f (10 * a + digit_val c) s" by simp
  also from Cons.IH[of "10 * a + digit_val c"] Cons.prems
  have "\<dots> < (10 * a + digit_val c + 1) * 10 ^ length s" by simp
  also note le
  also have "(10 * a + 10) * 10 ^ length s = (a + 1) * 10 ^ length (c # s)"
    by (simp add: algebra_simps)
  finally show ?case .
qed

lemma digits_value_bound: "list_all py_isdecimal s \<Longrightarrow> digits_value s < 10 ^ length s"
  using foldl_digits_bound[of s 0] by (simp add: digits_value_def)

lemma multiplier_bound: "dict_get multiplier unit 1 < 100"
  by (auto simp: dict_get_def multiplier_def split: option.splits)

lemma within_limit_short:
  assumes "cap_prop (Plus Digit) v" "length v + 2 \<le> max_str_digits"
  shows "within_limit v unit"
proof -
  from assms(1) have d: "list_all py_isdecimal v" by (simp add: in_cls_Digit)
  have "window v unit \<le> digits_value v * 100"
    unfolding window_def using multiplier_bound[of unit] digits_value_nonneg[of v]
    by (intro mult_left_mono) auto
  also from digits_value_bound[OF d] have "\<dots> < 10 ^ length v * 100" by simp
  finally have "window v unit < 10 ^ (length v + 2)" by simp
  with window_nonneg[of v unit] have "nat (window v unit) < 10 ^ (length v + 2)"
    by (simp add: nat_less_iff)
  then have "length (nat_str (nat (window v unit))) \<le> length v + 2"
    by (intro nat_str_length_le) auto
  with assms(2) window_nonneg[of v unit] show ?thesis
    by (simp add: within_limit_def int_decimal_def)
qed

lemma digits_ends:
  assumes "cap_prop (Plus Digit) n"
  shows "n \<noteq> [] \<and> \<not> py_isspace (last n)"
proof -
  from assms have n: "n \<noteq> []" and "\<forall>c \<in> set n. py_isdecimal c"
    by (auto simp: in_cls_Digit list_all_iff)
  then have "py_isdecimal (last n)" by simp
  with n show ?thesis by (simp add: isdecimal_not_isspace)
qed

lemma unit_map_cases: "dict_get unit_map unit ''days'' \<in> {''hours'', ''days''}"
  by (auto simp: dict_get_def unit_map_def split: option.splits)

lemma lower_char_idem: "lower_char (lower_char c) = lower_char c"
  by (simp add: lower_char_def Let_def)

lemma set_py_strip: "set (py_strip s) \<subseteq> set s"
  by (auto simp: py_strip_def dest!: set_dropWhileD)

lemma normalized_lower:
  "set u \<subseteq> set (py_strip (py_lower q)) \<Longrightarrow> py_lower u = u"
proof -
  assume a: "set u \<subseteq> set (py_strip (py_lower q))"
  have "lower_char c = c" if "c \<in> set u" for c
  proof -
    from that a set_py_strip have "c \<in> set (py_lower q)" by blast
    then show ?thesis by (auto simp: py_lower_def lower_char_idem)
  qed
  then show ?thesis by (simp add: py_lower_def map_idI)
qed

lemma time_unit_exact:
  assumes "cap_prop time_unit_re u" "py_lower u = u"
  shows "u \<in> {''hour'', ''day'', ''week'', ''month''}"
proof -
  have "py_lower ''hour'' = ''hour''" "py_lower ''day'' = ''day''"
    "py_lower ''week'' = ''week''" "py_lower ''month'' = ''month''"
    by code_simp+
  with assms show ?thesis by (auto simp: time_unit_re_def)
qed

lemma caps_top_errors:
  assumes "re_search pat_top_errors q = Some m"
  shows "\<exists>n v u. group m 1 = Inr (Some n) \<and> cap_prop (Plus Digit) n \<and>
           group m 2 = Inr (Some v) \<and> cap_prop (Plus Digit) v \<and>
           group m 3 = Inr (Some u) \<and> cap_prop time_unit_re u \<and> set u \<subseteq> set q"
proof -
  let ?rs = "[Lit ''top'', Plus Space, Grp 1 (Plus Digit), Plus Space, Lit ''error'', Opt (Lit ''s''),
            Plus Space] @ last_window_re 2"
  have s: "re_search (seqs ?rs) q = Some m" using assms by (simp add: pat_top_errors_def)
  have n: "ngroups (seqs ?rs) = 3" by (simp add: last_window_re_def time_unit_re_def)
  have "cap_at 1 (Plus Digit) ?rs" by (simp add: last_window_re_def time_unit_re_def)
  from re_search_group[OF s this] n obtain a where
    a: "group m 1 = Inr (Some a) \<and> cap_prop (Plus Digit) a" by auto
  have "cap_at 2 (Plus Digit) ?rs" by (simp add: last_window_re_def time_unit_re_def)
  from re_search_group[OF s this] n obtain b where
    b: "group m 2 = Inr (Some b) \<and> cap_prop (Plus Digit) b" by auto
  have "cap_at 3 time_unit_re ?rs" by (simp add: last_window_re_def time_unit_re_def)
  from re_search_group[OF s this] n obtain c where
    c: "group m 3 = Inr (Some c) \<and> cap_prop time_unit_re c \<and> set c \<subseteq> set q" by auto
  from a b c show ?thesis by blast
qed

lemma caps_errors_timeframe:
  assumes "re_search pat_errors_timeframe q = Some m"
  shows "\<exists>v u. group m 1 = Inr (Some v) \<and> cap_prop (Plus Digit) v \<and>
           group m 2 = Inr (Some u) \<and> cap_prop time_unit_re u \<and> set u \<subseteq> set q"
proof -
  let ?rs = "[alts [Lit ''show'', Lit ''list'', Lit ''get'', Lit ''find''], Plus Space,
            Opt (seqs [Lit ''all'', Plus Space]), Lit ''error'', Opt (Lit ''s''),
            Plus Space] @ last_window_re 1"
  have s: "re_search (seqs ?rs) q = Some m" using assms by (simp add: pat_errors_timeframe_def)
  have n: "ngroups (seqs ?rs) = 2" by (simp add: last_window_re_def time_unit_re_def)
  have "cap_at 1 (Plus Digit) ?rs" by (simp add: last_window_re_def time_unit_re_def)
  from re_search_group[OF s this] n obtain b where
    b: "group m 1 = Inr (Some b) \<and> cap_prop (Plus Digit) b" by auto
  have "cap_at 2 time_unit_re ?rs" by (simp add: last_window_re_def time_unit_re_def)
  from re_search_group[OF s this] n obtain c where
    c: "group m 2 = Inr (Some c) \<and> cap_prop time_unit_re c \<and> set c \<subseteq> set q" by auto
  from b c show ?thesis by blast
qed

lemma caps_failed_tests:
  assumes "re_search pat_failed_tests q = Some m"
  shows "\<exists>v u. group m 1 = Inr (Some v) \<and> cap_prop (Plus Digit) v \<and>
           group m 2 = Inr (Some u) \<and> cap_prop time_unit_re u \<and> set u \<subseteq> set q"
proof -
  let ?rs = "[alts [Lit ''show'', Lit ''list'', Lit ''get'', Lit ''find''], Plus Space,
            Opt (seqs [Lit ''all'', Plus Space]), Lit ''failed'', Plus Space, Lit ''test'',
            Star Space, Lit ''run'', Opt (Lit ''s''), Plus Space] @ last_window_re 1"
  have s: "re_search (seqs ?rs) q = Some m" using assms by (simp add: pat_failed_tests_def)
  have n: "ngroups (seqs ?rs) = 2" by (simp add: last_window_re_def time_unit_re_def)
  have "cap_at 1 (Plus Digit) ?rs" by (simp add: last_window_re_def time_unit_re_def)
  from re_search_group[OF s this] n obtain b where
    b: "group m 1 = Inr (Some b) \<and> cap_prop (Plus Digit) b" by auto
  have "cap_at 2 time_unit_re ?rs" by (simp add: last_window_re_def time_unit_re_def)
  from re_search_group[OF s this] n obtain c where
    c: "group m 2 = Inr (Some c) \<and> cap_prop time_unit_re c \<and> set c \<subseteq> set q" by auto
  from b c show ?thesis by blast
qed

lemma caps_agents_by_language:
  assumes "re_search pat_agents_by_language q = Some m"
  shows "\<exists>g. group m 1 = Inr (Some g) \<and> cap_prop (Plus Word) g"
proof -
  let ?rs = "[alts [Lit ''show'', Lit ''list'', Lit ''get'', Lit ''find''], Plus Space,
           Opt (seqs [Lit ''all'', Plus Space]), Lit ''agent'', Opt (Lit ''s''), Plus Space,
           alts [Lit ''using'', Lit ''with'', Lit ''in''], Plus Space, Grp 1 (Plus Word),
           Plus Space, Lit ''language'']"
  have s: "re_search (seqs ?rs) q = Some m" using assms by (simp add: pat_agents_by_language_def)
  have n: "ngroups (seqs ?rs) = 1" by simp
  have "cap_at 1 (Plus Word) ?rs" by simp
  from re_search_group[OF s this] n show ?thesis by auto
qed

lemma caps_count:
  assumes "re_search pat_count q = Some m"
  shows "\<exists>g. group m 1 = Inr (Some g) \<and> cap_prop (Plus Word) g"
proof -
  let ?rs = "[alts [Lit ''how many'', Lit ''count''], Plus Space, Grp 1 (Plus Word)]"
  have s: "re_search (seqs ?rs) q = Some m" using assms by (simp add: pat_count_def)
  have n: "ngroups (seqs ?rs) = 1" by simp
  have "cap_at 1 (Plus Word) ?rs" by simp
  from re_search_group[OF s this] n show ?thesis by auto
qed

lemma caps_top_usage:
  assumes "re_search pat_top_usage q = Some m"
  shows "\<exists>n. group m 1 = Inr (Some n) \<and> cap_prop (Plus Digit) n"
proof -
  let ?rs = "[alts [Lit ''top'', Lit ''highest''], Plus Space, Grp 1 (Plus Digit), Plus Space,
           alts [Lit ''token'', Lit ''cost'', Lit ''usage'']]"
  have s: "re_search (seqs ?rs) q = Some m" using assms by (simp add: pat_top_usage_def)
  have n: "ngroups (seqs ?rs) = 1" by simp
  have "cap_at 1 (Plus Digit) ?rs" by simp
  from re_search_group[OF s this] n show ?thesis by auto
qed

lemma rule_top_errors:
  assumes "re_search pat_top_errors q = Some m"
  shows "\<exists>n v u. cap_prop (Plus Digit) n \<and> cap_prop (Plus Digit) v \<and>
      cap_prop time_unit_re u \<and> set u \<subseteq> set q \<and>
      group m 1 = Inr (Some n) \<and> group m 2 = Inr (Some v) \<and> group m 3 = Inr (Some u) \<and>
      handle_top_errors m q' =
        (if within_limit v (Some u)
         then Inr (Some (query_top_errors
                     (time_filter_text (window v (Some u))
                        (dict_get unit_map (Some u) ''days'')) n),
             Some (''Finding top '' @ n @ '' errors from the last '' @ v @ '' '' @ u @ ''(s)''))
         else Inl ValueError)"
proof -
  from caps_top_errors[OF assms] obtain n v u where
    c: "group m 1 = Inr (Some n)" "cap_prop (Plus Digit) n"
       "group m 2 = Inr (Some v)" "cap_prop (Plus Digit) v"
       "group m 3 = Inr (Some u)" "cap_prop time_unit_re u" "set u \<subseteq> set q" by blast
  from digits_ends[OF c(2)] have "py_strip (sql_top_errors tf n) = query_top_errors tf n" for tf
    by (intro strip_top_errors) auto
  with c have "handle_top_errors m q' =
        (if within_limit v (Some u)
         then Inr (Some (query_top_errors
                     (time_filter_text (window v (Some u))
                        (dict_get unit_map (Some u) ''days'')) n),
             Some (''Finding top '' @ n @ '' errors from the last '' @ v @ '' '' @ u @ ''(s)''))
         else Inl ValueError)"
    by (simp add: handle_top_errors_def fmt_def get_time_filter_digits[OF c(4)])
  with c show ?thesis by blast
qed

lemma rule_errors_timeframe:
  assumes "re_search pat_errors_timeframe q = Some m"
  shows "\<exists>v u. cap_prop (Plus Digit) v \<and>
      cap_prop time_unit_re u \<and> set u \<subseteq> set q \<and>
      group m 1 = Inr (Some v) \<and> group m 2 = Inr (Some u) \<and>
      handle_errors_timeframe m q' =
        (if within_limit v (Some u)
         then Inr (Some (query_errors_timeframe
                     (time_filter_text (window v (Some u))
                        (dict_get unit_map (Some u) ''days''))),
             Some (''Showing all errors from the last '' @ v @ '' '' @ u @ ''(s)''))
         else Inl ValueError)"
proof -
  from caps_errors_timeframe[OF assms] obtain v u where
    c: "group m 1 = Inr (Some v)" "cap_prop (Plus Digit) v"
       "group m 2 = Inr (Some u)" "cap_prop time_unit_re u" "set u \<subseteq> set q" by blast
  from c have "handle_errors_timeframe m q' =
        (if within_limit v (Some u)
         then Inr (Some (query_errors_timeframe
                     (time_filter_text (window v (Some u))
                        (dict_get unit_map (Some u) ''days''))),
             Some (''Showing all errors from the last '' @ v @ '' '' @ u @ ''(s)''))
         else Inl ValueError)"
    by (simp add: handle_errors_timeframe_def fmt_def strip_errors_timeframe
        get_time_filter_digits[OF c(2)])
  with c show ?thesis by blast
qed

lemma rule_failed_tests:
  assumes "re_search pat_failed_tests q = Some m"
  shows "\<exists>v u. cap_prop (Plus Digit) v \<and>
      cap_prop time_unit_re u \<and> set u \<subseteq> set q \<and>
      group m 1 = Inr (Some v) \<and> group m 2 = Inr (Some u) \<and>
      handle_failed_tests m q' =
        (if within_limit v (Some u)
         then Inr (Some (query_failed_tests
                     (time_filter_text (window v (Some u))
                        (dict_get unit_map (Some u) ''days''))),
             Some (''Finding failed test runs from the last '' @ v @ '' '' @ u @ ''(s)''))
         else Inl ValueError)"
proof -
  from caps_failed_tests[OF assms] obtain v u where
    c: "group m 1 = Inr (Some v)" "cap_prop (Plus Digit) v"
       "group m 2 = Inr (Some u)" "cap_prop time_unit_re u" "set u \<subseteq> set q" by blast
  from c have "handle_failed_tests m q' =
        (if within_limit v (Some u)
         then Inr (Some (query_failed_tests
                     (time_filter_text (window v (Some u))
                        (dict_get unit_map (Some u) ''days''))),
             Some (''Finding failed test runs from the last '' @ v @ '' '' @ u @ ''(s)''))
         else Inl ValueError)"
    by (simp add: handle_failed_tests_def fmt_def strip_failed_tests
        get_time_filter_digits[OF c(2)])
  with c show ?thesis by blast
qed

lemma rule_agents_by_language:
  assumes "re_search pat_agents_by_language q = Some m"
  shows "\<exists>g. cap_prop (Plus Word) g \<and> group m 1 = Inr (Some g) \<and>
      handle_agents_by_language m q' =
        Inr (Some (query_agents_by_language
                     (dict_get languages (Some (py_lower g)) (take 2 (py_lower g)))),
             Some (''Finding all agents using '' @ py_lower g @ '' language''))"
proof -
  from caps_agents_by_language[OF assms] obtain g where
    c: "group m 1 = Inr (Some g)" "cap_prop (Plus Word) g" by blast
  then have "handle_agents_by_language m q' =
        Inr (Some (query_agents_by_language
                     (dict_get languages (Some (py_lower g)) (take 2 (py_lower g)))),
             Some (''Finding all agents using '' @ py_lower g @ '' language''))"
    by (simp add: handle_agents_by_language_def Let_def strip_agents_by_language)
  with c show ?thesis by blast
qed

lemma table_names_ends: "t \<in> set table_names \<Longrightarrow> t \<noteq> [] \<and> \<not> py_isspace (last t)"
  by (auto simp: table_names_def tables_def py_isspace_def)

lemma strip_count:
  assumes "t \<in> set table_names"
  shows "py_strip (''SELECT COUNT(*) as count FROM '' @ t) = ''SELECT COUNT(*) as count FROM '' @ t"
  using table_names_ends[OF assms] by (intro py_strip_id) (auto simp: py_isspace_def)

lemma find_in_set: "find P xs = Some x \<Longrightarrow> x \<in> set xs \<and> P x"
  by (auto simp: find_Some_iff)

lemma rule_count:
  assumes "re_search pat_count q = Some m"
  shows "\<exists>g. cap_prop (Plus Word) g \<and> group m 1 = Inr (Some g) \<and>
      (handle_count m q' = Inr (None, None) \<or>
       (\<exists>t. t \<in> set table_names \<and>
          handle_count m q' = Inr (Some (''SELECT COUNT(*) as count FROM '' @ t),
                                  Some (''Counting total '' @ py_lower g))))"
proof -
  from caps_count[OF assms] obtain g where
    c: "group m 1 = Inr (Some g)" "cap_prop (Plus Word) g" by blast
  let ?P = "\<lambda>table_name. contains table_name (py_lower g) \<or> startswith table_name (py_lower g)"
  show ?thesis
  proof (cases "find ?P table_names")
    case None
    with c have "handle_count m q' = Inr (None, None)"
      by (simp add: handle_count_def Let_def)
    with c show ?thesis by blast
  next
    case (Some t)
    from find_in_set[OF Some] have t: "t \<in> set table_names" by simp
    with table_names_ends[OF t] c Some strip_count[OF t]
    have "handle_count m q' = Inr (Some (''SELECT COUNT(*) as count FROM '' @ t),
                                  Some (''Counting total '' @ py_lower g))"
      by (simp add: handle_count_def Let_def)
    with c t show ?thesis by blast
  qed
qed

lemma rule_top_usage:
  assumes "re_search pat_top_usage q = Some m"
  shows "\<exists>n. cap_prop (Plus Digit) n \<and> group m 1 = Inr (Some n) \<and>
      handle_top_usage m q' =
        Inr (Some (query_top_usage n), Some (''Finding top '' @ n @ '' agents by token usage''))"
proof -
  from caps_top_usage[OF assms] obtain n where
    c: "group m 1 = Inr (Some n)" "cap_prop (Plus Digit) n" by blast
  from digits_ends[OF c(2)] have "py_strip (sql_top_usage n) = query_top_usage n"
    by (intro strip_top_usage) auto
  with c have "handle_top_usage m q' =
        Inr (Some (query_top_usage n), Some (''Finding top '' @ n @ '' agents by token usage''))"
    by (simp add: handle_top_usage_def fmt_def)
  with c show ?thesis by blast
qed

lemma handler_result_form:
  assumes "(p, h) \<in> set patterns" and "h m q = Inr (sql, e)"
  shows "(\<exists>s x. sql = Some s \<and> e = Some x) \<or> (sql = None \<and> e = None)"
proof -
  from assms(1) have "h \<in> {handle_top_errors, handle_errors_timeframe, handle_failed_tests,
      handle_successful_tests, handle_inactive_integrations, handle_integrations_by_status,
      handle_agents_by_language, handle_all_agents, handle_all_workspaces,
      handle_workspaces_by_plan, handle_count, handle_errors_by_source,
      handle_agent_runs_status, handle_billing_by_workspace, handle_top_usage}"
    by (auto simp: patterns_def)
  with assms(2) show ?thesis
    by (elim insertE emptyE)
       (auto simp: handle_top_errors_def handle_errors_timeframe_def handle_failed_tests_def
          handle_successful_tests_def handle_inactive_integrations_def
          handle_integrations_by_status_def handle_agents_by_language_def handle_all_agents_def
          handle_all_workspaces_def handle_workspaces_by_plan_def handle_count_def
          handle_errors_by_source_def handle_agent_runs_status_def
          handle_billing_by_workspace_def handle_top_usage_def Let_def
          split: sum.splits option.splits if_splits)
qed

lemma lang_code_dict_get: "dict_get languages (Some name) (take 2 name) = lang_code name"
proof (cases "map_of languages name")
  case None
  then have "name \<notin> set (map fst languages)" by (simp add: map_of_eq_None_iff)
  with None show ?thesis by (simp add: dict_get_def lang_code_def)
next
  case (Some c)
  then have "name \<in> set (map fst languages)" by (auto dest: map_of_SomeD intro: rev_image_eqI)
  with Some show ?thesis by (simp add: dict_get_def lang_code_def)
qed

lemma patterns_split_agents_by_language:
  "patterns = take 6 patterns @ (pat_agents_by_language, handle_agents_by_language) # drop 7 patterns"
  by (simp add: patterns_def)

lemma patterns_first_three:
  "patterns = (pat_top_errors, handle_top_errors) #
     (pat_errors_timeframe, handle_errors_timeframe) #
     (pat_failed_tests, handle_failed_tests) # drop 3 patterns"
  by (simp add: patterns_def)

lemma patterns_hd: "patterns = (pat_top_errors, handle_top_errors) # drop 1 patterns"
  by (simp add: patterns_def)

lemma patterns_drop1:
  "drop 1 patterns = (pat_errors_timeframe, handle_errors_timeframe) # drop 2 patterns"
  by (simp add: patterns_def)

lemma patterns_drop2:
  "drop 2 patterns = (pat_failed_tests, handle_failed_tests) # drop 3 patterns"
  by (simp add: patterns_def)

lemma is_digits_cap: "cap_prop (Plus Digit) v = is_digits v"
  by (simp add: is_digits_def in_cls_Digit)

lemma reasonless_handler:
  assumes "(p, h) \<in> set patterns" and "h m q = Inr (None, None)"
  shows "p = pat_count \<and> h = handle_count"
  using assms
  by (auto simp: patterns_def handle_top_errors_def handle_errors_timeframe_def
      handle_failed_tests_def handle_successful_tests_def handle_inactive_integrations_def
      handle_integrations_by_status_def handle_agents_by_language_def handle_all_agents_def
      handle_all_workspaces_def handle_workspaces_by_plan_def
      handle_errors_by_source_def handle_agent_runs_status_def
      handle_billing_by_workspace_def handle_top_usage_def Let_def
      split: sum.splits option.splits if_splits)

lemma digits_value_nines: "digits_value (replicate k CHR ''9'') = 10 ^ k - 1"
proof -
  have "foldl (\<lambda>a c. 10 * a + digit_val c) a (replicate k CHR ''9'') = (a + 1) * 10 ^ k - 1" for a
    by (induction k arbitrary: a) (simp_all add: digit_val_def algebra_simps)
  from this[of 0] show ?thesis by (simp add: digits_value_def)
qed

lemma nines_month_over:
  assumes "0 < k"
  shows "k < length (int_decimal (window (replicate k CHR ''9'') (Some ''month'')))"
proof -
  let ?v = "replicate k CHR ''9''"
  have w: "window ?v (Some ''month'') = (10 ^ k - 1) * 30"
    by (simp add: window_def digits_value_nines dict_get_def multiplier_def)
  from assms have "(10::int) ^ 1 \<le> 10 ^ k" by (intro power_increasing) auto
  then have "(10::int) ^ k \<le> (10 ^ k - 1) * 30" by simp
  then have "int (10 ^ k) \<le> window ?v (Some ''month'')" unfolding w by simp
  then have "(10::nat) ^ k \<le> nat (window ?v (Some ''month''))" by linarith
  from nat_str_length_gt[OF this] window_nonneg[of ?v "Some ''month''"]
  show ?thesis by (simp add: int_decimal_def)
qed

lemma run_digits: "py_isdecimal c \<Longrightarrow> 0 < k \<Longrightarrow> cap_prop (Plus Digit) (replicate k c)"
  by (simp add: in_cls_Digit list_all_iff)

lemma over_limit_raises:
  assumes "cap_prop (Plus Digit) v" "max_str_digits < length v"
  shows "get_time_filter (Some v) unit = Inl ValueError"
  using assms(2) unfolding get_time_filter_digits[OF assms(1)] by (simp add: within_limit_def)

lemma patterns_untimed:
  assumes "(p, h) \<in> set (drop 3 patterns)"
  shows "(p = pat_agents_by_language \<and> h = handle_agents_by_language) \<or>
     (p = pat_count \<and> h = handle_count) \<or> (p = pat_top_usage \<and> h = handle_top_usage) \<or>
     h \<in> {handle_successful_tests, handle_inactive_integrations,
         handle_integrations_by_status, handle_all_agents, handle_all_workspaces,
         handle_workspaces_by_plan, handle_errors_by_source, handle_agent_runs_status,
         handle_billing_by_workspace}"
  using assms by (auto simp: patterns_def)

lemma untimed_handler_returns:
  assumes "(p, h) \<in> set (drop 3 patterns)" and "re_search p q = Some m"
  shows "\<exists>r. h m q' = Inr r"
proof -
  from patterns_untimed[OF assms(1)] consider
      "p = pat_agents_by_language" "h = handle_agents_by_language"
    | "p = pat_count" "h = handle_count"
    | "p = pat_top_usage" "h = handle_top_usage"
    | "h \<in> {handle_successful_tests, handle_inactive_integrations,
         handle_integrations_by_status, handle_all_agents, handle_all_workspaces,
         handle_workspaces_by_plan, handle_errors_by_source, handle_agent_runs_status,
         handle_billing_by_workspace}"
    by blast
  then show ?thesis
  proof cases
    case 1
    with rule_agents_by_language[of q m q'] assms(2) show ?thesis by blast
  next
    case 2
    with rule_count[of q m q'] assms(2) show ?thesis by blast
  next
    case 3
    with rule_top_usage[of q m q'] assms(2) show ?thesis by blast
  next
    case 4
    then show ?thesis
      by (elim insertE emptyE)
         (simp_all add: handle_successful_tests_def handle_inactive_integrations_def
            handle_integrations_by_status_def handle_all_agents_def
            handle_all_workspaces_def handle_workspaces_by_plan_def
            handle_errors_by_source_def handle_agent_runs_status_def
            handle_billing_by_workspace_def)
  qed
qed

lemma matched_handler_result:
  assumes "(p, h) \<in> set patterns" and "re_search p q = Some m"
  shows "(\<exists>r. h m q' = Inr r) \<or> h m q' = Inl ValueError"
proof -
  from assms(1) consider
      "p = pat_top_errors" "h = handle_top_errors"
    | "p = pat_errors_timeframe" "h = handle_errors_timeframe"
    | "p = pat_failed_tests" "h = handle_failed_tests"
    | "(p, h) \<in> set (drop 3 patterns)"
    by (subst (asm) patterns_first_three) auto
  then show ?thesis
  proof cases
    case 1
    with rule_top_errors[of q m q'] assms(2) show ?thesis by (metis (full_types))
  next
    case 2
    with rule_errors_timeframe[of q m q'] assms(2) show ?thesis by (metis (full_types))
  next
    case 3
    with rule_failed_tests[of q m q'] assms(2) show ?thesis by (metis (full_types))
  next
    case 4
    from untimed_handler_returns[OF this assms(2)] show ?thesis by blast
  qed
qed

lemma time_window_unit:
  assumes "cap_prop time_unit_re u" "set u \<subseteq> set (py_strip (py_lower q))"
  shows "u \<in> {''hour'', ''day'', ''week'', ''month''}"
  using time_unit_exact[OF assms(1) normalized_lower[OF assms(2)]] .

section \<open>The generated queries are read-only\<close>

lemma py_upper_append: "py_upper (a @ b) = py_upper a @ py_upper b"
  by (simp add: py_upper_def)

lemma upper_char_nonempty: "upper_char c \<noteq> []"
  by (simp add: upper_char_def Let_def)

lemma py_upper_Nil_iff: "py_upper s = [] \<longleftrightarrow> s = []"
  by (cases s) (simp_all add: py_upper_def upper_char_nonempty)

lemma hd_py_upper_append: "a \<noteq> [] \<Longrightarrow> hd (py_upper (a @ b)) = hd (py_upper a)"
  by (simp add: py_upper_append py_upper_Nil_iff)

lemma forbidden_chars: "kw \<in> set forbidden_keywords \<Longrightarrow> c \<in> set kw \<Longrightarrow> kw_char c"
  by (auto simp: kw_char_def)

lemma sublist_straddle:
  assumes "sublist kw (x @ y)" "\<not> sublist kw x" "\<not> sublist kw y"
  shows "x \<noteq> [] \<and> y \<noteq> [] \<and> last x \<in> set kw \<and> hd y \<in> set kw"
proof -
  from assms obtain k1 k2 where k: "kw = k1 @ k2" "suffix k1 x" "prefix k2 y"
    by (auto simp: sublist_append)
  from k assms(3) have k1: "k1 \<noteq> []" by auto
  from k assms(2) have k2: "k2 \<noteq> []" by auto
  from k(2) k1 have "x \<noteq> []" "last x = last k1" by (auto simp: suffix_def)
  moreover from k(3) k2 have "y \<noteq> []" "hd y = hd k2" by (auto simp: prefix_def)
  ultimately show ?thesis using k(1) k1 k2 by auto
qed

lemma kw_free_append:
  assumes "kw_free a" "kw_free b" "rclosed a \<or> lclosed b"
  shows "kw_free (a @ b)"
proof -
  have "\<not> sublist kw (py_upper (a @ b))" if kw: "kw \<in> set forbidden_keywords" for kw
  proof
    assume s: "sublist kw (py_upper (a @ b))"
    from assms(1,2) kw have n: "\<not> sublist kw (py_upper a)" "\<not> sublist kw (py_upper b)"
      by (auto simp: kw_free_def list_all_iff)
    from sublist_straddle[OF s[unfolded py_upper_append] n]
    have "kw_char (last (py_upper a))" "kw_char (hd (py_upper b))"
      using forbidden_chars[OF kw] by auto
    with assms(3) show False by (auto simp: rclosed_def lclosed_def)
  qed
  with assms(1,2) show ?thesis by (auto simp: kw_free_def list_all_iff)
qed

lemma lclosed_append: "lclosed a \<Longrightarrow> lclosed (a @ b)"
  by (simp add: lclosed_def hd_py_upper_append)

lemma joinable_kw_free: "joinable ps \<Longrightarrow> ps \<noteq> [] \<Longrightarrow> kw_free (concat ps)"
proof (induction ps rule: joinable.induct)
  case (3 p p' ps)
  then have "kw_free (concat (p' # ps))" by simp
  moreover from 3 have "rclosed p \<or> lclosed (concat (p' # ps))"
    by (auto intro: lclosed_append)
  ultimately show ?case using 3 by (simp add: kw_free_append del: concat.simps(2)) (simp add: kw_free_append)
qed simp_all

lemma py_upper_sublist: "sublist a b \<Longrightarrow> sublist (py_upper a) (py_upper b)"
  unfolding sublist_def by (metis py_upper_append)

lemma kw_free_sublist:
  assumes "sublist a b" "kw_free b"
  shows "kw_free a"
proof -
  from assms(1) have "set a \<subseteq> set b" by (rule set_mono_sublist)
  moreover have "\<not> sublist kw (py_upper a)" if "kw \<in> set forbidden_keywords" for kw
    using that assms(2) py_upper_sublist[OF assms(1)]
    by (auto simp: kw_free_def list_all_iff dest: sublist_order.order.trans)
  ultimately show ?thesis using assms(2) by (auto simp: kw_free_def list_all_iff)
qed

lemma sublist_py_strip: "sublist (py_strip s) s"
proof -
  have "prefix (rev (dropWhile py_isspace (rev x))) x" for x :: string
    by (metis prefix_def rev_append rev_rev_ident takeWhile_dropWhile_id)
  then have "prefix (py_strip s) (dropWhile py_isspace s)" by (simp add: py_strip_def)
  moreover have "suffix (dropWhile py_isspace s) s" by (rule suffix_dropWhile)
  ultimately show ?thesis by (meson prefix_imp_sublist suffix_imp_sublist sublist_order.order.trans)
qed

lemma has_token_sublist: "has_token kw s \<Longrightarrow> sublist kw s"
  by (auto simp: has_token_def sublist_def)

lemma strip_keeps_prefix:
  assumes "a \<noteq> []" "\<not> py_isspace (hd a)" "\<not> py_isspace (last a)"
  shows "\<exists>r. py_strip (a @ rest) = a @ r"
proof -
  from assms(1,2) have d: "dropWhile py_isspace (a @ rest) = a @ rest" by (cases a) auto
  from assms(1,3) have "dropWhile py_isspace (rev a) = rev a"
    by (cases "rev a") (auto simp: hd_rev)
  then have "\<exists>z. dropWhile py_isspace (rev rest @ rev a) = z @ rev a"
    by (auto simp: dropWhile_append)
  then obtain z where "dropWhile py_isspace (rev rest @ rev a) = z @ rev a" by blast
  with d have "py_strip (a @ rest) = a @ rev z" by (simp add: py_strip_def)
  then show ?thesis by blast
qed

lemma starts_select:
  assumes "startswith sql ''SELECT''"
  shows "startswith (py_upper (py_strip sql)) ''SELECT''"
proof -
  from assms obtain rest where "sql = ''SELECT'' @ rest"
    by (auto simp: startswith_prefix prefix_def)
  moreover have "\<exists>r. py_strip (''SELECT'' @ rest) = ''SELECT'' @ r"
    by (rule strip_keeps_prefix) (simp_all add: py_isspace_def)
  ultimately obtain r where r: "py_strip sql = ''SELECT'' @ r" by auto
  have u: "py_upper ''SELECT'' = ''SELECT''" by code_simp
  have "prefix ''SELECT'' (py_upper (''SELECT'' @ r))"
    unfolding py_upper_append u by (rule prefixI) (rule refl)
  then show ?thesis unfolding startswith_prefix r .
qed

lemma inert_kw_free:
  assumes "\<forall>c \<in> set (py_upper s). \<not> kw_char c" "CHR '';'' \<notin> set s"
  shows "kw_free s"
proof -
  have "\<not> sublist kw (py_upper s)" if kw: "kw \<in> set forbidden_keywords" for kw
  proof
    assume "sublist kw (py_upper s)"
    then have "set kw \<subseteq> set (py_upper s)" by (rule set_mono_sublist)
    moreover from kw have "kw \<noteq> []" by (auto simp: forbidden_keywords_def)
    ultimately have "hd kw \<in> set (py_upper s)" "hd kw \<in> set kw" by auto
    with assms(1) forbidden_chars[OF kw] show False by blast
  qed
  with assms(2) show ?thesis by (auto simp: kw_free_def list_all_iff)
qed

lemma upper_char_digit: "py_isdecimal c \<Longrightarrow> upper_char c = [c]"
  by (auto simp: py_isdecimal_def upper_char_def Let_def)

lemma py_upper_digits: "list_all py_isdecimal n \<Longrightarrow> py_upper n = n"
  by (induction n) (auto simp: py_upper_def upper_char_digit)

lemma digit_not_kw_char: "py_isdecimal c \<Longrightarrow> \<not> kw_char c \<and> c \<noteq> CHR '';''"
  by (auto simp: kw_char_def forbidden_keywords_def py_isdecimal_def)

lemma digits_joinable:
  assumes "n \<noteq> []" "list_all py_isdecimal n"
  shows "kw_free n" "rclosed n" "lclosed n"
proof -
  from assms(2) have a: "\<forall>c \<in> set n. \<not> kw_char c \<and> c \<noteq> CHR '';''"
    by (auto simp: list_all_iff digit_not_kw_char)
  with assms(2) show "kw_free n" by (intro inert_kw_free) (auto simp: py_upper_digits)
  from a assms show "rclosed n" "lclosed n"
    by (auto simp: rclosed_def lclosed_def py_upper_digits hd_in_set)
qed

lemma kw_free_top_errors:
  assumes "kw_free time_filter" "limit \<noteq> []" "list_all py_isdecimal limit"
  shows "kw_free (query_top_errors time_filter limit)"
proof -
  have st:
    "kw_free ''SELECT code, message, source, COUNT(*) as error_count \<newline>''"
    "kw_free ''        FROM errors \<newline>''"
    "kw_free ''        WHERE created_at >= ''"
    "kw_free ''\<newline>''"
    "kw_free ''        GROUP BY code, message, source \<newline>''"
    "kw_free ''        ORDER BY error_count DESC \<newline>''"
    "kw_free ''        LIMIT ''"
    "rclosed ''SELECT code, message, source, COUNT(*) as error_count \<newline>''"
    "rclosed ''        FROM errors \<newline>''"
    "rclosed ''        WHERE created_at >= ''"
    "lclosed ''\<newline>''"
    "rclosed ''\<newline>''"
    "rclosed ''        GROUP BY code, message, source \<newline>''"
    "rclosed ''        ORDER BY error_count DESC \<newline>''"
    "rclosed ''        LIMIT ''"
    by code_simp+
  have "joinable
     [''SELECT code, message, source, COUNT(*) as error_count \<newline>'',
      ''        FROM errors \<newline>'', ''        WHERE created_at >= '',
      time_filter, ''\<newline>'',
      ''        GROUP BY code, message, source \<newline>'',
      ''        ORDER BY error_count DESC \<newline>'', ''        LIMIT '', limit]"
    using assms digits_joinable[of limit] by (simp add: st)
  from joinable_kw_free[OF this] show ?thesis by (simp add: query_top_errors_def)
qed

lemma kw_free_errors_timeframe:
  assumes "kw_free time_filter"
  shows "kw_free (query_errors_timeframe time_filter)"
proof -
  have st:
    "kw_free ''SELECT * \<newline>''"
    "kw_free ''        FROM errors \<newline>''"
    "kw_free ''        WHERE created_at >= ''"
    "kw_free ''\<newline>''"
    "kw_free ''        ORDER BY created_at DESC''"
    "rclosed ''SELECT * \<newline>''"
    "rclosed ''        FROM errors \<newline>''"
    "rclosed ''        WHERE created_at >= ''"
    "lclosed ''\<newline>''"
    "rclosed ''\<newline>''"
    by code_simp+
  have "joinable
     [''SELECT * \<newline>'', ''        FROM errors \<newline>'',
      ''        WHERE created_at >= '', time_filter, ''\<newline>'',
      ''        ORDER BY created_at DESC'']"
    using assms by (simp add: st)
  from joinable_kw_free[OF this] show ?thesis by (simp add: query_errors_timeframe_def)
qed

lemma kw_free_failed_tests:
  assumes "kw_free time_filter"
  shows "kw_free (query_failed_tests time_filter)"
proof -
  have st:
    "kw_free ''SELECT tr.*, a.name as agent_name \<newline>''"
    "kw_free ''        FROM test_runs tr \<newline>''"
    "kw_free ''        JOIN agents a ON tr.agent_id = a.id \<newline>''"
    "kw_free ''        WHERE tr.result = ''"
    "kw_free [CHR 0x27]"
    "kw_free ''fail''"
    "kw_free '' \<newline>''"
    "kw_free ''        AND tr.created_at >= ''"
    "kw_free ''\<newline>''"
    "kw_free ''        ORDER BY tr.created_at DESC''"
    "rclosed ''SELECT tr.*, a.name as agent_name \<newline>''"
    "rclosed ''        FROM test_runs tr \<newline>''"
    "rclosed ''        JOIN agents a ON tr.agent_id = a.id \<newline>''"
    "rclosed ''        WHERE tr.result = ''"
    "rclosed [CHR 0x27]"
    "lclosed [CHR 0x27]"
    "rclosed '' \<newline>''"
    "rclosed ''        AND tr.created_at >= ''"
    "lclosed ''\<newline>''"
    "rclosed ''\<newline>''"
    by code_simp+
  have "joinable
     [''SELECT tr.*, a.name as agent_name \<newline>'',
      ''        FROM test_runs tr \<newline>'',
      ''        JOIN agents a ON tr.agent_id = a.id \<newline>'',
      ''        WHERE tr.result = '', [CHR 0x27], ''fail'', [CHR 0x27],
      '' \<newline>'', ''        AND tr.created_at >= '', time_filter, ''\<newline>'',
      ''        ORDER BY tr.created_at DESC'']"
    using assms by (simp add: st)
  from joinable_kw_free[OF this] show ?thesis by (simp add: query_failed_tests_def)
qed

lemma kw_free_successful_tests: "kw_free query_successful_tests"
proof -
  have "joinable
     [''SELECT tr.*, a.name as agent_name \<newline>'',
      ''        FROM test_runs tr \<newline>'',
      ''        JOIN agents a ON tr.agent_id = a.id \<newline>'',
      ''        WHERE tr.result = '', [CHR 0x27], ''pass'', [CHR 0x27],
      '' \<newline>'', ''        ORDER BY tr.created_at DESC'']"
    by code_simp
  from joinable_kw_free[OF this] show ?thesis by (simp add: query_successful_tests_def)
qed

lemma kw_free_inactive_integrations: "kw_free query_inactive_integrations"
proof -
  have "joinable
     [''SELECT i.*, w.name as workspace_name \<newline>'',
      ''        FROM integrations i \<newline>'',
      ''        JOIN workspaces w ON i.workspace_id = w.id \<newline>'',
      ''        WHERE i.status = '', [CHR 0x27], ''inactive'', [CHR 0x27],
      ''\<newline>'', ''        ORDER BY i.created_at DESC'']"
    by code_simp
  from joinable_kw_free[OF this] show ?thesis by (simp add: query_inactive_integrations_def)
qed

lemma kw_free_integrations_by_status: "kw_free query_integrations_by_status"
proof -
  have "joinable
     [''SELECT type, status, COUNT(*) as count \<newline>'',
      ''        FROM integrations \<newline>'',
      ''        GROUP BY type, status \<newline>'', ''        ORDER BY type, status'']"
    by code_simp
  from joinable_kw_free[OF this] show ?thesis by (simp add: query_integrations_by_status_def)
qed

lemma kw_free_agents_by_language:
  assumes "kw_free language_code"
  shows "kw_free (query_agents_by_language language_code)"
proof -
  have st:
    "kw_free ''SELECT a.*, w.name as workspace_name \<newline>''"
    "kw_free ''        FROM agents a \<newline>''"
    "kw_free ''        JOIN workspaces w ON a.workspace_id = w.id \<newline>''"
    "kw_free ''        WHERE a.language = ''"
    "kw_free [CHR 0x27]"
    "kw_free ''\<newline>''"
    "kw_free ''        ORDER BY a.created_at DESC''"
    "rclosed ''SELECT a.*, w.name as workspace_name \<newline>''"
    "rclosed ''        FROM agents a \<newline>''"
    "rclosed ''        JOIN workspaces w ON a.workspace_id = w.id \<newline>''"
    "rclosed ''        WHERE a.language = ''"
    "rclosed [CHR 0x27]"
    "lclosed [CHR 0x27]"
    "rclosed ''\<newline>''"
    by code_simp+
  have "joinable
     [''SELECT a.*, w.name as workspace_name \<newline>'',
      ''        FROM agents a \<newline>'',
      ''        JOIN workspaces w ON a.workspace_id = w.id \<newline>'',
      ''        WHERE a.language = '', [CHR 0x27], language_code, [CHR 0x27],
      ''\<newline>'', ''        ORDER BY a.created_at DESC'']"
    using assms by (simp add: st)
  from joinable_kw_free[OF this] show ?thesis by (simp add: query_agents_by_language_def)
qed

lemma kw_free_all_agents: "kw_free query_all_agents"
proof -
  have "joinable
     [''SELECT a.*, w.name as workspace_name \<newline>'',
      ''        FROM agents a \<newline>'',
      ''        JOIN workspaces w ON a.workspace_id = w.id \<newline>'',
      ''        ORDER BY a.created_at DESC'']"
    by code_simp
  from joinable_kw_free[OF this] show ?thesis by (simp add: query_all_agents_def)
qed

lemma kw_free_all_workspaces: "kw_free query_all_workspaces"
proof -
  have "joinable
     [''SELECT * \<newline>'', ''        FROM workspaces \<newline>'',
      ''        ORDER BY created_at DESC'']"
    by code_simp
  from joinable_kw_free[OF this] show ?thesis by (simp add: query_all_workspaces_def)
qed

lemma kw_free_workspaces_by_plan: "kw_free query_workspaces_by_plan"
proof -
  have "joinable
     [''SELECT plan, COUNT(*) as count \<newline>'',
      ''        FROM workspaces \<newline>'', ''        GROUP BY plan \<newline>'',
      ''        ORDER BY count DESC'']"
    by code_simp
  from joinable_kw_free[OF this] show ?thesis by (simp add: query_workspaces_by_plan_def)
qed

lemma kw_free_errors_by_source: "kw_free query_errors_by_source"
proof -
  have "joinable
     [''SELECT source, COUNT(*) as count \<newline>'',
      ''        FROM errors \<newline>'', ''        GROUP BY source \<newline>'',
      ''        ORDER BY count DESC'']"
    by code_simp
  from joinable_kw_free[OF this] show ?thesis by (simp add: query_errors_by_source_def)
qed

lemma kw_free_agent_runs_status: "kw_free query_agent_runs_status"
proof -
  have "joinable
     [''SELECT a.name as agent_name, ar.status, COUNT(*) as count \<newline>'',
      ''        FROM agent_runs ar \<newline>'',
      ''        JOIN agents a ON ar.agent_id = a.id \<newline>'',
      ''        GROUP BY a.name, ar.status \<newline>'',
      ''        ORDER BY a.name, ar.status'']"
    by code_simp
  from joinable_kw_free[OF this] show ?thesis by (simp add: query_agent_runs_status_def)
qed

lemma kw_free_billing_by_workspace: "kw_free query_billing_by_workspace"
proof -
  have "joinable
     [''SELECT w.name as workspace_name, \<newline>'',
      ''               SUM(b.total_cost_usd) as total_cost, \<newline>'',
      ''               SUM(b.tokens_used) as total_tokens,\<newline>'',
      ''               SUM(b.calls_made) as total_calls\<newline>'',
      ''        FROM billing_usage b \<newline>'',
      ''        JOIN workspaces w ON b.workspace_id = w.id \<newline>'',
      ''        GROUP BY w.id, w.name \<newline>'',
      ''        ORDER BY total_cost DESC'']"
    by code_simp
  from joinable_kw_free[OF this] show ?thesis by (simp add: query_billing_by_workspace_def)
qed

lemma kw_free_top_usage:
  assumes "limit \<noteq> []" "list_all py_isdecimal limit"
  shows "kw_free (query_top_usage limit)"
proof -
  have st:
    "kw_free ''SELECT a.name as agent_name, \<newline>''"
    "kw_free ''               SUM(b.tokens_used) as total_tokens,\<newline>''"
    "kw_free ''               SUM(b.total_cost_usd) as total_cost\<newline>''"
    "kw_free ''        FROM billing_usage b \<newline>''"
    "kw_free ''        JOIN agents a ON b.agent_id = a.id \<newline>''"
    "kw_free ''        GROUP BY a.name \<newline>''"
    "kw_free ''        ORDER BY total_tokens DESC \<newline>''"
    "kw_free ''        LIMIT ''"
    "rclosed ''SELECT a.name as agent_name, \<newline>''"
    "rclosed ''               SUM(b.tokens_used) as total_tokens,\<newline>''"
    "rclosed ''               SUM(b.total_cost_usd) as total_cost\<newline>''"
    "rclosed ''        FROM billing_usage b \<newline>''"
    "rclosed ''        JOIN agents a ON b.agent_id = a.id \<newline>''"
    "rclosed ''        GROUP BY a.name \<newline>''"
    "rclosed ''        ORDER BY total_tokens DESC \<newline>''"
    "rclosed ''        LIMIT ''"
    by code_simp+
  have "joinable
     [''SELECT a.name as agent_name, \<newline>'',
      ''               SUM(b.tokens_used) as total_tokens,\<newline>'',
      ''               SUM(b.total_cost_usd) as total_cost\<newline>'',
      ''        FROM billing_usage b \<newline>'',
      ''        JOIN agents a ON b.agent_id = a.id \<newline>'',
      ''        GROUP BY a.name \<newline>'',
      ''        ORDER BY total_tokens DESC \<newline>'', ''        LIMIT '', limit]"
    using assms digits_joinable[of limit] by (simp add: st)
  from joinable_kw_free[OF this] show ?thesis by (simp add: query_top_usage_def)
qed

lemma kw_free_time_filter:
  assumes "0 \<le> N" "unit \<in> {''hours'', ''days''}"
  shows "kw_free (time_filter_text N unit)"
proof -
  have st: "kw_free ''datetime('now', '-''" "rclosed ''datetime('now', '-''"
    "kw_free '' ''" "rclosed '' ''" "kw_free [CHR 0x27]" "lclosed [CHR 0x27]" "rclosed [CHR 0x27]"
    "kw_free '')''" "kw_free ''hours''" "kw_free ''days''"
    by code_simp+
  from assms(1) have "int_decimal N = nat_str (nat N)" by (simp add: int_decimal_def)
  with nat_str_digits[of "nat N"] have d: "int_decimal N \<noteq> []" "list_all py_isdecimal (int_decimal N)"
    by simp_all
  have "joinable [''datetime('now', '-'', int_decimal N, '' '', unit, [CHR 0x27], '')'']"
    using assms(2) digits_joinable[OF d] by (auto simp: st)
  from joinable_kw_free[OF this] show ?thesis by (simp add: time_filter_text_def)
qed

lemma length_upper_char: "length (upper_char c) \<le> 2"
  by (simp add: upper_char_def Let_def)

lemma upper_char_two: "length (upper_char c) = 2 \<Longrightarrow> upper_char c = ''SS''"
  by (simp add: upper_char_def Let_def split: if_splits)

lemma short_kw_free:
  assumes "length s \<le> 2" "CHR '';'' \<notin> set s"
  shows "kw_free s"
proof -
  have "\<not> sublist kw (py_upper s)" if kw: "kw \<in> set forbidden_keywords" for kw
  proof
    assume sub: "sublist kw (py_upper s)"
    have len: "length (py_upper s) \<le> 4"
    proof (cases s)
      case Nil
      then show ?thesis by (simp add: py_upper_def)
    next
      case (Cons a t)
      with assms(1) length_upper_char[of a] show ?thesis
      proof (cases t)
        case Nil
        with Cons length_upper_char[of a] show ?thesis by (simp add: py_upper_def)
      next
        case (Cons b t')
        with \<open>s = a # t\<close> assms(1) length_upper_char[of a] length_upper_char[of b]
        show ?thesis by (simp add: py_upper_def)
      qed
    qed
    from sub have "length kw \<le> length (py_upper s)" by (rule sublist_length_le)
    with len kw have k: "kw = ''DROP''" by (auto simp: forbidden_keywords_def)
    from sub obtain ps ss where e: "py_upper s = ps @ kw @ ss" by (auto simp: sublist_def)
    with len k have "ps = [] \<and> ss = []" by (cases ps; cases ss) auto
    with e k have u: "py_upper s = ''DROP''" by simp
    then obtain a b where s: "s = [a, b]" "length (upper_char a) = 2"
    proof (cases s)
      case Nil
      with u show ?thesis by (simp add: py_upper_def)
    next
      case (Cons a t)
      show ?thesis
      proof (cases t)
        case Nil
        with Cons u length_upper_char[of a] show ?thesis
          by (auto simp: py_upper_def dest!: arg_cong[where f = length])
      next
        case (Cons b t')
        with \<open>s = a # t\<close> assms(1) have s: "s = [a, b]" by simp
        with u have "length (upper_char a) + length (upper_char b) = 4"
          by (auto simp: py_upper_def dest!: arg_cong[where f = length])
        with length_upper_char[of a] length_upper_char[of b] have "length (upper_char a) = 2"
          by simp
        with s that show ?thesis by blast
      qed
    qed
    from upper_char_two[OF s(2)] s(1) u show False by (simp add: py_upper_def)
  qed
  with assms(2) show ?thesis by (auto simp: kw_free_def list_all_iff)
qed

lemma lower_char_isword: "py_isword c \<Longrightarrow> py_isword (lower_char c)"
proof (cases c)
  case (Char b0 b1 b2 b3 b4 b5 b6 b7)
  assume "py_isword c"
  with Char show ?thesis
    by (cases b0; cases b1; cases b2; cases b3; cases b4; cases b5; cases b6; cases b7;
        simp add: py_isword_def py_isalnum_Char lower_char_Char)
qed

lemma isword_not_special: "py_isword c \<Longrightarrow> c \<noteq> CHR '';'' \<and> c \<noteq> CHR 0x27"
  by (auto simp: py_isword_def py_isalnum_def)

lemma languages_codes: "list_all (\<lambda>c. kw_free c \<and> list_all py_isword c) (map snd languages)"
  by code_simp

lemma lang_code_cases:
  "lang_code name \<in> set (map snd languages) \<or> lang_code name = take 2 name"
proof (cases "name \<in> set (map fst languages)")
  case True
  then obtain c where "map_of languages name = Some c"
    by (metis map_of_eq_None_iff not_Some_eq set_map)
  with True show ?thesis by (auto simp: lang_code_def dest: map_of_SomeD intro: rev_image_eqI)
next
  case False
  then show ?thesis by (simp add: lang_code_def)
qed

lemma lang_code_word:
  assumes "list_all py_isword g"
  shows "list_all py_isword (lang_code (py_lower g)) \<and> kw_free (lang_code (py_lower g))"
proof -
  from assms have w: "list_all py_isword (py_lower g)"
    by (induction g) (auto simp: py_lower_def lower_char_isword)
  from lang_code_cases[of "py_lower g"] show ?thesis
  proof
    assume "lang_code (py_lower g) \<in> set (map snd languages)"
    with languages_codes show ?thesis by (auto simp: list_all_iff)
  next
    assume e: "lang_code (py_lower g) = take 2 (py_lower g)"
    from w have t: "list_all py_isword (take 2 (py_lower g))"
      by (auto simp: list_all_iff dest: in_set_takeD)
    then have "CHR '';'' \<notin> set (take 2 (py_lower g))"
      by (auto simp: list_all_iff dest: isword_not_special)
    with e t show ?thesis by (simp add: short_kw_free)
  qed
qed

lemma kw_free_tables:
  "list_all (\<lambda>t. kw_free (''SELECT COUNT(*) as count FROM '' @ t) \<and>
                 kw_free (''SELECT * FROM '' @ t @ '' LIMIT 100'')) table_names"
  by code_simp

lemma rule_generated:
  assumes "(p, h) \<in> set patterns" and s: "re_search p q = Some m"
    and r: "h m q' = Inr (Some sql, e)"
  shows "generated sql"
proof -
  from assms(1) consider
      "p = pat_top_errors" "h = handle_top_errors"
    | "p = pat_errors_timeframe" "h = handle_errors_timeframe"
    | "p = pat_failed_tests" "h = handle_failed_tests"
    | "p = pat_agents_by_language" "h = handle_agents_by_language"
    | "p = pat_count" "h = handle_count"
    | "p = pat_top_usage" "h = handle_top_usage"
    | "h \<in> {handle_successful_tests, handle_inactive_integrations,
         handle_integrations_by_status, handle_all_agents, handle_all_workspaces,
         handle_workspaces_by_plan, handle_errors_by_source, handle_agent_runs_status,
         handle_billing_by_workspace}"
    by (auto simp: patterns_def)
  then show ?thesis
  proof cases
    case 1
    with rule_top_errors[of q m q'] s r obtain n v u where
      n: "cap_prop (Plus Digit) n" and
      sql: "sql = query_top_errors (time_filter_text (window v (Some u))
                        (dict_get unit_map (Some u) ''days'')) n"
      by (auto split: if_splits)
    from n have "is_digits n" by (simp add: is_digits_def in_cls_Digit)
    then show ?thesis
      unfolding sql using window_nonneg[of v "Some u"] unit_map_cases[of "Some u"]
      by (rule generated.top_errors)
  next
    case 2
    with rule_errors_timeframe[of q m q'] s r obtain v u where
      sql: "sql = query_errors_timeframe (time_filter_text (window v (Some u))
                        (dict_get unit_map (Some u) ''days''))"
      by (auto split: if_splits)
    from window_nonneg[of v "Some u"] show ?thesis
      unfolding sql using unit_map_cases[of "Some u"] by (rule generated.errors_timeframe)
  next
    case 3
    with rule_failed_tests[of q m q'] s r obtain v u where
      sql: "sql = query_failed_tests (time_filter_text (window v (Some u))
                        (dict_get unit_map (Some u) ''days''))"
      by (auto split: if_splits)
    from window_nonneg[of v "Some u"] show ?thesis
      unfolding sql using unit_map_cases[of "Some u"] by (rule generated.failed_tests)
  next
    case 4
    with rule_agents_by_language[of q m q'] s r obtain g where
      g: "cap_prop (Plus Word) g" and
      sql: "sql = query_agents_by_language
                    (dict_get languages (Some (py_lower g)) (take 2 (py_lower g)))"
      by auto
    from g have "g \<noteq> []" "list_all py_isword g" by (simp_all add: in_cls_Word)
    then show ?thesis
      unfolding sql lang_code_dict_get by (rule generated.agents_by_language)
  next
    case 5
    with rule_count[of q m q'] s r obtain t where
      "t \<in> set table_names" and sql: "sql = ''SELECT COUNT(*) as count FROM '' @ t"
      by auto
    then show ?thesis unfolding sql by (intro generated.count)
  next
    case 6
    with rule_top_usage[of q m q'] s r obtain n where
      n: "cap_prop (Plus Digit) n" and sql: "sql = query_top_usage n"
      by auto
    from n have "is_digits n" by (simp add: is_digits_def in_cls_Digit)
    then show ?thesis unfolding sql by (rule generated.top_usage)
  next
    case 7
    with r have "sql \<in> set static_queries"
      by (elim insertE emptyE)
         (simp_all add: handle_successful_tests_def handle_inactive_integrations_def
            handle_integrations_by_status_def handle_all_agents_def
            handle_all_workspaces_def handle_workspaces_by_plan_def
            handle_errors_by_source_def handle_agent_runs_status_def
            handle_billing_by_workspace_def static_queries_def
            strip_successful_tests strip_inactive_integrations strip_integrations_by_status
            strip_all_agents strip_all_workspaces strip_workspaces_by_plan
            strip_errors_by_source strip_agent_runs_status strip_billing_by_workspace)
    then show ?thesis by (rule generated.static)
  qed
qed

lemma fallback_generated:
  assumes "keyword_based_query q = Inr (Some sql, e)"
  shows "generated sql"
proof -
  let ?P = "\<lambda>table_name. contains q (py_replace (CHR ''_'') (CHR '' '') table_name) \<or>
                    contains q table_name"
  from assms obtain t where f: "find ?P table_names = Some t" and
    sql: "sql = ''SELECT * FROM '' @ t @ '' LIMIT 100''"
    by (auto simp: keyword_based_query_def Let_def split: option.splits if_splits)
  from find_in_set[OF f] have "t \<in> set table_names" by simp
  then show ?thesis unfolding sql by (rule generated.fallback)
qed

lemma parse_question_generated:
  assumes "parse_question q = Inr (Some sql, e)"
  shows "generated sql"
proof -
  let ?q = "py_strip (py_lower q)"
  from dispatch_cases[of patterns ?q] show ?thesis
  proof
    assume "dispatch patterns ?q = keyword_based_query ?q"
    with assms show ?thesis by (auto simp: parse_question_def intro: fallback_generated)
  next
    assume "\<exists>p h m r. (p, h) \<in> set patterns \<and> re_search p ?q = Some m \<and> h m ?q = Inr r \<and>
         dispatch patterns ?q = Inr r"
    with assms obtain p h m where "(p, h) \<in> set patterns" "re_search p ?q = Some m"
      "h m ?q = Inr (Some sql, e)" by (auto simp: parse_question_def)
    then show ?thesis by (rule rule_generated)
  qed
qed

lemma static_queries_safe:
  "list_all (\<lambda>s. startswith s ''SELECT'') static_queries"
  by code_simp

lemma static_queries_kw_free: "s \<in> set static_queries \<Longrightarrow> kw_free s"
  by (auto simp: static_queries_def kw_free_successful_tests kw_free_inactive_integrations
      kw_free_integrations_by_status kw_free_all_agents kw_free_all_workspaces
      kw_free_workspaces_by_plan kw_free_errors_by_source kw_free_agent_runs_status
      kw_free_billing_by_workspace)

lemma table_queries_safe:
  "list_all (\<lambda>t. startswith (''SELECT COUNT(*) as count FROM '' @ t) ''SELECT'' \<and>
                 startswith (''SELECT * FROM '' @ t @ '' LIMIT 100'') ''SELECT'') table_names"
  by code_simp

lemma generated_safe:
  assumes "generated sql"
  shows "startswith sql ''SELECT'' \<and> kw_free sql"
  using assms
proof cases
  case static
  with static_queries_safe static_queries_kw_free show ?thesis by (auto simp: list_all_iff)
next
  case (top_errors n N unit)
  from top_errors(2-4) have "kw_free sql"
    unfolding top_errors(1)
    by (intro kw_free_top_errors kw_free_time_filter) (simp_all add: is_digits_def)
  moreover have "startswith sql ''SELECT''"
    unfolding top_errors(1) by (simp add: query_top_errors_def)
  ultimately show ?thesis by simp
next
  case (errors_timeframe N unit)
  from errors_timeframe(2,3) have "kw_free sql"
    unfolding errors_timeframe(1)
    by (intro kw_free_errors_timeframe kw_free_time_filter)
  moreover have "startswith sql ''SELECT''"
    unfolding errors_timeframe(1) by (simp add: query_errors_timeframe_def)
  ultimately show ?thesis by simp
next
  case (failed_tests N unit)
  from failed_tests(2,3) have "kw_free sql"
    unfolding failed_tests(1)
    by (intro kw_free_failed_tests kw_free_time_filter)
  moreover have "startswith sql ''SELECT''"
    unfolding failed_tests(1) by (simp add: query_failed_tests_def)
  ultimately show ?thesis by simp
next
  case (top_usage n)
  from top_usage(2) have "kw_free sql"
    unfolding top_usage(1) by (intro kw_free_top_usage) (simp_all add: is_digits_def)
  moreover have "startswith sql ''SELECT''"
    unfolding top_usage(1) by (simp add: query_top_usage_def)
  ultimately show ?thesis by simp
next
  case (agents_by_language g)
  from lang_code_word[OF agents_by_language(3)] have "kw_free sql"
    unfolding agents_by_language(1) by (intro kw_free_agents_by_language) simp
  moreover have "startswith sql ''SELECT''"
    unfolding agents_by_language(1) by (simp add: query_agents_by_language_def)
  ultimately show ?thesis by simp
next
  case (count t)
  with kw_free_tables table_queries_safe show ?thesis by (simp add: list_all_iff)
next
  case (fallback t)
  with kw_free_tables table_queries_safe show ?thesis by (simp add: list_all_iff)
qed

lemma upper_char_semicolon: "CHR '';'' \<in> set (upper_char c) \<Longrightarrow> c = CHR '';''"
proof (cases c)
  case (Char b0 b1 b2 b3 b4 b5 b6 b7)
  assume "CHR '';'' \<in> set (upper_char c)"
  with Char show ?thesis
    by (cases b0; cases b1; cases b2; cases b3; cases b4; cases b5; cases b6; cases b7;
        simp add: upper_char_Char)
qed

lemma py_upper_semicolon: "CHR '';'' \<in> set (py_upper s) \<Longrightarrow> CHR '';'' \<in> set s"
  by (auto simp: py_upper_def dest: upper_char_semicolon)

lemma digits_are_words: "is_digits n \<Longrightarrow> list_all py_isword n"
  by (auto simp: is_digits_def list_all_iff py_isword_def py_isalnum_def py_isdecimal_def Let_def)

lemma table_names_words: "list_all (\<lambda>t. list_all py_isword t) table_names"
  by code_simp

section \<open>Questions beyond the limit of digits\<close>

text \<open>
  The two families of questions \<^const>\<open>long_both_question\<close> and \<^const>\<open>long_top_question\<close>
  are evaluated for every length of the run of ones: the matcher is unfolded on the text
  before and after the run, and steps over the run itself.
\<close>

lemma lit_match_Nil: "lit_match [] s"
  by (simp add: lit_match_def py_lower_def)

lemma lit_match_Cons_Nil: "\<not> lit_match (a # l) []"
  by (simp add: lit_match_def)

lemma lit_match_Cons: "lit_match (a # l) (c # s) = (lower_char a = lower_char c \<and> lit_match l s)"
  by (auto simp: lit_match_def py_lower_def)

lemma takeWhile_run: "P c \<Longrightarrow> takeWhile P (replicate k c @ ys) = replicate k c @ takeWhile P ys"
  by (induction k) simp_all

lemma rev_upt_Suc0: "rev [Suc 0..<Suc (Suc j)] = Suc j # rev [Suc 0..<Suc j]"
  by simp

lemma rev_upt_0: "rev [0..<Suc j] = j # rev [0..<j]"
  by simp

lemma re_search_run:
  "(\<And>s g. ms r (c # s, g) = []) \<Longrightarrow> re_search r (replicate k c @ rest) = re_search r rest"
  by (induction k) simp_all

lemma contains_run: "p \<noteq> c \<Longrightarrow> contains (replicate k c @ rest) (p # ps) = contains rest (p # ps)"
  by (induction k) simp_all

lemmas run_eval = lit_match_Nil lit_match_Cons_Nil lit_match_Cons takeWhile_run rev_upt_Suc0
  rev_upt_0 re_search_run contains_run py_isspace_Char py_isdecimal_Char py_isalnum_Char
  lower_char_Char py_isword_def numeral_2_eq_2 numeral_3_eq_3

lemma long_both_normal: "py_strip (py_lower (long_both_question k)) = long_both_question k"
proof -
  have "py_lower (long_both_question k) = long_both_question k"
    unfolding long_both_question_def py_lower_def by (simp add: run_eval)
  moreover have "py_strip (long_both_question k) = long_both_question k"
    by (rule py_strip_id) (simp_all add: long_both_question_def run_eval)
  ultimately show ?thesis by simp
qed

lemma long_both_top_errors:
  "re_search pat_top_errors (long_both_question k) =
   Some \<lparr>whole = ''top 5 errors in last '' @ replicate (Suc k) CHR ''1'' @ '' days'',
         subs = [Some ''5'', Some (replicate (Suc k) CHR ''1''), Some ''day'']\<rparr>"
  unfolding long_both_question_def pat_top_errors_def last_window_re_def time_unit_re_def
  by (simp add: run_eval del: upt_Suc)

lemma long_both_errors_timeframe:
  "re_search pat_errors_timeframe (long_both_question k) =
   Some \<lparr>whole = ''show errors in last 3 days'', subs = [Some ''3'', Some ''day'']\<rparr>"
  unfolding long_both_question_def pat_errors_timeframe_def last_window_re_def time_unit_re_def
  by (simp add: run_eval del: upt_Suc)

lemma ones_over_limit:
  assumes "max_str_digits \<le> k"
  shows "get_time_filter (Some (replicate (Suc k) CHR ''1'')) unit = Inl ValueError"
proof -
  have "py_isdecimal CHR ''1''" by (simp add: py_isdecimal_def)
  from over_limit_raises[OF run_digits[OF this, of "Suc k"]] assms show ?thesis by simp
qed

lemma long_both_result:
  assumes "max_str_digits \<le> k"
  shows "parse_question (long_both_question k) =
     Inr (Some (query_errors_timeframe (time_filter_text 3 ''days'')),
          Some ''Showing all errors from the last 3 day(s)'')"
proof -
  let ?q = "long_both_question k"
  have f: "get_time_filter (Some ''3'') (Some ''day'') = Inr (time_filter_text 3 ''days'')"
    by code_simp
  from ones_over_limit[OF assms]
  have "dispatch patterns ?q = dispatch (drop 1 patterns) ?q"
    unfolding dispatch_hd[OF patterns_hd long_both_top_errors]
    by (simp add: handle_top_errors_def group_def)
  also from f have "\<dots> = Inr (Some (query_errors_timeframe (time_filter_text 3 ''days'')),
          Some ''Showing all errors from the last 3 day(s)'')"
    unfolding dispatch_hd[OF patterns_drop1 long_both_errors_timeframe]
    by (simp add: handle_errors_timeframe_def group_def fmt_def strip_errors_timeframe)
  finally show ?thesis by (simp add: parse_question_def long_both_normal)
qed

lemma long_top_normal: "py_strip (py_lower (long_top_question k)) = long_top_question k"
proof -
  have "py_lower (long_top_question k) = long_top_question k"
    unfolding long_top_question_def py_lower_def by (simp add: run_eval)
  moreover have "py_strip (long_top_question k) = long_top_question k"
    by (rule py_strip_id) (simp_all add: long_top_question_def run_eval)
  ultimately show ?thesis by simp
qed

lemma long_top_top_errors:
  "re_search pat_top_errors (long_top_question k) =
   Some \<lparr>whole = long_top_question k,
         subs = [Some ''3'', Some (replicate (Suc k) CHR ''1''), Some ''week'']\<rparr>"
  unfolding long_top_question_def pat_top_errors_def last_window_re_def time_unit_re_def
  by (simp add: run_eval del: upt_Suc)

lemma long_top_errors_timeframe: "re_search pat_errors_timeframe (long_top_question k) = None"
  unfolding long_top_question_def pat_errors_timeframe_def last_window_re_def time_unit_re_def
  by (simp add: run_eval del: upt_Suc)

lemma long_top_failed_tests: "re_search pat_failed_tests (long_top_question k) = None"
  unfolding long_top_question_def pat_failed_tests_def last_window_re_def time_unit_re_def
  by (simp add: run_eval del: upt_Suc)

lemma long_top_successful_tests: "re_search pat_successful_tests (long_top_question k) = None"
  unfolding long_top_question_def pat_successful_tests_def last_window_re_def time_unit_re_def
  by (simp add: run_eval del: upt_Suc)

lemma long_top_inactive_integrations: "re_search pat_inactive_integrations (long_top_question k) = None"
  unfolding long_top_question_def pat_inactive_integrations_def last_window_re_def time_unit_re_def
  by (simp add: run_eval del: upt_Suc)

lemma long_top_integrations_by_status: "re_search pat_integrations_by_status (long_top_question k) = None"
  unfolding long_top_question_def pat_integrations_by_status_def last_window_re_def time_unit_re_def
  by (simp add: run_eval del: upt_Suc)

lemma long_top_agents_by_language: "re_search pat_agents_by_language (long_top_question k) = None"
  unfolding long_top_question_def pat_agents_by_language_def last_window_re_def time_unit_re_def
  by (simp add: run_eval del: upt_Suc)

lemma long_top_all_agents: "re_search pat_all_agents (long_top_question k) = None"
  unfolding long_top_question_def pat_all_agents_def last_window_re_def time_unit_re_def
  by (simp add: run_eval del: upt_Suc)

lemma long_top_all_workspaces: "re_search pat_all_workspaces (long_top_question k) = None"
  unfolding long_top_question_def pat_all_workspaces_def last_window_re_def time_unit_re_def
  by (simp add: run_eval del: upt_Suc)

lemma long_top_workspaces_by_plan: "re_search pat_workspaces_by_plan (long_top_question k) = None"
  unfolding long_top_question_def pat_workspaces_by_plan_def last_window_re_def time_unit_re_def
  by (simp add: run_eval del: upt_Suc)

lemma long_top_count: "re_search pat_count (long_top_question k) = None"
  unfolding long_top_question_def pat_count_def last_window_re_def time_unit_re_def
  by (simp add: run_eval del: upt_Suc)

lemma long_top_errors_by_source: "re_search pat_errors_by_source (long_top_question k) = None"
  unfolding long_top_question_def pat_errors_by_source_def last_window_re_def time_unit_re_def
  by (simp add: run_eval del: upt_Suc)

lemma long_top_agent_runs_status: "re_search pat_agent_runs_status (long_top_question k) = None"
  unfolding long_top_question_def pat_agent_runs_status_def last_window_re_def time_unit_re_def
  by (simp add: run_eval del: upt_Suc)

lemma long_top_billing_by_workspace: "re_search pat_billing_by_workspace (long_top_question k) = None"
  unfolding long_top_question_def pat_billing_by_workspace_def last_window_re_def time_unit_re_def
  by (simp add: run_eval del: upt_Suc)

lemma long_top_top_usage: "re_search pat_top_usage (long_top_question k) = None"
  unfolding long_top_question_def pat_top_usage_def last_window_re_def time_unit_re_def
  by (simp add: run_eval del: upt_Suc)

lemma long_top_fallback:
  "keyword_based_query (long_top_question k) =
     Inr (Some ''SELECT * FROM errors LIMIT 100'', Some ''Showing data from errors table'')"
  unfolding long_top_question_def keyword_based_query_def table_names_def tables_def
  by (simp add: run_eval py_replace_def)

lemma long_top_result:
  assumes "max_str_digits \<le> k"
  shows "parse_question (long_top_question k) =
     Inr (Some ''SELECT * FROM errors LIMIT 100'', Some ''Showing data from errors table'')"
proof -
  let ?q = "long_top_question k"
  from ones_over_limit[OF assms]
  have "passes ?q (pat_top_errors, handle_top_errors)"
    by (simp add: passes_def long_top_top_errors handle_top_errors_def group_def)
  then have "list_all (passes ?q) patterns"
    unfolding patterns_def
    by (simp add: passes_def long_top_errors_timeframe long_top_failed_tests long_top_successful_tests long_top_inactive_integrations long_top_integrations_by_status long_top_agents_by_language long_top_all_agents long_top_all_workspaces long_top_workspaces_by_plan long_top_count long_top_errors_by_source long_top_agent_runs_status long_top_billing_by_workspace long_top_top_usage)
  from dispatch_passes[OF this, of "[]"] show ?thesis
    by (simp add: parse_question_def long_top_normal long_top_fallback)
qed

section \<open>The claims\<close>

subsection \<open>C1: an unresolved entity of the count rule\<close>

text \<open>
  C1 says that a rule whose generator fails is treated as not matched, so that later
  rules and the keyword fallback are tried and a translation that yields no SQL always
  carries a reason. The question \<^verbatim>\<open>count of errors by source\<close> matches the count rule
  with the entity \<^verbatim>\<open>of\<close>, which no table name contains. \<^verbatim>\<open>_handle_count\<close> signals
  this by returning \<^verbatim>\<open>(None, None)\<close>, not by raising, and \<^verbatim>\<open>parse_question\<close> returns
  that pair: no SQL and no reason. Had the loop continued after the count rule, the
  rule for errors by source would have answered; the keyword fallback alone would have
  found the table \<^verbatim>\<open>errors\<close>.
\<close>

theorem count_unresolved_entity_returns_None_None:
  "parse_question ''count of errors by source'' = Inr (None, None) \<and>
   dispatch (drop 11 patterns) (py_strip (py_lower ''count of errors by source'')) =
     Inr (Some (''SELECT source, COUNT(*) as count \<newline>'' @
                ''        FROM errors \<newline>'' @
                ''        GROUP BY source \<newline>'' @
                ''        ORDER BY count DESC''),
          Some ''Grouping errors by source'') \<and>
   keyword_based_query (py_strip (py_lower ''count of errors by source'')) =
     Inr (Some ''SELECT * FROM errors LIMIT 100'', Some ''Showing data from errors table'')"
  by code_simp

subsection \<open>C5: the question \<^verbatim>\<open>How many agents\<close>\<close>

text \<open>
  C5 as stated: the SQL returned for \<^verbatim>\<open>How many agents\<close> is the string
  \<^verbatim>\<open>SELECT COUNT(*) AS count FROM agents\<close>. The handler writes the keyword \<^verbatim>\<open>as\<close> in
  lower case, so the string returned is a different one.
\<close>

theorem how_many_agents_upper_AS_counterexample:
  "returned_sql (parse_question ''How many agents'') \<noteq>
     Some ''SELECT COUNT(*) AS count FROM agents''"
  by code_simp

text \<open>
  C5 as amended: the SQL returned for \<^verbatim>\<open>How many agents\<close> is
  \<^verbatim>\<open>SELECT COUNT(*) as count FROM agents\<close>, with the explanation
  \<^verbatim>\<open>Counting total agents\<close>.
\<close>

theorem how_many_agents:
  "parse_question ''How many agents'' =
     Inr (Some ''SELECT COUNT(*) as count FROM agents'', Some ''Counting total agents'')"
  by code_simp

subsection \<open>C7: the keyword fallback\<close>

text \<open>
  C7: when no rule matches, \<^verbatim>\<open>parse_question\<close> answers with the keyword fallback on the
  normalized question. The fallback looks, in catalog order, for the first table whose
  name occurs in the question as a literal substring, with underscores or with blanks in
  their place: for the table at position \<open>i\<close>, when it occurs and none of the tables
  before it does, the result is \<^verbatim>\<open>SELECT * FROM <table> LIMIT 100\<close> with an explanation
  naming the table; when no table name occurs, the result is no SQL and the
  could-not-understand reason.
\<close>

theorem keyword_fallback:
  "(list_all (\<lambda>(p, h). re_search p (py_strip (py_lower q)) = None) patterns \<longrightarrow>
      parse_question q = keyword_based_query (py_strip (py_lower q))) \<and>
   (i < length table_names \<and> kw_hit question (table_names ! i) \<and>
    list_all (\<lambda>t. \<not> kw_hit question t) (take i table_names) \<longrightarrow>
      keyword_based_query question =
        Inr (Some (''SELECT * FROM '' @ table_names ! i @ '' LIMIT 100''),
             Some (''Showing data from '' @ table_names ! i @ '' table''))) \<and>
   (list_all (\<lambda>t. \<not> kw_hit question t) table_names \<longrightarrow>
      keyword_based_query question = Inr (None, Some could_not_understand))"
proof (intro conjI impI)
  assume "list_all (\<lambda>(p, h). re_search p (py_strip (py_lower q)) = None) patterns"
  then show "parse_question q = keyword_based_query (py_strip (py_lower q))"
    by (simp add: parse_question_def dispatch_no_match)
next
  let ?P = "\<lambda>table_name. contains question (py_replace (CHR ''_'') (CHR '' '') table_name) \<or>
                    contains question table_name"
  assume a: "i < length table_names \<and> kw_hit question (table_names ! i) \<and>
    list_all (\<lambda>t. \<not> kw_hit question t) (take i table_names)"
  have eq: "?P = kw_hit question" by (rule ext) (simp add: kw_hit_def contains_sublist)
  from a have "find (kw_hit question) table_names = Some (table_names ! i)"
    by (intro find_first) auto
  moreover from a have "table_names ! i \<noteq> []" by (intro table_names_nonempty) simp
  ultimately show "keyword_based_query question =
        Inr (Some (''SELECT * FROM '' @ table_names ! i @ '' LIMIT 100''),
             Some (''Showing data from '' @ table_names ! i @ '' table''))"
    unfolding keyword_based_query_def eq by simp
next
  let ?P = "\<lambda>table_name. contains question (py_replace (CHR ''_'') (CHR '' '') table_name) \<or>
                    contains question table_name"
  assume a: "list_all (\<lambda>t. \<not> kw_hit question t) table_names"
  have eq: "?P = kw_hit question" by (rule ext) (simp add: kw_hit_def contains_sublist)
  from a have "find (kw_hit question) table_names = None"
    by (simp add: find_None_iff list_all_iff)
  then show "keyword_based_query question = Inr (None, Some could_not_understand)"
    unfolding keyword_based_query_def eq by (simp add: could_not_understand_def)
qed

theorem keyword_fallback_witness:
  "parse_question ''Tell me about run logs'' =
     Inr (Some ''SELECT * FROM run_logs LIMIT 100'', Some ''Showing data from run_logs table'') \<and>
   parse_question ''asdkjasd random gibberish'' = Inr (None, Some could_not_understand)"
proof -
  have n1: "list_all (\<lambda>(p, h). re_search p (py_strip (py_lower ''Tell me about run logs'')) = None)
              patterns"
    by code_simp
  have n2: "list_all (\<lambda>(p, h). re_search p (py_strip (py_lower ''asdkjasd random gibberish'')) = None)
              patterns"
    by code_simp
  have q1: "py_strip (py_lower ''Tell me about run logs'') = ''tell me about run logs''"
    by code_simp
  have q2: "py_strip (py_lower ''asdkjasd random gibberish'') = ''asdkjasd random gibberish''"
    by code_simp
  have h1: "7 < length table_names \<and> kw_hit ''tell me about run logs'' (table_names ! 7) \<and>
    list_all (\<lambda>t. \<not> kw_hit ''tell me about run logs'' t) (take 7 table_names)"
    by code_simp
  have t7: "table_names ! 7 = ''run_logs''" by code_simp
  have h2: "list_all (\<lambda>t. \<not> kw_hit ''asdkjasd random gibberish'' t) table_names"
    by code_simp
  from keyword_fallback[of "''Tell me about run logs''" 7 "''tell me about run logs''"] n1 h1
  have a: "parse_question ''Tell me about run logs'' =
     Inr (Some ''SELECT * FROM run_logs LIMIT 100'', Some ''Showing data from run_logs table'')"
    by (simp add: q1 t7)
  from keyword_fallback[of "''asdkjasd random gibberish''" 0 "''asdkjasd random gibberish''"] n2 h2
  have "parse_question ''asdkjasd random gibberish'' = Inr (None, Some could_not_understand)"
    by (simp add: q2)
  with a show ?thesis by simp
qed

subsection \<open>C8: \<^verbatim>\<open>parse_question\<close> is total\<close>

text \<open>
  C8 says that \<^verbatim>\<open>parse_question\<close> returns, for every question, SQL with an explanation
  or no SQL with a reason, and raises no exception. It raises none: exceptions of handlers
  are caught by the loop, and the keyword fallback, which runs outside the \<^verbatim>\<open>try\<close>,
  raises none. But there is a third kind of result, \<^verbatim>\<open>(None, None)\<close>: no SQL and no
  reason. It is what \<^verbatim>\<open>_handle_count\<close> returns for an entity that no table name
  resolves, and only the count rule gives it. \<^verbatim>\<open>How many active agents\<close> is such a
  question: the entity is \<^verbatim>\<open>active\<close>.
\<close>

theorem parse_question_total_reasonless:
  "((\<exists>s e. parse_question q = Inr (Some s, Some e)) \<or>
    (\<exists>reason. parse_question q = Inr (None, Some reason)) \<or>
    parse_question q = Inr (None, None)) \<and>
   (parse_question q = Inr (None, None) \<longrightarrow>
      (\<exists>m. re_search pat_count (py_strip (py_lower q)) = Some m \<and>
           handle_count m (py_strip (py_lower q)) = Inr (None, None))) \<and>
   parse_question ''How many active agents'' = Inr (None, None) \<and>
   parse_question '''' = Inr (None, Some could_not_understand) \<and>
   parse_question ''   '' = Inr (None, Some could_not_understand) \<and>
   parse_question ''12345 ?!'' = Inr (None, Some could_not_understand) \<and>
   parse_question ''x; DROP TABLE users; --'' =
     Inr (Some ''SELECT * FROM users LIMIT 100'', Some ''Showing data from users table'')"
proof (intro conjI impI)
  let ?q = "py_strip (py_lower q)"
  from dispatch_cases[of patterns ?q]
  show "(\<exists>s e. parse_question q = Inr (Some s, Some e)) \<or>
    (\<exists>reason. parse_question q = Inr (None, Some reason)) \<or>
    parse_question q = Inr (None, None)"
  proof
    assume "dispatch patterns ?q = keyword_based_query ?q"
    with keyword_based_query_total[of ?q] obtain sql reason where
      "parse_question q = Inr (sql, Some reason)"
      by (auto simp: parse_question_def)
    then show ?thesis by (cases sql) auto
  next
    assume "\<exists>p h m r. (p, h) \<in> set patterns \<and> re_search p ?q = Some m \<and> h m ?q = Inr r \<and>
         dispatch patterns ?q = Inr r"
    then obtain p h m sql e where "(p, h) \<in> set patterns" "h m ?q = Inr (sql, e)"
      "dispatch patterns ?q = Inr (sql, e)" by (metis prod.collapse)
    with handler_result_form[of p h m ?q sql e] show ?thesis
      by (auto simp: parse_question_def)
  qed
  assume n: "parse_question q = Inr (None, None)"
  from dispatch_cases[of patterns ?q]
  show "\<exists>m. re_search pat_count ?q = Some m \<and> handle_count m ?q = Inr (None, None)"
  proof
    assume "dispatch patterns ?q = keyword_based_query ?q"
    with keyword_based_query_total[of ?q] n show ?thesis by (auto simp: parse_question_def)
  next
    assume "\<exists>p h m r. (p, h) \<in> set patterns \<and> re_search p ?q = Some m \<and> h m ?q = Inr r \<and>
         dispatch patterns ?q = Inr r"
    with n obtain p h m where "(p, h) \<in> set patterns" "re_search p ?q = Some m"
      "h m ?q = Inr (None, None)" by (auto simp: parse_question_def)
    with reasonless_handler[of p h m ?q] show ?thesis by blast
  qed
qed code_simp+

theorem parse_question_total_reasonless_witness:
  "\<exists>m. re_search pat_count (py_strip (py_lower ''How many active agents'')) = Some m \<and>
       handle_count m (py_strip (py_lower ''How many active agents'')) = Inr (None, None)"
proof -
  note t = parse_question_total_reasonless[of "''How many active agents''"]
  from t[THEN conjunct2, THEN conjunct1, THEN mp,
      OF t[THEN conjunct2, THEN conjunct2, THEN conjunct1]]
  show ?thesis .
qed

subsection \<open>C10: the count rule takes the first table in catalog order\<close>

text \<open>
  C10: \<^verbatim>\<open>_handle_count\<close> resolves the lower-cased entity to the table at position \<open>i\<close>
  of the catalog when that table's name contains the entity or starts with it and no
  table before it does, and counts the rows of that table. For \<^verbatim>\<open>how many runs\<close> the
  table is \<^verbatim>\<open>agent_runs\<close> (position 5), though \<^verbatim>\<open>test_runs\<close> (position 6) qualifies as
  well; \<^verbatim>\<open>run_logs\<close> comes at position 7.
\<close>

theorem count_first_table:
  "(group m 1 = Inr (Some g) \<and> i < length table_names \<and>
    ent_hit (py_lower g) (table_names ! i) \<and>
    list_all (\<lambda>t. \<not> ent_hit (py_lower g) t) (take i table_names) \<longrightarrow>
      handle_count m q =
        Inr (Some (''SELECT COUNT(*) as count FROM '' @ table_names ! i),
             Some (''Counting total '' @ py_lower g))) \<and>
   parse_question ''how many runs'' =
     Inr (Some ''SELECT COUNT(*) as count FROM agent_runs'', Some ''Counting total runs'') \<and>
   table_names ! 5 = ''agent_runs'' \<and> table_names ! 6 = ''test_runs'' \<and>
   table_names ! 7 = ''run_logs'' \<and>
   ent_hit ''runs'' ''agent_runs'' \<and> ent_hit ''runs'' ''test_runs''"
proof (intro conjI impI)
  let ?P = "\<lambda>table_name. contains table_name (py_lower g) \<or> startswith table_name (py_lower g)"
  assume a: "group m 1 = Inr (Some g) \<and> i < length table_names \<and>
    ent_hit (py_lower g) (table_names ! i) \<and>
    list_all (\<lambda>t. \<not> ent_hit (py_lower g) t) (take i table_names)"
  from a have "?P (table_names ! i)"
    by (simp add: ent_hit_def contains_sublist startswith_prefix)
  moreover from a have "list_all (\<lambda>t. \<not> ?P t) (take i table_names)"
    by (simp add: ent_hit_def contains_sublist startswith_prefix)
  ultimately have f: "find ?P table_names = Some (table_names ! i)"
    using a by (intro find_first) auto
  from a have t: "table_names ! i \<in> set table_names" by simp
  from a f table_names_ends[OF t] strip_count[OF t]
  show "handle_count m q =
        Inr (Some (''SELECT COUNT(*) as count FROM '' @ table_names ! i),
             Some (''Counting total '' @ py_lower g))"
    by (simp add: handle_count_def Let_def)
qed code_simp+

theorem count_first_table_witness:
  "handle_count \<lparr>whole = ''how many runs'', subs = [Some ''Runs'']\<rparr> ''how many runs'' =
     Inr (Some ''SELECT COUNT(*) as count FROM agent_runs'', Some ''Counting total runs'')"
proof -
  have h: "group \<lparr>whole = ''how many runs'', subs = [Some ''Runs'']\<rparr> 1 = Inr (Some ''Runs'') \<and>
    5 < length table_names \<and> ent_hit (py_lower ''Runs'') (table_names ! 5) \<and>
    list_all (\<lambda>t. \<not> ent_hit (py_lower ''Runs'') t) (take 5 table_names)"
    by code_simp
  have e: "table_names ! 5 = ''agent_runs''" "py_lower ''Runs'' = ''runs''" by code_simp+
  from count_first_table[of "\<lparr>whole = ''how many runs'', subs = [Some ''Runs'']\<rparr>" "''Runs''" 5
      "''how many runs''"] h
  show ?thesis by (simp add: e)
qed

subsection \<open>C6: the language filter value\<close>

text \<open>
  C6: when the agents-by-language rule is the first rule to match a question, the captured
  name \<open>g\<close> is a non-empty word and the SQL filters on \<^verbatim>\<open>a.language = '<code>'\<close> where the
  code is the lexicon code of the lower-cased name when it is one of the ten lexicon
  entries and its first two characters otherwise. \<^verbatim>\<open>list all agents using Gujarati
  language\<close> filters on \<^verbatim>\<open>gu\<close>, and with the name Klingon on \<^verbatim>\<open>kl\<close>.
\<close>

theorem agents_by_language_filter:
  "(list_all (\<lambda>(p, h). re_search p (py_strip (py_lower q)) = None) (take 6 patterns) \<and>
    re_search pat_agents_by_language (py_strip (py_lower q)) = Some m \<longrightarrow>
      (\<exists>g. group m 1 = Inr (Some g) \<and> g \<noteq> [] \<and> list_all py_isword g \<and>
         parse_question q =
           Inr (Some (query_agents_by_language (lang_code (py_lower g))),
                Some (''Finding all agents using '' @ py_lower g @ '' language'')))) \<and>
   length languages = 10 \<and>
   map (\<lambda>(name, code). lang_code name) languages = map snd languages \<and>
   (name \<notin> set (map fst languages) \<longrightarrow> lang_code name = take 2 name) \<and>
   parse_question ''list all agents using Gujarati language'' =
     Inr (Some (query_agents_by_language ''gu''),
          Some ''Finding all agents using gujarati language'') \<and>
   parse_question ''list all agents using Klingon language'' =
     Inr (Some (query_agents_by_language ''kl''),
          Some ''Finding all agents using klingon language'')"
proof (intro conjI impI)
  let ?q = "py_strip (py_lower q)"
  assume a: "list_all (\<lambda>(p, h). re_search p ?q = None) (take 6 patterns) \<and>
    re_search pat_agents_by_language ?q = Some m"
  from rule_agents_by_language[of ?q m ?q] a obtain g where
    g: "cap_prop (Plus Word) g" "group m 1 = Inr (Some g)"
    "handle_agents_by_language m ?q =
        Inr (Some (query_agents_by_language
                     (dict_get languages (Some (py_lower g)) (take 2 (py_lower g)))),
             Some (''Finding all agents using '' @ py_lower g @ '' language''))" by blast
  from a g(3) have "dispatch (take 6 patterns @
      (pat_agents_by_language, handle_agents_by_language) # drop 7 patterns) ?q =
        Inr (Some (query_agents_by_language (lang_code (py_lower g))),
             Some (''Finding all agents using '' @ py_lower g @ '' language''))"
    by (intro dispatch_first) (auto simp: lang_code_dict_get)
  then have "parse_question q =
        Inr (Some (query_agents_by_language (lang_code (py_lower g))),
             Some (''Finding all agents using '' @ py_lower g @ '' language''))"
    unfolding parse_question_def using patterns_split_agents_by_language by simp
  with g show "\<exists>g. group m 1 = Inr (Some g) \<and> g \<noteq> [] \<and> list_all py_isword g \<and>
         parse_question q =
           Inr (Some (query_agents_by_language (lang_code (py_lower g))),
                Some (''Finding all agents using '' @ py_lower g @ '' language''))"
    by (auto simp: in_cls_Word)
next
  assume "name \<notin> set (map fst languages)"
  then show "lang_code name = take 2 name" by (simp add: lang_code_def)
qed code_simp+

theorem agents_by_language_filter_witness:
  "parse_question ''Show agents with Tamil language'' =
     Inr (Some (query_agents_by_language ''ta''),
          Some ''Finding all agents using tamil language'') \<and>
   lang_code ''klingon'' = ''kl''"
proof -
  let ?m = "\<lparr>whole = ''show agents with tamil language'', subs = [Some ''tamil'']\<rparr>"
  have h: "list_all (\<lambda>(p, h). re_search p (py_strip (py_lower ''Show agents with Tamil language'')) = None)
      (take 6 patterns)" by code_simp
  have s: "re_search pat_agents_by_language (py_strip (py_lower ''Show agents with Tamil language'')) =
     Some ?m"
    by code_simp
  have g: "group ?m 1 = Inr (Some ''tamil'')" by code_simp
  have c: "lang_code (py_lower ''tamil'') = ''ta''" "py_lower ''tamil'' = ''tamil''" by code_simp+
  have k: "''klingon'' \<notin> set (map fst languages)" by code_simp
  note t = agents_by_language_filter[of "''Show agents with Tamil language''" ?m "''klingon''"]
  from t h s obtain g' where "group ?m 1 = Inr (Some g')"
    "parse_question ''Show agents with Tamil language'' =
       Inr (Some (query_agents_by_language (lang_code (py_lower g'))),
            Some (''Finding all agents using '' @ py_lower g' @ '' language''))"
    by blast
  with g c have "parse_question ''Show agents with Tamil language'' =
     Inr (Some (query_agents_by_language ''ta''),
          Some ''Finding all agents using tamil language'')"
    by simp
  moreover from t k have "lang_code ''klingon'' = take 2 ''klingon''" by blast
  ultimately show ?thesis by simp
qed

subsection \<open>C4: the time window\<close>

text \<open>
  C4 says that the captured number and unit of every rule with a time window are
  normalized. \<^verbatim>\<open>_get_time_filter\<close> converts the number with \<^verbatim>\<open>int\<close> and writes the
  product with an f-string, and both conversions raise ValueError beyond
  \<^const>\<open>max_str_digits\<close> digits: for a number of 4301 digits, and for 4300 nines with
  the unit month, whose thirtyfold has 4302 digits. The handler then raises, no filter
  is produced, and the loop of \<^verbatim>\<open>parse_question\<close> goes on to the next rule. For
  \<^term>\<open>long_top_question 4300\<close>, which asks for the top errors of the last
  \<^verbatim>\<open>1...1 week\<close> with 4301 ones, no other rule matches, and the keyword fallback
  answers with all rows of the table \<^verbatim>\<open>errors\<close>, without a time filter.
\<close>

theorem time_value_over_limit_counterexample:
  "get_time_filter (Some (replicate 4301 CHR ''1'')) (Some ''week'') = Inl ValueError \<and>
   get_time_filter (Some (replicate 4300 CHR ''9'')) (Some ''month'') = Inl ValueError \<and>
   long_top_question 4300 = ''top 3 errors in last '' @ replicate 4301 CHR ''1'' @ '' week'' \<and>
   re_search pat_top_errors (py_strip (py_lower (long_top_question 4300))) =
     Some \<lparr>whole = long_top_question 4300,
           subs = [Some ''3'', Some (replicate 4301 CHR ''1''), Some ''week'']\<rparr> \<and>
   parse_question (long_top_question 4300) =
     Inr (Some ''SELECT * FROM errors LIMIT 100'', Some ''Showing data from errors table'')"
proof -
  have n: "Suc 4300 = 4301" by simp
  have k: "max_str_digits \<le> 4300" "0 < max_str_digits" by (simp_all add: max_str_digits_def)
  have d: "py_isdecimal CHR ''9''" by (simp add: py_isdecimal_def)
  from nines_month_over[OF k(2)]
  have "\<not> within_limit (replicate max_str_digits CHR ''9'') (Some ''month'')"
    by (simp add: within_limit_def)
  with get_time_filter_digits[OF run_digits[OF d k(2)]]
  have "get_time_filter (Some (replicate max_str_digits CHR ''9'')) (Some ''month'') =
      Inl ValueError"
    by simp
  then have a: "get_time_filter (Some (replicate 4300 CHR ''9'')) (Some ''month'') =
      Inl ValueError"
    unfolding max_str_digits_def .
  note b = ones_over_limit[OF k(1), of "Some ''week''"] long_top_question_def[of 4300]
    long_top_top_errors[of 4300]
  from b[unfolded n] a long_top_result[OF k(1)] show ?thesis
    unfolding long_top_normal by (intro conjI)
qed

text \<open>
  C4 as amended: for a captured number \<open>v\<close> and unit within the limit
  (\<^const>\<open>within_limit\<close>: \<open>v\<close> has at most 4300 digits, and so has the product; every \<open>v\<close>
  of at most 4298 digits is), \<^verbatim>\<open>_get_time_filter\<close> returns the text
  \<^verbatim>\<open>datetime('now', '-N unit')\<close>, an expression relative to the moment the query runs,
  with \<open>V\<close> hours for hour, \<open>V\<close> days for day, \<open>7 V\<close> days for week and \<open>30 V\<close> days for
  month, where \<open>V\<close> is the number that \<open>v\<close> denotes; beyond the limit it raises
  ValueError. Each of the three rules with a time window, when it is the first whose
  pattern is found, captures one of these four unit words; within the limit the result
  compares \<^verbatim>\<open>created_at >=\<close> with the filter of the captured number and unit, and beyond
  it the question is left to the rules that follow. \<^verbatim>\<open>last 2 week\<close> gives a filter of
  14 days and \<^verbatim>\<open>last 1 month\<close> one of 30 days.
\<close>

theorem time_window_normalization:
  "(is_digits v \<longrightarrow>
      get_time_filter (Some v) (Some ''hour'') =
        (if within_limit v (Some ''hour'')
         then Inr (time_filter_text (digits_value v) ''hours'') else Inl ValueError) \<and>
      get_time_filter (Some v) (Some ''day'') =
        (if within_limit v (Some ''day'')
         then Inr (time_filter_text (digits_value v) ''days'') else Inl ValueError) \<and>
      get_time_filter (Some v) (Some ''week'') =
        (if within_limit v (Some ''week'')
         then Inr (time_filter_text (7 * digits_value v) ''days'') else Inl ValueError) \<and>
      get_time_filter (Some v) (Some ''month'') =
        (if within_limit v (Some ''month'')
         then Inr (time_filter_text (30 * digits_value v) ''days'') else Inl ValueError) \<and>
      (length v + 2 \<le> max_str_digits \<longrightarrow> within_limit v unit)) \<and>
   window v (Some ''hour'') = digits_value v \<and> window v (Some ''day'') = digits_value v \<and>
   window v (Some ''week'') = 7 * digits_value v \<and>
   window v (Some ''month'') = 30 * digits_value v \<and> max_str_digits = 4300 \<and>
   (re_search pat_top_errors (py_strip (py_lower q1)) = Some m1 \<longrightarrow>
      (\<exists>n v u. group m1 1 = Inr (Some n) \<and> group m1 2 = Inr (Some v) \<and>
         group m1 3 = Inr (Some u) \<and> is_digits v \<and>
         u \<in> {''hour'', ''day'', ''week'', ''month''} \<and>
         (if within_limit v (Some u)
          then \<exists>tf. get_time_filter (Some v) (Some u) = Inr tf \<and>
            parse_question q1 =
              Inr (Some (query_top_errors tf n),
                   Some (''Finding top '' @ n @ '' errors from the last '' @ v @ '' '' @ u @
                         ''(s)''))
          else parse_question q1 = dispatch (drop 1 patterns) (py_strip (py_lower q1))))) \<and>
   (re_search pat_top_errors (py_strip (py_lower q2)) = None \<and>
    re_search pat_errors_timeframe (py_strip (py_lower q2)) = Some m2 \<longrightarrow>
      (\<exists>v u. group m2 1 = Inr (Some v) \<and> group m2 2 = Inr (Some u) \<and> is_digits v \<and>
         u \<in> {''hour'', ''day'', ''week'', ''month''} \<and>
         (if within_limit v (Some u)
          then \<exists>tf. get_time_filter (Some v) (Some u) = Inr tf \<and>
            parse_question q2 =
              Inr (Some (query_errors_timeframe tf),
                   Some (''Showing all errors from the last '' @ v @ '' '' @ u @ ''(s)''))
          else parse_question q2 = dispatch (drop 2 patterns) (py_strip (py_lower q2))))) \<and>
   (re_search pat_top_errors (py_strip (py_lower q3)) = None \<and>
    re_search pat_errors_timeframe (py_strip (py_lower q3)) = None \<and>
    re_search pat_failed_tests (py_strip (py_lower q3)) = Some m3 \<longrightarrow>
      (\<exists>v u. group m3 1 = Inr (Some v) \<and> group m3 2 = Inr (Some u) \<and> is_digits v \<and>
         u \<in> {''hour'', ''day'', ''week'', ''month''} \<and>
         (if within_limit v (Some u)
          then \<exists>tf. get_time_filter (Some v) (Some u) = Inr tf \<and>
            parse_question q3 =
              Inr (Some (query_failed_tests tf),
                   Some (''Finding failed test runs from the last '' @ v @ '' '' @ u @
                         ''(s)''))
          else parse_question q3 = dispatch (drop 3 patterns) (py_strip (py_lower q3))))) \<and>
   parse_question ''top 3 errors in last 2 week'' =
     Inr (Some (query_top_errors (time_filter_text 14 ''days'') ''3''),
          Some ''Finding top 3 errors from the last 2 week(s)'') \<and>
   parse_question ''top 3 errors in last 1 month'' =
     Inr (Some (query_top_errors (time_filter_text 30 ''days'') ''3''),
          Some ''Finding top 3 errors from the last 1 month(s)'') \<and>
   time_filter_text 14 ''days'' = ''datetime('now', '-14 days'' @ [CHR 0x27] @ '')''"
proof (intro conjI impI)
  assume "is_digits v"
  then have d: "cap_prop (Plus Digit) v" unfolding is_digits_cap .
  show "get_time_filter (Some v) (Some ''hour'') =
        (if within_limit v (Some ''hour'')
         then Inr (time_filter_text (digits_value v) ''hours'') else Inl ValueError)"
    "get_time_filter (Some v) (Some ''day'') =
        (if within_limit v (Some ''day'')
         then Inr (time_filter_text (digits_value v) ''days'') else Inl ValueError)"
    "get_time_filter (Some v) (Some ''week'') =
        (if within_limit v (Some ''week'')
         then Inr (time_filter_text (7 * digits_value v) ''days'') else Inl ValueError)"
    "get_time_filter (Some v) (Some ''month'') =
        (if within_limit v (Some ''month'')
         then Inr (time_filter_text (30 * digits_value v) ''days'') else Inl ValueError)"
    unfolding get_time_filter_digits[OF d]
    by (simp_all add: window_def dict_get_def multiplier_def unit_map_def mult.commute)
  assume "length v + 2 \<le> max_str_digits"
  from within_limit_short[OF d this] show "within_limit v unit" .
next
  show "window v (Some ''hour'') = digits_value v" "window v (Some ''day'') = digits_value v"
    "window v (Some ''week'') = 7 * digits_value v"
    "window v (Some ''month'') = 30 * digits_value v"
    by (simp_all add: window_def dict_get_def multiplier_def)
  show "max_str_digits = 4300" by (simp add: max_str_digits_def)
next
  let ?q = "py_strip (py_lower q1)"
  assume a: "re_search pat_top_errors ?q = Some m1"
  from rule_top_errors[OF a, of ?q] obtain n v u where
    r: "cap_prop time_unit_re u" "set u \<subseteq> set ?q" "cap_prop (Plus Digit) v"
      "group m1 1 = Inr (Some n)" "group m1 2 = Inr (Some v)" "group m1 3 = Inr (Some u)"
      "handle_top_errors m1 ?q =
        (if within_limit v (Some u)
         then Inr (Some (query_top_errors
                     (time_filter_text (window v (Some u))
                        (dict_get unit_map (Some u) ''days'')) n),
             Some (''Finding top '' @ n @ '' errors from the last '' @ v @ '' '' @ u @ ''(s)''))
         else Inl ValueError)"
    by blast
  from dispatch_hd[OF patterns_hd a] r(7)
  have "if within_limit v (Some u)
        then parse_question q1 =
          Inr (Some (query_top_errors
                     (time_filter_text (window v (Some u))
                        (dict_get unit_map (Some u) ''days'')) n),
             Some (''Finding top '' @ n @ '' errors from the last '' @ v @ '' '' @ u @ ''(s)''))
        else parse_question q1 = dispatch (drop 1 patterns) ?q"
    by (simp add: parse_question_def)
  with r time_window_unit[OF r(1,2)] get_time_filter_digits[OF r(3), of "Some u"]
  show "\<exists>n v u. group m1 1 = Inr (Some n) \<and> group m1 2 = Inr (Some v) \<and>
         group m1 3 = Inr (Some u) \<and> is_digits v \<and>
         u \<in> {''hour'', ''day'', ''week'', ''month''} \<and>
         (if within_limit v (Some u)
          then \<exists>tf. get_time_filter (Some v) (Some u) = Inr tf \<and>
            parse_question q1 =
              Inr (Some (query_top_errors tf n),
                   Some (''Finding top '' @ n @ '' errors from the last '' @ v @ '' '' @ u @
                         ''(s)''))
          else parse_question q1 = dispatch (drop 1 patterns) ?q)"
    unfolding is_digits_cap[symmetric]
    by (intro exI[of _ n] exI[of _ v] exI[of _ u]) (simp split: if_splits)
next
  let ?q = "py_strip (py_lower q2)"
  assume a: "re_search pat_top_errors ?q = None \<and> re_search pat_errors_timeframe ?q = Some m2"
  from a rule_errors_timeframe[of ?q m2 ?q] obtain v u where
    r: "cap_prop time_unit_re u" "set u \<subseteq> set ?q" "cap_prop (Plus Digit) v"
      "group m2 1 = Inr (Some v)" "group m2 2 = Inr (Some u)"
      "handle_errors_timeframe m2 ?q =
        (if within_limit v (Some u)
         then Inr (Some (query_errors_timeframe
                     (time_filter_text (window v (Some u))
                        (dict_get unit_map (Some u) ''days''))),
             Some (''Showing all errors from the last '' @ v @ '' '' @ u @ ''(s)''))
         else Inl ValueError)"
    by blast
  from a have "dispatch patterns ?q = dispatch (drop 1 patterns) ?q"
    by (intro dispatch_tl[OF patterns_hd]) simp
  with a dispatch_hd[OF patterns_drop1, of ?q m2] r(6)
  have "if within_limit v (Some u)
        then parse_question q2 =
          Inr (Some (query_errors_timeframe
                     (time_filter_text (window v (Some u))
                        (dict_get unit_map (Some u) ''days''))),
             Some (''Showing all errors from the last '' @ v @ '' '' @ u @ ''(s)''))
        else parse_question q2 = dispatch (drop 2 patterns) ?q"
    by (simp add: parse_question_def)
  with r time_window_unit[OF r(1,2)] get_time_filter_digits[OF r(3), of "Some u"]
  show "\<exists>v u. group m2 1 = Inr (Some v) \<and> group m2 2 = Inr (Some u) \<and> is_digits v \<and>
         u \<in> {''hour'', ''day'', ''week'', ''month''} \<and>
         (if within_limit v (Some u)
          then \<exists>tf. get_time_filter (Some v) (Some u) = Inr tf \<and>
            parse_question q2 =
              Inr (Some (query_errors_timeframe tf),
                   Some (''Showing all errors from the last '' @ v @ '' '' @ u @ ''(s)''))
          else parse_question q2 = dispatch (drop 2 patterns) ?q)"
    unfolding is_digits_cap[symmetric]
    by (intro exI[of _ v] exI[of _ u]) (simp split: if_splits)
next
  let ?q = "py_strip (py_lower q3)"
  assume a: "re_search pat_top_errors ?q = None \<and> re_search pat_errors_timeframe ?q = None \<and>
    re_search pat_failed_tests ?q = Some m3"
  from a rule_failed_tests[of ?q m3 ?q] obtain v u where
    r: "cap_prop time_unit_re u" "set u \<subseteq> set ?q" "cap_prop (Plus Digit) v"
      "group m3 1 = Inr (Some v)" "group m3 2 = Inr (Some u)"
      "handle_failed_tests m3 ?q =
        (if within_limit v (Some u)
         then Inr (Some (query_failed_tests
                     (time_filter_text (window v (Some u))
                        (dict_get unit_map (Some u) ''days''))),
             Some (''Finding failed test runs from the last '' @ v @ '' '' @ u @ ''(s)''))
         else Inl ValueError)"
    by blast
  from a have "dispatch patterns ?q = dispatch (drop 1 patterns) ?q"
    by (intro dispatch_tl[OF patterns_hd]) simp
  also from a have "\<dots> = dispatch (drop 2 patterns) ?q"
    by (intro dispatch_tl[OF patterns_drop1]) simp
  finally have "dispatch patterns ?q = dispatch (drop 2 patterns) ?q" .
  with a dispatch_hd[OF patterns_drop2, of ?q m3] r(6)
  have "if within_limit v (Some u)
        then parse_question q3 =
          Inr (Some (query_failed_tests
                     (time_filter_text (window v (Some u))
                        (dict_get unit_map (Some u) ''days''))),
             Some (''Finding failed test runs from the last '' @ v @ '' '' @ u @ ''(s)''))
        else parse_question q3 = dispatch (drop 3 patterns) ?q"
    by (simp add: parse_question_def)
  with r time_window_unit[OF r(1,2)] get_time_filter_digits[OF r(3), of "Some u"]
  show "\<exists>v u. group m3 1 = Inr (Some v) \<and> group m3 2 = Inr (Some u) \<and> is_digits v \<and>
         u \<in> {''hour'', ''day'', ''week'', ''month''} \<and>
         (if within_limit v (Some u)
          then \<exists>tf. get_time_filter (Some v) (Some u) = Inr tf \<and>
            parse_question q3 =
              Inr (Some (query_failed_tests tf),
                   Some (''Finding failed test runs from the last '' @ v @ '' '' @ u @
                         ''(s)''))
          else parse_question q3 = dispatch (drop 3 patterns) ?q)"
    unfolding is_digits_cap[symmetric]
    by (intro exI[of _ v] exI[of _ u]) (simp split: if_splits)
qed code_simp+

theorem time_window_normalization_witness:
  "get_time_filter (Some ''2'') (Some ''week'') = Inr (time_filter_text 14 ''days'') \<and>
   within_limit ''2'' (Some ''week'') \<and>
   parse_question ''Top 5 errors for the last 24 hours'' =
     Inr (Some (query_top_errors (time_filter_text 24 ''hours'') ''5''),
          Some ''Finding top 5 errors from the last 24 hour(s)'') \<and>
   parse_question ''Show errors for last 7 days'' =
     Inr (Some (query_errors_timeframe (time_filter_text 7 ''days'')),
          Some ''Showing all errors from the last 7 day(s)'') \<and>
   parse_question ''list failed test runs in the last 2 months'' =
     Inr (Some (query_failed_tests (time_filter_text 60 ''days'')),
          Some ''Finding failed test runs from the last 2 month(s)'')"
proof -
  let ?q1 = "''Top 5 errors for the last 24 hours''"
  let ?m1 = "\<lparr>whole = ''top 5 errors for the last 24 hours'',
              subs = [Some ''5'', Some ''24'', Some ''hour'']\<rparr>"
  let ?q2 = "''Show errors for last 7 days''"
  let ?m2 = "\<lparr>whole = ''show errors for last 7 days'', subs = [Some ''7'', Some ''day'']\<rparr>"
  let ?q3 = "''list failed test runs in the last 2 months''"
  let ?m3 = "\<lparr>whole = ''list failed test runs in the last 2 months'',
              subs = [Some ''2'', Some ''month'']\<rparr>"
  note t = time_window_normalization[of "''2''" "Some ''week''" ?q1 ?m1 ?q2 ?m2 ?q3 ?m3]
  have i: "is_digits ''2''" "length ''2'' + 2 \<le> max_str_digits" "digits_value ''2'' = 2"
    by (simp_all add: is_digits_def py_isdecimal_def max_str_digits_def digits_value_def
        digit_val_def)
  have s1: "re_search pat_top_errors (py_strip (py_lower ?q1)) = Some ?m1" by code_simp
  have s2: "re_search pat_top_errors (py_strip (py_lower ?q2)) = None \<and>
    re_search pat_errors_timeframe (py_strip (py_lower ?q2)) = Some ?m2" by code_simp
  have s3: "re_search pat_top_errors (py_strip (py_lower ?q3)) = None \<and>
    re_search pat_errors_timeframe (py_strip (py_lower ?q3)) = None \<and>
    re_search pat_failed_tests (py_strip (py_lower ?q3)) = Some ?m3" by code_simp
  have g: "group ?m1 1 = Inr (Some ''5'')" "group ?m1 2 = Inr (Some ''24'')"
    "group ?m1 3 = Inr (Some ''hour'')"
    "group ?m2 1 = Inr (Some ''7'')" "group ?m2 2 = Inr (Some ''day'')"
    "group ?m3 1 = Inr (Some ''2'')" "group ?m3 2 = Inr (Some ''month'')"
    by (simp_all add: group_def)
  have f: "get_time_filter (Some ''24'') (Some ''hour'') = Inr (time_filter_text 24 ''hours'')"
    "get_time_filter (Some ''7'') (Some ''day'') = Inr (time_filter_text 7 ''days'')"
    "get_time_filter (Some ''2'') (Some ''month'') = Inr (time_filter_text 60 ''days'')"
    by code_simp+
  have l: "within_limit ''24'' (Some ''hour'')" "within_limit ''7'' (Some ''day'')"
    "within_limit ''2'' (Some ''month'')"
    by code_simp+
  note c = conjunct2
  note t0 = t[THEN conjunct1, THEN mp, OF i(1)]
  note t1 = t[THEN c, THEN c, THEN c, THEN c, THEN c, THEN c, THEN conjunct1, THEN mp, OF s1]
  note t2 = t[THEN c, THEN c, THEN c, THEN c, THEN c, THEN c, THEN c, THEN conjunct1, THEN mp,
      OF s2]
  note t3 = t[THEN c, THEN c, THEN c, THEN c, THEN c, THEN c, THEN c, THEN c, THEN conjunct1,
      THEN mp, OF s3]
  from t0 i(2) have w: "within_limit ''2'' (Some ''week'')" by blast
  from t0 have "get_time_filter (Some ''2'') (Some ''week'') =
        (if within_limit ''2'' (Some ''week'')
         then Inr (time_filter_text (7 * digits_value ''2'') ''days'') else Inl ValueError)"
    by blast
  with w i(3) have a: "get_time_filter (Some ''2'') (Some ''week'') =
      Inr (time_filter_text 14 ''days'')"
    by simp
  from t1 obtain n v u where "group ?m1 1 = Inr (Some n)" "group ?m1 2 = Inr (Some v)"
    "group ?m1 3 = Inr (Some u)"
    "if within_limit v (Some u)
     then \<exists>tf. get_time_filter (Some v) (Some u) = Inr tf \<and>
        parse_question ?q1 =
           Inr (Some (query_top_errors tf n),
                Some (''Finding top '' @ n @ '' errors from the last '' @ v @ '' '' @ u @
                      ''(s)''))
     else parse_question ?q1 = dispatch (drop 1 patterns) (py_strip (py_lower ?q1))"
    by blast
  with g f l have b: "parse_question ?q1 =
     Inr (Some (query_top_errors (time_filter_text 24 ''hours'') ''5''),
          Some ''Finding top 5 errors from the last 24 hour(s)'')" by simp
  from t2 obtain v u where "group ?m2 1 = Inr (Some v)" "group ?m2 2 = Inr (Some u)"
    "if within_limit v (Some u)
     then \<exists>tf. get_time_filter (Some v) (Some u) = Inr tf \<and>
        parse_question ?q2 =
           Inr (Some (query_errors_timeframe tf),
                Some (''Showing all errors from the last '' @ v @ '' '' @ u @ ''(s)''))
     else parse_question ?q2 = dispatch (drop 2 patterns) (py_strip (py_lower ?q2))"
    by blast
  with g f l have c: "parse_question ?q2 =
     Inr (Some (query_errors_timeframe (time_filter_text 7 ''days'')),
          Some ''Showing all errors from the last 7 day(s)'')" by simp
  from t3 obtain v u where "group ?m3 1 = Inr (Some v)" "group ?m3 2 = Inr (Some u)"
    "if within_limit v (Some u)
     then \<exists>tf. get_time_filter (Some v) (Some u) = Inr tf \<and>
        parse_question ?q3 =
           Inr (Some (query_failed_tests tf),
                Some (''Finding failed test runs from the last '' @ v @ '' '' @ u @
                      ''(s)''))
     else parse_question ?q3 = dispatch (drop 3 patterns) (py_strip (py_lower ?q3))"
    by blast
  with g f l have d: "parse_question ?q3 =
     Inr (Some (query_failed_tests (time_filter_text 60 ''days'')),
          Some ''Finding failed test runs from the last 2 month(s)'')" by simp
  from a w b c d show ?thesis by simp
qed

subsection \<open>C3: the order of the rules\<close>

text \<open>
  C3 says that the first recognizer that succeeds determines the result, and gives
  \<^verbatim>\<open>top 5 errors in last 2 days\<close> as a question that matches both the pattern of the
  top errors and the pattern of the errors of a time frame. That question matches the
  first only: the second needs one of the words show, list, get, find before
  \<^verbatim>\<open>errors\<close>. And a recognizer that succeeds does not always determine the result:
  \<^term>\<open>long_both_question 4300\<close> matches both patterns, with a time value of 4301 digits
  for the top errors; \<^verbatim>\<open>int\<close> raises ValueError in \<^verbatim>\<open>_handle_top_errors\<close>, the loop
  goes on, and the result is the query of the errors of a time frame.
\<close>

theorem top_errors_example_single_match_counterexample:
  "re_search pat_top_errors (py_strip (py_lower ''top 5 errors in last 2 days'')) \<noteq> None \<and>
   re_search pat_errors_timeframe (py_strip (py_lower ''top 5 errors in last 2 days'')) = None \<and>
   long_both_question 4300 =
     ''show errors in last 3 days and top 5 errors in last '' @ replicate 4301 CHR ''1'' @
     '' days'' \<and>
   re_search pat_top_errors (py_strip (py_lower (long_both_question 4300))) =
     Some \<lparr>whole = ''top 5 errors in last '' @ replicate 4301 CHR ''1'' @ '' days'',
           subs = [Some ''5'', Some (replicate 4301 CHR ''1''), Some ''day'']\<rparr> \<and>
   re_search pat_errors_timeframe (py_strip (py_lower (long_both_question 4300))) =
     Some \<lparr>whole = ''show errors in last 3 days'', subs = [Some ''3'', Some ''day'']\<rparr> \<and>
   parse_question (long_both_question 4300) =
     Inr (Some (query_errors_timeframe (time_filter_text 3 ''days'')),
          Some ''Showing all errors from the last 3 day(s)'')"
proof -
  have a: "re_search pat_top_errors (py_strip (py_lower ''top 5 errors in last 2 days'')) \<noteq> None"
    "re_search pat_errors_timeframe (py_strip (py_lower ''top 5 errors in last 2 days'')) = None"
    by code_simp+
  have n: "Suc 4300 = 4301" by simp
  have k: "max_str_digits \<le> 4300" by (simp add: max_str_digits_def)
  note b = long_both_question_def[of 4300] long_both_top_errors[of 4300]
    long_both_errors_timeframe[of 4300]
  from a b[unfolded n] long_both_result[OF k] show ?thesis
    unfolding long_both_normal by (intro conjI)
qed

text \<open>
  C3 as amended: the rules are tried in the order of their declaration, and the first
  rule whose pattern is found and whose handler returns gives the result; a rule whose
  pattern is found but whose handler raises is passed over like one whose pattern is not
  found. A handler of a matched rule raises nothing but ValueError, and only the three
  rules with a time window can raise it (C4: beyond the limit of digits); the handlers
  of the twelve rules after them always return. So a question that matches the pattern
  of the top errors with a time window within the limit gets the top-errors query
  (grouped by code, message and source, ordered by the count descending, limited to the
  captured number) whether or not it matches the pattern of the errors of a time frame
  as well, and beyond the limit it is left to the rules that follow;
  \<^const>\<open>both_patterns_question\<close> matches both patterns and gets the top-errors query,
  and \<^verbatim>\<open>top 5 errors in last 2 days\<close>, which matches the first pattern only, gets it too.
\<close>

theorem rule_priority:
  "(patterns = pre @ (p, h) # post \<and> list_all (passes (py_strip (py_lower q))) pre \<and>
    re_search p (py_strip (py_lower q)) = Some m \<and> h m (py_strip (py_lower q)) = Inr r \<longrightarrow>
      parse_question q = Inr r) \<and>
   (list_all (passes (py_strip (py_lower q))) patterns \<longrightarrow>
      parse_question q = keyword_based_query (py_strip (py_lower q))) \<and>
   ((p', h') \<in> set patterns \<and> re_search p' q' = Some m' \<longrightarrow>
      (\<exists>r. h' m' q' = Inr r) \<or> h' m' q' = Inl ValueError) \<and>
   ((p', h') \<in> set (drop 3 patterns) \<and> re_search p' q' = Some m' \<longrightarrow>
      (\<exists>r. h' m' q' = Inr r)) \<and>
   (re_search pat_top_errors (py_strip (py_lower q1)) = Some m1 \<longrightarrow>
      (\<exists>n v u. group m1 1 = Inr (Some n) \<and> group m1 2 = Inr (Some v) \<and>
          group m1 3 = Inr (Some u) \<and>
          (if within_limit v (Some u)
           then \<exists>tf e. get_time_filter (Some v) (Some u) = Inr tf \<and>
             parse_question q1 = Inr (Some (query_top_errors tf n), Some e)
           else handle_top_errors m1 (py_strip (py_lower q1)) = Inl ValueError \<and>
             parse_question q1 = dispatch (drop 1 patterns) (py_strip (py_lower q1))))) \<and>
   re_search pat_top_errors (py_strip (py_lower both_patterns_question)) \<noteq> None \<and>
   re_search pat_errors_timeframe (py_strip (py_lower both_patterns_question)) \<noteq> None \<and>
   parse_question both_patterns_question =
     Inr (Some (query_top_errors (time_filter_text 2 ''days'') ''5''),
          Some ''Finding top 5 errors from the last 2 day(s)'') \<and>
   parse_question ''top 5 errors in last 2 days'' =
     Inr (Some (query_top_errors (time_filter_text 2 ''days'') ''5''),
          Some ''Finding top 5 errors from the last 2 day(s)'')"
proof (intro conjI impI)
  let ?q = "py_strip (py_lower q)"
  assume a: "patterns = pre @ (p, h) # post \<and> list_all (passes ?q) pre \<and>
    re_search p ?q = Some m \<and> h m ?q = Inr r"
  then have e: "patterns = pre @ (p, h) # post" by blast
  from a have "dispatch (pre @ (p, h) # post) ?q = dispatch ((p, h) # post) ?q"
    by (intro dispatch_passes) simp
  also from a have "\<dots> = Inr r" by simp
  finally show "parse_question q = Inr r" unfolding parse_question_def by (subst e)
next
  let ?q = "py_strip (py_lower q)"
  assume "list_all (passes ?q) patterns"
  from dispatch_passes[OF this, of "[]"]
  show "parse_question q = keyword_based_query ?q" by (simp add: parse_question_def)
next
  assume "(p', h') \<in> set patterns \<and> re_search p' q' = Some m'"
  then show "(\<exists>r. h' m' q' = Inr r) \<or> h' m' q' = Inl ValueError"
    using matched_handler_result[of p' h' q' m' q'] by blast
next
  assume "(p', h') \<in> set (drop 3 patterns) \<and> re_search p' q' = Some m'"
  then show "\<exists>r. h' m' q' = Inr r"
    using untimed_handler_returns[of p' h' q' m' q'] by blast
next
  let ?q = "py_strip (py_lower q1)"
  assume a: "re_search pat_top_errors ?q = Some m1"
  from rule_top_errors[OF a, of ?q] obtain n v u where
    r: "cap_prop (Plus Digit) v"
      "group m1 1 = Inr (Some n)" "group m1 2 = Inr (Some v)" "group m1 3 = Inr (Some u)"
      "handle_top_errors m1 ?q =
        (if within_limit v (Some u)
         then Inr (Some (query_top_errors
                     (time_filter_text (window v (Some u))
                        (dict_get unit_map (Some u) ''days'')) n),
             Some (''Finding top '' @ n @ '' errors from the last '' @ v @ '' '' @ u @ ''(s)''))
         else Inl ValueError)"
    by blast
  from dispatch_hd[OF patterns_hd a] r(5)
  have "if within_limit v (Some u)
        then parse_question q1 =
          Inr (Some (query_top_errors
                     (time_filter_text (window v (Some u))
                        (dict_get unit_map (Some u) ''days'')) n),
             Some (''Finding top '' @ n @ '' errors from the last '' @ v @ '' '' @ u @ ''(s)''))
        else parse_question q1 = dispatch (drop 1 patterns) ?q"
    by (simp add: parse_question_def)
  with r get_time_filter_digits[OF r(1), of "Some u"]
  show "\<exists>n v u. group m1 1 = Inr (Some n) \<and> group m1 2 = Inr (Some v) \<and>
          group m1 3 = Inr (Some u) \<and>
          (if within_limit v (Some u)
           then \<exists>tf e. get_time_filter (Some v) (Some u) = Inr tf \<and>
             parse_question q1 = Inr (Some (query_top_errors tf n), Some e)
           else handle_top_errors m1 ?q = Inl ValueError \<and>
             parse_question q1 = dispatch (drop 1 patterns) ?q)"
    by (intro exI[of _ n] exI[of _ v] exI[of _ u]) (simp split: if_splits)
qed code_simp+

theorem rule_priority_witness:
  "parse_question ''show all workspaces'' =
     Inr (Some query_all_workspaces, Some ''Listing all workspaces'') \<and>
   parse_question ''asdkjasd random gibberish'' =
     keyword_based_query ''asdkjasd random gibberish'' \<and>
   (\<exists>r. handle_all_workspaces \<lparr>whole = ''show all workspaces'', subs = []\<rparr>
          ''show all workspaces'' = Inr r) \<and>
   (\<exists>e. parse_question both_patterns_question =
          Inr (Some (query_top_errors (time_filter_text 2 ''days'') ''5''), Some e))"
proof -
  let ?q = "''show all workspaces''"
  let ?m = "\<lparr>whole = ''show all workspaces'', subs = []\<rparr>"
  let ?m1 = "\<lparr>whole = ''top 5 errors in last 2 days'',
              subs = [Some ''5'', Some ''2'', Some ''day'']\<rparr>"
  let ?r = "(Some query_all_workspaces, Some ''Listing all workspaces'')"
  note t = rule_priority[of "take 8 patterns" pat_all_workspaces handle_all_workspaces
      "drop 9 patterns" ?q ?m ?r pat_all_workspaces handle_all_workspaces ?q ?m
      both_patterns_question ?m1]
  note u = rule_priority[of "[]" pat_top_errors handle_top_errors "drop 1 patterns"
      "''asdkjasd random gibberish''"]
  have p: "patterns = take 8 patterns @ (pat_all_workspaces, handle_all_workspaces) # drop 9 patterns"
    by (simp add: patterns_def)
  have n: "list_all (passes (py_strip (py_lower ?q))) (take 8 patterns)"
    by code_simp
  have s: "re_search pat_all_workspaces (py_strip (py_lower ?q)) = Some ?m" by code_simp
  have hr: "handle_all_workspaces ?m (py_strip (py_lower ?q)) = Inr ?r"
    by (simp add: handle_all_workspaces_def strip_all_workspaces)
  have s1: "re_search pat_top_errors (py_strip (py_lower both_patterns_question)) = Some ?m1"
    by code_simp
  have n2: "list_all (passes (py_strip (py_lower ''asdkjasd random gibberish''))) patterns"
    by code_simp
  have q2: "py_strip (py_lower ''asdkjasd random gibberish'') = ''asdkjasd random gibberish''"
    by code_simp
  have g: "group ?m1 1 = Inr (Some ''5'')" "group ?m1 2 = Inr (Some ''2'')"
    "group ?m1 3 = Inr (Some ''day'')" "within_limit ''2'' (Some ''day'')"
    "get_time_filter (Some ''2'') (Some ''day'') = Inr (time_filter_text 2 ''days'')"
    by code_simp+
  have sq: "re_search pat_all_workspaces ?q = Some ?m" by code_simp
  then have s': "(pat_all_workspaces, handle_all_workspaces) \<in> set patterns \<and>
      re_search pat_all_workspaces ?q = Some ?m"
    "(pat_all_workspaces, handle_all_workspaces) \<in> set (drop 3 patterns) \<and>
      re_search pat_all_workspaces ?q = Some ?m"
    by (simp_all add: patterns_def)
  note c = conjunct2
  from t[THEN conjunct1] p n s hr have a: "parse_question ?q = Inr ?r" by blast
  from t[THEN c, THEN c, THEN conjunct1, THEN mp, OF s'(1)]
    t[THEN c, THEN c, THEN c, THEN conjunct1, THEN mp, OF s'(2)]
  have w: "\<exists>r. handle_all_workspaces ?m ?q = Inr r" by blast
  from u[THEN c, THEN conjunct1, THEN mp, OF n2]
  have b: "parse_question ''asdkjasd random gibberish'' =
      keyword_based_query ''asdkjasd random gibberish''"
    unfolding q2 .
  from t[THEN c, THEN c, THEN c, THEN c, THEN conjunct1, THEN mp, OF s1]
  obtain n v u where
    "group ?m1 1 = Inr (Some n)" "group ?m1 2 = Inr (Some v)" "group ?m1 3 = Inr (Some u)"
    "if within_limit v (Some u)
     then \<exists>tf e. get_time_filter (Some v) (Some u) = Inr tf \<and>
        parse_question both_patterns_question = Inr (Some (query_top_errors tf n), Some e)
     else handle_top_errors ?m1 (py_strip (py_lower both_patterns_question)) = Inl ValueError \<and>
        parse_question both_patterns_question =
          dispatch (drop 1 patterns) (py_strip (py_lower both_patterns_question))"
    by blast
  with g have "\<exists>e. parse_question both_patterns_question =
          Inr (Some (query_top_errors (time_filter_text 2 ''days'') ''5''), Some e)"
    by simp
  with a b w show ?thesis by simp
qed

subsection \<open>C2: every returned SQL is a single read-only statement\<close>

text \<open>
  C2: whenever \<^verbatim>\<open>parse_question\<close> returns SQL, from a rule or from the keyword
  fallback, that text, stripped and in upper case, starts with \<^verbatim>\<open>SELECT\<close>, contains
  no semicolon at all, and contains none of INSERT, UPDATE, DELETE, DROP, ALTER as a
  whole token.
\<close>

theorem generated_sql_read_only:
  assumes "parse_question q = Inr (Some sql, e)"
  shows "startswith (py_upper (py_strip sql)) ''SELECT'' \<and>
         CHR '';'' \<notin> set (py_upper (py_strip sql)) \<and>
         list_all (\<lambda>kw. \<not> has_token kw (py_upper (py_strip sql))) forbidden_keywords"
proof -
  from parse_question_generated[OF assms] generated_safe
  have s: "startswith sql ''SELECT''" and k: "kw_free sql" by blast+
  from kw_free_sublist[OF sublist_py_strip k] have k': "kw_free (py_strip sql)" .
  then have "CHR '';'' \<notin> set (py_upper (py_strip sql))"
    by (auto simp: kw_free_def dest: py_upper_semicolon)
  moreover from k' have "list_all (\<lambda>kw. \<not> has_token kw (py_upper (py_strip sql))) forbidden_keywords"
    by (auto simp: kw_free_def list_all_iff dest: has_token_sublist)
  ultimately show ?thesis using starts_select[OF s] by simp
qed

theorem generated_sql_read_only_witness:
  "parse_question ''Top 10 token users'' =
     Inr (Some (query_top_usage ''10''), Some ''Finding top 10 agents by token usage'') \<and>
   startswith (py_upper (py_strip (query_top_usage ''10''))) ''SELECT'' \<and>
   CHR '';'' \<notin> set (py_upper (py_strip (query_top_usage ''10''))) \<and>
   list_all (\<lambda>kw. \<not> has_token kw (py_upper (py_strip (query_top_usage ''10''))))
     forbidden_keywords"
proof -
  have h: "parse_question ''Top 10 token users'' =
     Inr (Some (query_top_usage ''10''), Some ''Finding top 10 agents by token usage'')"
    by code_simp
  from h generated_sql_read_only[OF h] show ?thesis by simp
qed

subsection \<open>C9: what of the question reaches the SQL\<close>

text \<open>
  C9 says that every fragment of the question that appears in the SQL has first been
  resolved through the catalog or the lexicon. The row limit of the two rules for the
  top N is not: the digits that \<^verbatim>\<open>\d+\<close> captured are interpolated after
  \<^verbatim>\<open>LIMIT\<close> as they were typed, leading zeros included, though \<^verbatim>\<open>007\<close> is neither a
  table name nor a word or a code of the lexicon.
\<close>

theorem limit_digits_verbatim_counterexample:
  "parse_question ''top 007 errors in last 2 days'' =
     Inr (Some (query_top_errors (time_filter_text 2 ''days'') ''007''),
          Some ''Finding top 007 errors from the last 2 day(s)'') \<and>
   parse_question ''highest 007 usage'' =
     Inr (Some (query_top_usage ''007''), Some ''Finding top 007 agents by token usage'') \<and>
   suffix ''LIMIT 007'' (query_top_errors (time_filter_text 2 ''days'') ''007'') \<and>
   suffix ''LIMIT 007'' (query_top_usage ''007'') \<and>
   ''007'' \<notin> set table_names \<and> ''007'' \<notin> set (map fst languages) \<and>
   ''007'' \<notin> set (map snd languages)"
  by code_simp

text \<open>
  C9 as amended: every SQL text that \<^verbatim>\<open>parse_question\<close> returns is one of the queries
  of \<^const>\<open>generated\<close>: a fixed text, or a text whose parameters are a table name of the
  catalog, a language code that is a lexicon code or the first two characters of the
  lower-cased captured word, a captured run of digits, or the number of a time filter
  written out by the program. The run of digits is the row limit of the two rules for
  the top N: their handlers copy the first group into the query as it was captured. Each
  of these parameters consists of word characters, and no word character is a quote or a
  semicolon: no quote and no statement separator of the question reaches the SQL.
\<close>

theorem sql_fragments_resolved:
  "(parse_question q = Inr (Some sql, e) \<longrightarrow> generated sql) \<and>
   (list_all py_isword g \<longrightarrow>
      list_all py_isword (lang_code (py_lower g)) \<and>
      (lang_code (py_lower g) \<in> set (map snd languages) \<or>
       lang_code (py_lower g) = take 2 (py_lower g))) \<and>
   (is_digits n \<longrightarrow> list_all py_isword n) \<and>
   (py_isword c \<longrightarrow> c \<noteq> CHR 0x27 \<and> c \<noteq> CHR '';'') \<and>
   list_all (\<lambda>t. list_all py_isword t) table_names \<and>
   (re_search pat_top_errors q1 = Some m1 \<longrightarrow>
      (\<exists>l v u. group m1 1 = Inr (Some l) \<and> group m1 2 = Inr (Some v) \<and>
         group m1 3 = Inr (Some u) \<and> is_digits l \<and>
         handle_top_errors m1 q1 =
           (if within_limit v (Some u)
            then Inr (Some (query_top_errors
                        (time_filter_text (window v (Some u))
                           (dict_get unit_map (Some u) ''days'')) l),
                Some (''Finding top '' @ l @ '' errors from the last '' @ v @ '' '' @ u @
                      ''(s)''))
            else Inl ValueError))) \<and>
   (re_search pat_top_usage q2 = Some m2 \<longrightarrow>
      (\<exists>l. group m2 1 = Inr (Some l) \<and> is_digits l \<and>
         handle_top_usage m2 q2 =
           Inr (Some (query_top_usage l),
                Some (''Finding top '' @ l @ '' agents by token usage''))))"
proof (intro conjI impI)
  assume "parse_question q = Inr (Some sql, e)"
  then show "generated sql" by (rule parse_question_generated)
next
  assume "list_all py_isword g"
  with lang_code_word[of g] lang_code_cases[of "py_lower g"]
  show "list_all py_isword (lang_code (py_lower g))"
    "lang_code (py_lower g) \<in> set (map snd languages) \<or>
     lang_code (py_lower g) = take 2 (py_lower g)"
    by blast+
next
  assume "is_digits n"
  then show "list_all py_isword n" by (rule digits_are_words)
next
  assume "py_isword c"
  with isword_not_special[of c] show "c \<noteq> CHR 0x27" "c \<noteq> CHR '';''" by blast+
next
  show "list_all (\<lambda>t. list_all py_isword t) table_names" by (rule table_names_words)
next
  assume "re_search pat_top_errors q1 = Some m1"
  from rule_top_errors[OF this, of q1]
  show "\<exists>l v u. group m1 1 = Inr (Some l) \<and> group m1 2 = Inr (Some v) \<and>
         group m1 3 = Inr (Some u) \<and> is_digits l \<and>
         handle_top_errors m1 q1 =
           (if within_limit v (Some u)
            then Inr (Some (query_top_errors
                        (time_filter_text (window v (Some u))
                           (dict_get unit_map (Some u) ''days'')) l),
                Some (''Finding top '' @ l @ '' errors from the last '' @ v @ '' '' @ u @
                      ''(s)''))
            else Inl ValueError)"
    unfolding is_digits_cap by blast
next
  assume "re_search pat_top_usage q2 = Some m2"
  from rule_top_usage[OF this, of q2]
  show "\<exists>l. group m2 1 = Inr (Some l) \<and> is_digits l \<and>
         handle_top_usage m2 q2 =
           Inr (Some (query_top_usage l),
                Some (''Finding top '' @ l @ '' agents by token usage''))"
    unfolding is_digits_cap by blast
qed

theorem sql_fragments_resolved_witness:
  "parse_question ''list all agents using Klingon language'' =
     Inr (Some (query_agents_by_language ''kl''),
          Some ''Finding all agents using klingon language'') \<and>
   generated (query_agents_by_language ''kl'') \<and>
   list_all py_isword (lang_code (py_lower ''Klingon'')) \<and>
   list_all py_isword ''24'' \<and> CHR ''k'' \<noteq> CHR 0x27 \<and> CHR ''k'' \<noteq> CHR '';'' \<and>
   handle_top_errors
     \<lparr>whole = ''top 10 errors from the last 2 weeks'',
      subs = [Some ''10'', Some ''2'', Some ''week'']\<rparr>
     ''show top 10 errors from the last 2 weeks'' =
     Inr (Some (query_top_errors (time_filter_text 14 ''days'') ''10''),
          Some ''Finding top 10 errors from the last 2 week(s)'') \<and>
   handle_top_usage \<lparr>whole = ''top 10 token'', subs = [Some ''10'']\<rparr> ''top 10 token users'' =
     Inr (Some (query_top_usage ''10''), Some ''Finding top 10 agents by token usage'')"
proof -
  let ?q1 = "''show top 10 errors from the last 2 weeks''"
  let ?m1 = "\<lparr>whole = ''top 10 errors from the last 2 weeks'',
      subs = [Some ''10'', Some ''2'', Some ''week'']\<rparr>"
  let ?q2 = "''top 10 token users''"
  let ?m2 = "\<lparr>whole = ''top 10 token'', subs = [Some ''10'']\<rparr>"
  have h: "parse_question ''list all agents using Klingon language'' =
     Inr (Some (query_agents_by_language ''kl''),
          Some ''Finding all agents using klingon language'')"
    by code_simp
  have w: "list_all py_isword ''Klingon''" "is_digits ''24''" "py_isword CHR ''k''"
    by code_simp+
  have s: "re_search pat_top_errors ?q1 = Some ?m1" "re_search pat_top_usage ?q2 = Some ?m2"
    by code_simp+
  have g: "group ?m1 1 = Inr (Some ''10'')" "group ?m1 2 = Inr (Some ''2'')"
    "group ?m1 3 = Inr (Some ''week'')" "group ?m2 1 = Inr (Some ''10'')"
    by (simp_all add: group_def)
  have l: "within_limit ''2'' (Some ''week'')"
    "time_filter_text (window ''2'' (Some ''week'')) (dict_get unit_map (Some ''week'') ''days'') =
     time_filter_text 14 ''days''"
    by code_simp+
  note t = sql_fragments_resolved[of "''list all agents using Klingon language''"
      "query_agents_by_language ''kl''" "Some ''Finding all agents using klingon language''"
      "''Klingon''" "''24''" "CHR ''k''" ?q1 ?m1 ?q2 ?m2]
  note c = conjunct2
  from t[THEN conjunct1] h have "generated (query_agents_by_language ''kl'')" by blast
  moreover from t[THEN c, THEN conjunct1] t[THEN c, THEN c, THEN conjunct1]
    t[THEN c, THEN c, THEN c, THEN conjunct1] w
  have "list_all py_isword (lang_code (py_lower ''Klingon''))"
    "list_all py_isword ''24''" "CHR ''k'' \<noteq> CHR 0x27 \<and> CHR ''k'' \<noteq> CHR '';''"
    by blast+
  moreover from t[THEN c, THEN c, THEN c, THEN c, THEN c, THEN conjunct1, THEN mp, OF s(1)]
  obtain l' v u where "group ?m1 1 = Inr (Some l')" "group ?m1 2 = Inr (Some v)"
    "group ?m1 3 = Inr (Some u)"
    "handle_top_errors ?m1 ?q1 =
       (if within_limit v (Some u)
        then Inr (Some (query_top_errors
                    (time_filter_text (window v (Some u))
                       (dict_get unit_map (Some u) ''days'')) l'),
            Some (''Finding top '' @ l' @ '' errors from the last '' @ v @ '' '' @ u @ ''(s)''))
        else Inl ValueError)"
    by blast
  with g l have "handle_top_errors ?m1 ?q1 =
     Inr (Some (query_top_errors (time_filter_text 14 ''days'') ''10''),
          Some ''Finding top 10 errors from the last 2 week(s)'')"
    by simp
  moreover from t[THEN c, THEN c, THEN c, THEN c, THEN c, THEN c, THEN mp, OF s(2)]
  obtain l' where "group ?m2 1 = Inr (Some l')"
    "handle_top_usage ?m2 ?q2 =
       Inr (Some (query_top_usage l'), Some (''Finding top '' @ l' @ '' agents by token usage''))"
    by blast
  with g have "handle_top_usage ?m2 ?q2 =
     Inr (Some (query_top_usage ''10''), Some ''Finding top 10 agents by token usage'')"
    by simp
  ultimately show ?thesis using h by simp
qed

end
